(* ===== verification/Prelude.thy ===== *)
theory Prelude
  imports Main
begin

text \<open>
  What the components share: the result type of an operation that can raise, the part of Python's
  string methods that the sources use, decimal digits of numbers, and generic facts on lists.

  A Python \<open>str\<close> is modelled as a \<open>string\<close>. Its characters are the code points below 128 (the
  identifiers, URLs, symbols and numbers of this program); the case-changing methods leave other
  characters alone. The one place where a code point above 127 matters, the byte length of a
  password, works on lists of code points instead (theory Security).
\<close>

named_theorems text_simps \<open>rewrite rules for the string methods\<close>

section \<open>Results\<close>

text \<open>\<open>Inl e\<close>: the operation raised \<open>e\<close>; \<open>Inr v\<close>: it returned \<open>v\<close>.\<close>

type_synonym ('e, 'a) result = "'e + 'a"

definition is_ok :: "('e, 'a) result \<Rightarrow> bool" where
  "is_ok r = (case r of Inl _ \<Rightarrow> False | Inr _ \<Rightarrow> True)"

lemma is_ok_simps [simp]: "is_ok (Inl e) = False" "is_ok (Inr v) = True"
  by (simp_all add: is_ok_def)

lemma is_ok_conv: "is_ok r = (\<exists>v. r = Inr v)"
  by (cases r) auto

section \<open>Characters\<close>

abbreviation code_of :: "char \<Rightarrow> nat" where
  "code_of c \<equiv> of_char c"

text \<open>\<open>str.isspace\<close> on the code points below 128.\<close>

definition py_space :: "char \<Rightarrow> bool" where
  "py_space c = (let n = code_of c in (9 \<le> n \<and> n \<le> 13) \<or> (28 \<le> n \<and> n \<le> 32))"

definition is_digit :: "char \<Rightarrow> bool" where
  "is_digit c = (48 \<le> code_of c \<and> code_of c \<le> 57)"

definition is_lower :: "char \<Rightarrow> bool" where
  "is_lower c = (97 \<le> code_of c \<and> code_of c \<le> 122)"

definition is_upper :: "char \<Rightarrow> bool" where
  "is_upper c = (65 \<le> code_of c \<and> code_of c \<le> 90)"

definition upper_char :: "char \<Rightarrow> char" where
  "upper_char c = (if is_lower c then char_of (code_of c - 32) else c)"

definition lower_char :: "char \<Rightarrow> char" where
  "lower_char c = (if is_upper c then char_of (code_of c + 32) else c)"

lemma code_of_char_of [simp]: "n < 256 \<Longrightarrow> code_of (char_of n) = n"
  by simp

lemma code_of_less [simp]: "code_of c < 256"
  using of_char_mod_256 [of c, where 'a = nat] by (metis mod_less_divisor zero_less_numeral)

lemma lower_char_code:
  "code_of (lower_char c) = (if is_upper c then code_of c + 32 else code_of c)"
  by (auto simp: lower_char_def is_upper_def)

lemma upper_char_code:
  "code_of (upper_char c) = (if is_lower c then code_of c - 32 else code_of c)"
  by (auto simp: upper_char_def is_lower_def)

lemma lower_char_idem [simp]: "lower_char (lower_char c) = lower_char c"
proof -
  have "\<not> is_upper (lower_char c)"
    by (simp only: is_upper_def lower_char_code) (auto simp: is_upper_def)
  then show ?thesis by (simp add: lower_char_def [of "lower_char c"])
qed

lemma upper_char_idem [simp]: "upper_char (upper_char c) = upper_char c"
proof -
  have "\<not> is_lower (upper_char c)"
    by (simp only: is_lower_def upper_char_code) (auto simp: is_lower_def)
  then show ?thesis by (simp add: upper_char_def [of "upper_char c"])
qed

lemma py_space_lower_char [simp]: "py_space (lower_char c) = py_space c"
  unfolding py_space_def Let_def lower_char_code by (auto simp: is_upper_def)

lemma py_space_upper_char [simp]: "py_space (upper_char c) = py_space c"
  unfolding py_space_def Let_def upper_char_code by (auto simp: is_lower_def)

section \<open>String methods\<close>

definition py_lower :: "string \<Rightarrow> string" where
  "py_lower s = map lower_char s"

definition py_upper :: "string \<Rightarrow> string" where
  "py_upper s = map upper_char s"

text \<open>\<open>s.rstrip(...)\<close> and \<open>s.strip()\<close>, with the set of stripped characters as a predicate.\<close>

definition rstrip_by :: "(char \<Rightarrow> bool) \<Rightarrow> string \<Rightarrow> string" where
  "rstrip_by p s = rev (dropWhile p (rev s))"

definition py_strip :: "string \<Rightarrow> string" where
  "py_strip s = rstrip_by py_space (dropWhile py_space s)"

definition rstrip_char :: "char \<Rightarrow> string \<Rightarrow> string" where
  "rstrip_char c s = rstrip_by (\<lambda>x. x = c) s"

definition starts_with :: "string \<Rightarrow> string \<Rightarrow> bool" where
  "starts_with p s = (take (length p) s = p)"

fun contains :: "string \<Rightarrow> string \<Rightarrow> bool" where
  "contains p [] = (p = [])"
| "contains p (c # s) = (starts_with p (c # s) \<or> contains p s)"

text \<open>\<open>s.split(sep)\<close> with a one-character separator: never the empty list.\<close>

fun py_split :: "char \<Rightarrow> string \<Rightarrow> string list" where
  "py_split sep [] = [[]]"
| "py_split sep (c # s) =
     (if c = sep then [] # py_split sep s
      else (case py_split sep s of [] \<Rightarrow> [[c]] | w # ws \<Rightarrow> (c # w) # ws))"

text \<open>\<open>s.partition(sep)\<close> without the separator itself: before and after its first occurrence.\<close>

definition partition_at :: "char \<Rightarrow> string \<Rightarrow> string \<times> string option" where
  "partition_at sep s =
     (let a = takeWhile (\<lambda>c. c \<noteq> sep) s; b = dropWhile (\<lambda>c. c \<noteq> sep) s
      in (a, if b = [] then None else Some (tl b)))"

definition rpartition_at :: "char \<Rightarrow> string \<Rightarrow> string option \<times> string" where
  "rpartition_at sep s =
     (let b = takeWhile (\<lambda>c. c \<noteq> sep) (rev s); a = dropWhile (\<lambda>c. c \<noteq> sep) (rev s)
      in (if a = [] then None else Some (rev (tl a)), rev b))"

fun py_join :: "string \<Rightarrow> string list \<Rightarrow> string" where
  "py_join sep [] = []"
| "py_join sep [w] = w"
| "py_join sep (w # v # ws) = w @ sep @ py_join sep (v # ws)"

lemma py_split_not_Nil [simp]: "py_split sep s \<noteq> []"
  by (induction s) (auto split: list.splits)

lemma py_join_split [text_simps]: "py_join [sep] (py_split sep s) = s"
proof (induction s)
  case Nil
  then show ?case by simp
next
  case (Cons c s)
  obtain w ws where w: "py_split sep s = w # ws"
    by (cases "py_split sep s") auto
  with Cons show ?case by (cases ws) auto
qed

lemma py_split_no_sep: "w \<in> set (py_split sep s) \<Longrightarrow> sep \<notin> set w"
  by (induction s arbitrary: w) (auto split: if_splits list.splits)

lemma length_py_lower [simp]: "length (py_lower s) = length s"
  by (simp add: py_lower_def)

lemma py_lower_idem [text_simps]: "py_lower (py_lower s) = py_lower s"
  by (simp add: py_lower_def)

lemma py_upper_idem [text_simps]: "py_upper (py_upper s) = py_upper s"
  by (simp add: py_upper_def)

lemma rstrip_by_last: "rstrip_by p s \<noteq> [] \<Longrightarrow> \<not> p (last (rstrip_by p s))"
  unfolding rstrip_by_def by (metis hd_dropWhile last_rev rev_is_Nil_conv)

lemma rstrip_by_idem [text_simps]: "rstrip_by p (rstrip_by p s) = rstrip_by p s"
  by (simp add: rstrip_by_def)

lemma rstrip_by_id: "s = [] \<or> \<not> p (last s) \<Longrightarrow> rstrip_by p s = s"
  unfolding rstrip_by_def
  by (metis dropWhile_eq_self_iff hd_rev rev.simps(1) rev_rev_ident)

lemma rstrip_by_append: "s \<noteq> [] \<Longrightarrow> \<not> p (last s) \<Longrightarrow> \<forall>c \<in> set t. p c \<Longrightarrow> rstrip_by p (s @ t) = s"
  unfolding rstrip_by_def
  by (metis append_Nil2 dropWhile_append2 dropWhile_eq_self_iff hd_rev rev_append rev_rev_ident set_rev)

lemma rstrip_by_prefix: "\<exists>t. s = rstrip_by p s @ t"
  unfolding rstrip_by_def by (metis rev_append rev_rev_ident takeWhile_dropWhile_id)

lemma hd_rstrip_by: "rstrip_by p s \<noteq> [] \<Longrightarrow> hd (rstrip_by p s) = hd s"
  using rstrip_by_prefix [of s p] by (metis hd_append2)

lemma py_strip_hd: "py_strip s \<noteq> [] \<Longrightarrow> \<not> py_space (hd (py_strip s))"
  unfolding py_strip_def
  by (metis hd_dropWhile hd_rstrip_by rstrip_by_def dropWhile.simps(1) rev.simps(1))

lemma py_strip_last: "py_strip s \<noteq> [] \<Longrightarrow> \<not> py_space (last (py_strip s))"
  unfolding py_strip_def by (rule rstrip_by_last)

lemma py_strip_id: "s = [] \<or> \<not> py_space (hd s) \<and> \<not> py_space (last s) \<Longrightarrow> py_strip s = s"
  unfolding py_strip_def by (metis dropWhile_eq_self_iff rstrip_by_id)

lemma py_strip_idem [text_simps]: "py_strip (py_strip s) = py_strip s"
  by (metis py_strip_hd py_strip_id py_strip_last)

lemma py_strip_lower [text_simps]: "py_strip (py_lower s) = py_lower (py_strip s)"
  by (simp add: py_strip_def py_lower_def rstrip_by_def dropWhile_map rev_map o_def)

lemma py_strip_upper [text_simps]: "py_strip (py_upper s) = py_upper (py_strip s)"
  by (simp add: py_strip_def py_upper_def rstrip_by_def dropWhile_map rev_map o_def)

lemma starts_with_append: "starts_with p s = (\<exists>t. s = p @ t)"
  unfolding starts_with_def by (metis append_eq_conv_conj append_take_drop_id)

end
