(* ===== verification/Numbers.thy ===== *)
theory Numbers
  imports Prelude Complex_Main
begin

text \<open>
  \<open>app/core/numbers.py\<close> and the part of Python's \<open>decimal\<close> and \<open>int\<close> it rests on: decimal digits,
  \<open>str(int)\<close> and \<open>int(str)\<close>, the \<open>Decimal\<close> constructor on a string, comparison, \<open>normalize()\<close> in
  the default context (28 digits, ROUND_HALF_EVEN, exponents from -999999 to 999999, Overflow
  trapped) and \<open>format(d, "f")\<close>.

  The lemmas show that \<open>format_decimal\<close> is a canonical plain rendering: reading the text back gives
  the same number, and numerically equal decimals of at most 28 digits print identically.
\<close>

section \<open>Digits and integers\<close>

fun digits :: "nat \<Rightarrow> nat list" where
  "digits n = (if 10 \<le> n then digits (n div 10) @ [n mod 10] else [n])"

declare digits.simps [simp del]

definition digit_char :: "nat \<Rightarrow> char" where
  "digit_char d = char_of (48 + d)"

definition digit_val :: "char \<Rightarrow> nat" where
  "digit_val c = code_of c - 48"

definition str_nat :: "nat \<Rightarrow> string" where
  "str_nat n = map digit_char (digits n)"

definition str_int :: "int \<Rightarrow> string" where
  "str_int i = (if i < 0 then CHR ''-'' # str_nat (nat (- i)) else str_nat (nat i))"

definition nat_of_str :: "string \<Rightarrow> nat" where
  "nat_of_str s = foldl (\<lambda>n c. 10 * n + digit_val c) 0 s"

definition all_digits :: "string \<Rightarrow> bool" where
  "all_digits s = (s \<noteq> [] \<and> list_all is_digit s)"

text \<open>An optional sign in front of the rest of a numeral.\<close>

definition split_sign :: "string \<Rightarrow> bool \<times> string" where
  "split_sign s =
     (case s of [] \<Rightarrow> (False, [])
      | c # r \<Rightarrow> if c = CHR ''-'' then (True, r) else if c = CHR ''+'' then (False, r) else (False, s))"

text \<open>
  \<open>int(str)\<close>: surrounding whitespace, a sign, digits with single underscores between them;
  anything else raises ValueError (here None).
\<close>

fun underscores_ok :: "string \<Rightarrow> bool" where
  "underscores_ok [] = True"
| "underscores_ok [c] = (c \<noteq> CHR ''_'')"
| "underscores_ok (c # d # s) = (\<not> (c = CHR ''_'' \<and> d = CHR ''_'') \<and> underscores_ok (d # s))"

definition int_of_str :: "string \<Rightarrow> int option" where
  "int_of_str s =
     (let (neg, r) = split_sign (py_strip s); ds = filter (\<lambda>c. c \<noteq> CHR ''_'') r
      in if all_digits ds \<and> underscores_ok r \<and> hd r \<noteq> CHR ''_''
         then Some (if neg then - int (nat_of_str ds) else int (nat_of_str ds)) else None)"

section \<open>Decimals\<close>

text \<open>A decimal is sign, coefficient and exponent, or an infinity (with its sign), or a NaN.\<close>

datatype decimal = Fin bool nat int | Infinite bool | NaN

fun is_finite :: "decimal \<Rightarrow> bool" where
  "is_finite (Fin _ _ _) = True"
| "is_finite _ = False"

fun dec_exponent :: "decimal \<Rightarrow> int" where
  "dec_exponent (Fin _ _ e) = e"
| "dec_exponent _ = 0"

definition signed :: "bool \<Rightarrow> nat \<Rightarrow> int" where
  "signed neg c = (if neg then - int c else int c)"

text \<open>\<open>a < b\<close> on decimals: exact, on the common exponent. No comparison in the sources meets a NaN.\<close>

fun dec_less :: "decimal \<Rightarrow> decimal \<Rightarrow> bool" where
  "dec_less (Fin s c e) (Fin t d f) =
     (signed s c * 10 ^ nat (e - min e f) < signed t d * 10 ^ nat (f - min e f))"
| "dec_less (Fin _ _ _) (Infinite t) = (\<not> t)"
| "dec_less (Infinite s) (Fin _ _ _) = s"
| "dec_less (Infinite s) (Infinite t) = (s \<and> \<not> t)"
| "dec_less _ _ = False"

text \<open>The number a finite decimal denotes.\<close>

fun dec_value :: "decimal \<Rightarrow> rat" where
  "dec_value (Fin s c e) = of_int (signed s c) * 10 powi e"
| "dec_value _ = 0"

subsection \<open>The constructor \<open>Decimal(text)\<close>\<close>

text \<open>\<open>\d*(\.\d*)?([eE][+-]?\d+)?\<close> with a digit before or right after the point.\<close>

definition parse_exponent :: "string \<Rightarrow> int option" where
  "parse_exponent r =
     (case r of [] \<Rightarrow> Some 0
      | c # r' \<Rightarrow>
         if c = CHR ''e'' \<or> c = CHR ''E'' then
           (let (neg, ds) = split_sign r'
            in if all_digits ds then Some (signed neg (nat_of_str ds)) else None)
         else None)"

definition parse_number :: "bool \<Rightarrow> string \<Rightarrow> decimal option" where
  "parse_number neg r =
     (let ip = takeWhile is_digit r; r1 = dropWhile is_digit r;
          dotted = (r1 \<noteq> [] \<and> hd r1 = CHR ''.'');
          fp = (if dotted then takeWhile is_digit (tl r1) else []);
          r2 = (if dotted then dropWhile is_digit (tl r1) else r1)
      in if ip = [] \<and> fp = [] then None
         else map_option (\<lambda>x. Fin neg (nat_of_str (ip @ fp)) (x - int (length fp))) (parse_exponent r2))"

definition parse_special :: "bool \<Rightarrow> string \<Rightarrow> decimal option" where
  "parse_special neg r =
     (let l = py_lower r
      in if l = ''inf'' \<or> l = ''infinity'' then Some (Infinite neg)
         else if starts_with ''nan'' l \<and> list_all is_digit (drop 3 l) then Some NaN
         else if starts_with ''snan'' l \<and> list_all is_digit (drop 4 l) then Some NaN
         else None)"

text \<open>None is \<open>decimal.InvalidOperation\<close>.\<close>

definition decimal_of_str :: "string \<Rightarrow> decimal option" where
  "decimal_of_str s =
     (let (neg, r) = split_sign (filter (\<lambda>c. c \<noteq> CHR ''_'') (py_strip s))
      in case parse_number neg r of Some d \<Rightarrow> Some d | None \<Rightarrow> parse_special neg r)"

subsection \<open>\<open>Decimal.normalize()\<close>\<close>

datatype number_error = NonFinite | Overflow

definition prec :: int where "prec = 28"
definition e_max :: int where "e_max = 999999"
definition e_tiny :: int where "e_tiny = - 1000026"
definition e_top :: int where "e_top = 999972"

definition ndigits :: "nat \<Rightarrow> int" where
  "ndigits c = int (length (digits c))"

definition round_half_even :: "nat \<Rightarrow> nat \<Rightarrow> nat" where
  "round_half_even c k =
     (let q = c div 10 ^ k; r = c mod 10 ^ k
      in if 2 * r > 10 ^ k \<or> (2 * r = 10 ^ k \<and> odd q) then q + 1 else q)"

text \<open>
  Rounding into the context (\<open>Decimal._fix\<close>): a nonzero coefficient is cut to 28 digits, or further
  where the exponent would fall below \<open>e_tiny\<close>; an exponent above the range raises Overflow.
\<close>

definition fix28 :: "nat \<Rightarrow> int \<Rightarrow> (number_error, nat \<times> int) result" where
  "fix28 c e =
     (let x = ndigits c + e - prec; m = max x e_tiny
      in if x > e_top then Inl Overflow
         else if e < m then
           (let q = round_half_even c (nat (m - e));
                (q', m') = (if ndigits q > prec then (q div 10, m + 1) else (q, m))
            in if m' > e_top then Inl Overflow else Inr (q', m'))
         else Inr (c, e))"

function strip_zeros :: "nat \<Rightarrow> int \<Rightarrow> nat \<times> int" where
  "strip_zeros c e =
     (if c \<noteq> 0 \<and> c mod 10 = 0 \<and> e < e_max then strip_zeros (c div 10) (e + 1) else (c, e))"
  by pat_completeness auto
termination
  by (relation "measure fst") auto

declare strip_zeros.simps [simp del]

definition dec_normalize :: "nat \<Rightarrow> int \<Rightarrow> (number_error, nat \<times> int) result" where
  "dec_normalize c e =
     (if c = 0 then Inr (0, 0)
      else case fix28 c e of
        Inl x \<Rightarrow> Inl x
      | Inr (q, m) \<Rightarrow> if q = 0 then Inr (0, 0) else Inr (strip_zeros q m))"

subsection \<open>\<open>format(d, "f")\<close> and \<open>format_decimal\<close>\<close>

definition zeros :: "nat \<Rightarrow> string" where
  "zeros n = replicate n (CHR ''0'')"

definition format_f :: "bool \<Rightarrow> nat \<Rightarrow> int \<Rightarrow> string" where
  "format_f neg c e =
     (let s = str_nat c; n = int (length s); dotplace = e + n;
          ip = (if dotplace < 0 then ''0''
                else if dotplace > n then s @ zeros (nat (dotplace - n))
                else if take (nat dotplace) s = [] then ''0'' else take (nat dotplace) s);
          fp = (if dotplace < 0 then zeros (nat (- dotplace)) @ s
                else if dotplace > n then [] else drop (nat dotplace) s)
      in (if neg then ''-'' else []) @ ip @ (if fp = [] then [] else CHR ''.'' # fp))"

text \<open>\<open>str(d)\<close>: scientific notation for large exponents and for very small numbers.\<close>

definition str_finite :: "bool \<Rightarrow> nat \<Rightarrow> int \<Rightarrow> string" where
  "str_finite neg c e =
     (let s = str_nat c; n = int (length s); left = e + n;
          dotplace = (if e \<le> 0 \<and> - 6 < left then left else 1);
          ip = (if dotplace \<le> 0 then ''0'' else if n \<le> dotplace then s @ zeros (nat (dotplace - n))
                else take (nat dotplace) s);
          fp = (if dotplace \<le> 0 then CHR ''.'' # zeros (nat (- dotplace)) @ s
                else if n \<le> dotplace then [] else CHR ''.'' # drop (nat dotplace) s);
          ex = (if left = dotplace then []
                else CHR ''E'' # (if left - dotplace < 0 then str_int (left - dotplace)
                                  else CHR ''+'' # str_int (left - dotplace)))
      in (if neg then ''-'' else []) @ ip @ fp @ ex)"

fun str_decimal :: "decimal \<Rightarrow> string" where
  "str_decimal (Fin neg c e) = str_finite neg c e"
| "str_decimal (Infinite neg) = (if neg then ''-Infinity'' else ''Infinity'')"
| "str_decimal NaN = ''NaN''"

fun format_decimal :: "decimal \<Rightarrow> (number_error, string) result" where
  "format_decimal (Fin neg c e) =
     (case dec_normalize c e of
        Inl x \<Rightarrow> Inl x
      | Inr (c', e') \<Rightarrow>
         (let text = format_f neg c' e';
              text' = (if CHR ''.'' \<in> set text
                       then rstrip_char (CHR ''.'') (rstrip_char (CHR ''0'') text) else text)
          in Inr (if text' = [] then ''0'' else text')))"
| "format_decimal _ = Inl NonFinite"

section \<open>Digits: reading back what was written\<close>

lemma digits_less: "d \<in> set (digits n) \<Longrightarrow> d < 10"
  by (induction n rule: digits.induct) (subst (asm) (2) digits.simps, auto split: if_splits)

lemma digits_not_Nil [simp]: "digits n \<noteq> []"
  by (subst digits.simps) simp

lemma last_digits: "last (digits n) = n mod 10"
  by (subst digits.simps) simp

lemma hd_digits_0: "hd (digits n) = 0 \<longleftrightarrow> n = 0"
  by (induction n rule: digits.induct) (subst digits.simps, auto)

lemma digit_char_val [simp]: "d < 10 \<Longrightarrow> digit_val (digit_char d) = d"
  by (simp add: digit_val_def digit_char_def)

lemma is_digit_char [simp]: "d < 10 \<Longrightarrow> is_digit (digit_char d)"
  by (simp add: is_digit_def digit_char_def)

lemma digit_char_zero: "digit_char 0 = CHR ''0''"
  by code_simp

lemma digit_char_0: "d < 10 \<Longrightarrow> digit_char d = CHR ''0'' \<longleftrightarrow> d = 0"
  using digit_char_val [of d] digit_char_val [of 0] by (metis digit_char_zero zero_less_numeral)

lemma nat_of_str_Nil [simp]: "nat_of_str [] = 0"
  by (simp add: nat_of_str_def)

lemma nat_of_str_snoc [simp]: "nat_of_str (s @ [c]) = 10 * nat_of_str s + digit_val c"
  by (simp add: nat_of_str_def)

lemma nat_of_str_append: "nat_of_str (s @ t) = nat_of_str s * 10 ^ length t + nat_of_str t"
  by (induction t rule: rev_induct) (simp_all flip: append_assoc add: algebra_simps)

lemma nat_of_str_zeros [simp]: "nat_of_str (zeros n) = 0"
  by (induction n) (simp_all add: zeros_def replicate_append_same [symmetric] digit_val_def)

lemma length_zeros [simp]: "length (zeros n) = n"
  by (simp add: zeros_def)

lemma nat_of_str_nat [simp]: "nat_of_str (str_nat n) = n"
proof (induction n rule: digits.induct)
  case (1 n)
  have snoc: "\<not> n < 10 \<Longrightarrow> str_nat n = str_nat (n div 10) @ [digit_char (n mod 10)]"
    by (simp add: str_nat_def digits.simps [of n])
  show ?case
  proof (cases "n < 10")
    case True
    then show ?thesis by (simp add: str_nat_def digits.simps [of n] nat_of_str_def)
  next
    case False
    with 1 show ?thesis by (simp add: snoc)
  qed
qed

lemma str_nat_not_Nil [simp]: "str_nat n \<noteq> []"
  by (simp add: str_nat_def)

lemma str_nat_digits: "list_all is_digit (str_nat n)"
  by (auto simp: str_nat_def list_all_iff dest: digits_less)

lemma underscores_none: "CHR ''_'' \<notin> set r \<Longrightarrow> underscores_ok r"
  by (induction r rule: underscores_ok.induct) auto

lemma zeros_digits: "list_all is_digit (zeros n)"
  by (simp add: zeros_def list_all_iff is_digit_def)

lemma last_str_nat: "last (str_nat n) = CHR ''0'' \<longleftrightarrow> n mod 10 = 0"
  by (simp add: str_nat_def last_map last_digits digit_char_0)

lemma ndigits_length: "ndigits c = int (length (str_nat c))"
  by (simp add: ndigits_def str_nat_def)

lemma is_digit_not: "is_digit c \<Longrightarrow> c \<noteq> CHR ''-'' \<and> c \<noteq> CHR ''+'' \<and> c \<noteq> CHR ''_'' \<and> c \<noteq> CHR ''.'' \<and> \<not> py_space c"
  by (auto simp: is_digit_def py_space_def Let_def)

lemma str_int_back: "int_of_str (str_int i) = Some i"
proof -
  let ?n = "str_nat (nat \<bar>i\<bar>)"
  have dig: "is_digit c" if "c \<in> set ?n" for c
    using str_nat_digits [of "nat \<bar>i\<bar>"] that by (simp add: list_all_iff)
  have no: "CHR ''_'' \<notin> set ?n" using dig is_digit_not by blast
  then have kept: "filter (\<lambda>c. c \<noteq> CHR ''_'') ?n = ?n" by (auto intro: filter_True)
  obtain c r where n: "?n = c # r" using str_nat_not_Nil by (cases ?n) auto
  have c: "is_digit c" "is_digit (last ?n)" using dig [of c] dig [OF last_in_set] n by simp_all
  have value_ok: "all_digits ?n \<and> underscores_ok ?n \<and> hd ?n \<noteq> CHR ''_''"
    using str_nat_digits [of "nat \<bar>i\<bar>"] underscores_none [OF no] c(1) is_digit_not [of c] n by (simp add: all_digits_def)
  show ?thesis
  proof (cases "i < 0")
    case True
    then have s: "str_int i = CHR ''-'' # ?n" by (simp add: str_int_def)
    have "py_strip (CHR ''-'' # ?n) = CHR ''-'' # ?n"
      by (rule py_strip_id) (use c(2) is_digit_not in \<open>auto simp: py_space_def\<close>)
    then show ?thesis using True value_ok kept unfolding s int_of_str_def split_sign_def
      by (simp add: Let_def)
  next
    case False
    then have s: "str_int i = ?n" by (simp add: str_int_def)
    have "py_strip ?n = ?n"
      by (rule py_strip_id) (use c is_digit_not n in \<open>auto simp del: last.simps\<close>)
    moreover have "split_sign ?n = (False, ?n)"
      using is_digit_not [OF c(1)] by (simp add: split_sign_def n)
    ultimately show ?thesis using False value_ok kept unfolding s int_of_str_def
      by (simp add: Let_def)
  qed
qed

lemmas all_digit_lists = str_nat_digits zeros_digits

section \<open>Normal forms\<close>

text \<open>
  A decimal fits the context when rounding into it changes nothing: at most 28 digits, and an
  exponent inside the range. Every quantity the webhook accepts fits (theory Schemas).
\<close>

fun fits28 :: "decimal \<Rightarrow> bool" where
  "fits28 (Fin _ c e) = (c = 0 \<or> ndigits c \<le> prec \<and> e_tiny \<le> e \<and> ndigits c + e - prec \<le> e_top)"
| "fits28 _ = False"

text \<open>\<open>(c, e)\<close> is in lowest terms: no trailing zero is left, unless the exponent is at its maximum.\<close>

definition lowest :: "nat \<Rightarrow> int \<Rightarrow> bool" where
  "lowest c e = (if c = 0 then e = 0 else c mod 10 \<noteq> 0)"

lemma fix28_exact:
  "c \<noteq> 0 \<Longrightarrow> fits28 (Fin s c e) \<Longrightarrow> fix28 c e = Inr (c, e)"
  by (auto simp: fix28_def Let_def)

lemma ndigits_div10: "10 \<le> c \<Longrightarrow> ndigits c = ndigits (c div 10) + 1"
  by (simp add: ndigits_def digits.simps [of c])

lemma ndigits_pos: "1 \<le> ndigits c"
  by (simp add: ndigits_def Suc_le_eq)

lemma strip_zeros_value:
  "strip_zeros c e = (c', e') \<Longrightarrow> of_nat c' * (10 :: rat) powi e' = of_nat c * 10 powi e"
proof (induction c e rule: strip_zeros.induct)
  case (1 c e)
  show ?case
  proof (cases "c \<noteq> 0 \<and> c mod 10 = 0 \<and> e < e_max")
    case True
    then obtain k where k: "c = 10 * k" by auto
    have "of_nat c' * (10 :: rat) powi e' = of_nat (c div 10) * 10 powi (e + 1)"
      using "1.IH" [OF True] "1.prems" True by (simp add: strip_zeros.simps [of c e])
    also have "\<dots> = of_nat c * 10 powi e"
      by (simp add: k power_int_add)
    finally show ?thesis .
  next
    case False
    with "1.prems" show ?thesis by (simp add: strip_zeros.simps [of c e] split: if_splits)
  qed
qed

lemma strip_zeros_lowest:
  "c \<noteq> 0 \<Longrightarrow> ndigits c + e - prec \<le> e_top \<Longrightarrow> strip_zeros c e = (c', e') \<Longrightarrow> c' \<noteq> 0 \<and> c' mod 10 \<noteq> 0"
proof (induction c e rule: strip_zeros.induct)
  case (1 c e)
  show ?case
  proof (cases "c mod 10 = 0")
    case True
    with "1.prems"(1) have big: "10 \<le> c" by presburger
    with "1.prems"(2) have "e < e_max"
      using ndigits_pos [of "c div 10"]
      by (simp add: ndigits_div10 prec_def e_top_def e_max_def)
    with True big "1.prems" "1.IH" show ?thesis
      by (simp add: strip_zeros.simps [of c e] ndigits_div10)
  next
    case False
    with "1.prems" show ?thesis by (simp add: strip_zeros.simps [of c e])
  qed
qed

lemma dec_normalize_fits:
  assumes "fits28 (Fin s c e)"
  obtains c' e' where "dec_normalize c e = Inr (c', e')" "lowest c' e'"
    "of_nat c' * (10 :: rat) powi e' = of_nat c * 10 powi e"
proof (cases "c = 0")
  case True
  then show ?thesis using that [of 0 0] by (simp add: dec_normalize_def lowest_def)
next
  case False
  obtain c' e' where st: "strip_zeros c e = (c', e')" by fastforce
  from assms False have "dec_normalize c e = Inr (c', e')"
    by (simp add: dec_normalize_def fix28_exact [OF False assms] st)
  moreover from assms False have "c' \<noteq> 0 \<and> c' mod 10 \<noteq> 0"
    using strip_zeros_lowest [OF False _ st] by simp
  ultimately show ?thesis
    using that strip_zeros_value [OF st] by (simp add: lowest_def)
qed

lemma lowest_unique_le:
  assumes "(of_nat c :: rat) * 10 powi e = of_nat d * 10 powi f" "e \<le> f" "c mod 10 \<noteq> 0"
  shows "c = d \<and> e = f"
proof -
  obtain k where k: "f = e + int k" using assms(2) by (metis zle_iff_zadd)
  have "(of_nat c :: rat) = of_nat (d * 10 ^ k)"
    using assms(1) by (simp add: k power_int_add)
  then have c: "c = d * 10 ^ k" by (simp only: of_nat_eq_iff)
  with assms(3) have "k = 0" by (cases k) auto
  with c k show ?thesis by simp
qed

lemma lowest_unique:
  assumes "(of_nat c :: rat) * 10 powi e = of_nat d * 10 powi f" "lowest c e" "lowest d f"
  shows "c = d \<and> e = f"
proof (cases "c = 0 \<or> d = 0")
  case True
  with assms show ?thesis by (auto simp: lowest_def split: if_splits)
next
  case False
  with assms have "c mod 10 \<noteq> 0" "d mod 10 \<noteq> 0" by (auto simp: lowest_def)
  then show ?thesis
    using lowest_unique_le [of c e d f] lowest_unique_le [of d f c e] assms(1) by (metis linear)
qed

section \<open>The rendered text\<close>

definition sign_text :: "bool \<Rightarrow> string" where
  "sign_text neg = (if neg then ''-'' else [])"

lemma format_f_nonneg:
  "0 \<le> e \<Longrightarrow> format_f neg c e = sign_text neg @ str_nat c @ zeros (nat e)"
  by (cases "e = 0") (simp_all add: format_f_def Let_def sign_text_def zeros_def)

lemma format_f_neg:
  assumes "e < 0"
  obtains ip fp where "format_f neg c e = sign_text neg @ ip @ CHR ''.'' # fp"
    "ip \<noteq> []" "list_all is_digit ip" "fp \<noteq> []" "list_all is_digit fp" "int (length fp) = - e"
    "nat_of_str (ip @ fp) = c" "last fp = last (str_nat c)"
proof -
  let ?s = "str_nat c" and ?n = "int (length (str_nat c))"
  let ?p = "e + ?n"
  have zero: "nat_of_str ''0'' = 0" "is_digit (CHR ''0'')"
    by (simp_all add: nat_of_str_def digit_val_def is_digit_def)
  show ?thesis
  proof (cases "?p < 0")
    case True
    have "format_f neg c e = sign_text neg @ ''0'' @ CHR ''.'' # zeros (nat (- ?p)) @ ?s"
      using True unfolding format_f_def Let_def sign_text_def by simp
    moreover have "nat_of_str (''0'' @ zeros (nat (- ?p)) @ ?s) = c"
      by (simp only: nat_of_str_append) (simp add: zero)
    ultimately show ?thesis
      using True assms that [of "''0''" "zeros (nat (- ?p)) @ ?s"] all_digit_lists zero by simp
  next
    case False
    define k where "k = nat ?p"
    have k: "k < length ?s" using False assms by (simp add: k_def nat_less_iff)
    let ?ip = "if take k ?s = [] then ''0'' else take k ?s"
    have form: "format_f neg c e = sign_text neg @ ?ip @ CHR ''.'' # drop k ?s"
      using False assms k by (simp add: format_f_def Let_def sign_text_def k_def)
    have "list_all is_digit (take k ?s @ drop k ?s)" using all_digit_lists by simp
    then have digs: "list_all is_digit (take k ?s)" "list_all is_digit (drop k ?s)"
      by (simp_all del: append_take_drop_id)
    have val: "nat_of_str (?ip @ drop k ?s) = c"
    proof (cases "take k ?s = []")
      case True
      then have "?ip @ drop k ?s = ''0'' @ ?s" using k by auto
      moreover have "nat_of_str (''0'' @ ?s) = c"
        by (simp only: nat_of_str_append) (simp add: zero)
      ultimately show ?thesis by (simp only:)
    next
      case False
      then show ?thesis by (simp only: if_False append_take_drop_id nat_of_str_nat)
    qed
    have "?ip \<noteq> []" "list_all is_digit ?ip" using digs(1) zero by simp_all
    moreover have "drop k ?s \<noteq> []" "last (drop k ?s) = last ?s" using k by simp_all
    moreover have "int (length (drop k ?s)) = - e" using k False by (simp add: k_def)
    ultimately show ?thesis using that [OF form] digs(2) val by blast
  qed
qed

text \<open>The constructor on a plain numeral: digits, or digits with a point between them.\<close>

definition plain_body :: "string \<Rightarrow> bool" where
  "plain_body s = (s \<noteq> [] \<and> is_digit (hd s) \<and> is_digit (last s) \<and> (\<forall>c \<in> set s. is_digit c \<or> c = CHR ''.''))"

lemma plain_body_digits: "ip \<noteq> [] \<Longrightarrow> list_all is_digit ip \<Longrightarrow> plain_body ip"
  by (auto simp: plain_body_def list_all_iff)

lemma plain_body_point:
  "ip \<noteq> [] \<Longrightarrow> fp \<noteq> [] \<Longrightarrow> list_all is_digit ip \<Longrightarrow> list_all is_digit fp \<Longrightarrow> plain_body (ip @ CHR ''.'' # fp)"
  by (auto simp: plain_body_def list_all_iff)

lemma py_strip_plain: "plain_body b \<Longrightarrow> py_strip (sign_text neg @ b) = sign_text neg @ b"
proof -
  assume b: "plain_body b"
  then have "\<not> py_space (hd b)" "\<not> py_space (last b)" "b \<noteq> []"
    using is_digit_not by (auto simp: plain_body_def)
  moreover have "\<not> py_space (CHR ''-'')" by code_simp
  ultimately show ?thesis by (intro py_strip_id) (simp add: sign_text_def)
qed

lemma no_underscore_plain:
  "plain_body b \<Longrightarrow> filter (\<lambda>c. c \<noteq> CHR ''_'') (sign_text neg @ b) = sign_text neg @ b"
  by (auto simp: sign_text_def plain_body_def filter_id_conv dest: is_digit_not)

lemma split_sign_plain: "plain_body b \<Longrightarrow> split_sign (sign_text neg @ b) = (neg, b)"
  by (cases b) (auto simp: split_sign_def sign_text_def plain_body_def dest: is_digit_not)

lemma decimal_of_str_plain:
  "plain_body b \<Longrightarrow> parse_number neg b = Some d \<Longrightarrow> decimal_of_str (sign_text neg @ b) = Some d"
  by (simp add: decimal_of_str_def py_strip_plain no_underscore_plain split_sign_plain del: filter_append)

lemma span_digits:
  "list_all is_digit ip \<Longrightarrow> r = [] \<or> \<not> is_digit (hd r) \<Longrightarrow>
     takeWhile is_digit (ip @ r) = ip \<and> dropWhile is_digit (ip @ r) = r"
  by (cases r) (auto simp: list_all_iff takeWhile_append2 dropWhile_append2)

lemma span_all: "list_all is_digit ip \<Longrightarrow> takeWhile is_digit ip = ip \<and> dropWhile is_digit ip = []"
  by (simp add: list_all_iff)

lemma point_not_digit: "\<not> is_digit (CHR ''.'')"
  by code_simp

lemma parse_number_digits:
  "ip \<noteq> [] \<Longrightarrow> list_all is_digit ip \<Longrightarrow> parse_number neg ip = Some (Fin neg (nat_of_str ip) 0)"
  by (simp add: parse_number_def parse_exponent_def span_all)

lemma parse_number_point:
  "ip \<noteq> [] \<Longrightarrow> list_all is_digit ip \<Longrightarrow> list_all is_digit fp \<Longrightarrow>
     parse_number neg (ip @ CHR ''.'' # fp) = Some (Fin neg (nat_of_str (ip @ fp)) (- int (length fp)))"
  using span_digits [of ip "CHR ''.'' # fp"] point_not_digit
  by (simp add: parse_number_def parse_exponent_def Let_def span_all)

text \<open>
  The shape of the text, for lowest terms: nothing is stripped from it, it is plain, and the
  constructor reads the number back.
\<close>

definition strip_point :: "string \<Rightarrow> string" where
  "strip_point text =
     (if CHR ''.'' \<in> set text then rstrip_char (CHR ''.'') (rstrip_char (CHR ''0'') text) else text)"

lemma format_f_text:
  assumes "lowest c e" "text = format_f neg c e"
  shows "strip_point text = text \<and> (\<exists>b. text = sign_text neg @ b \<and> plain_body b \<and>
    (CHR ''.'' \<in> set b \<longrightarrow> last b \<noteq> CHR ''0'') \<and>
    decimal_of_str text = Some (if e < 0 then Fin neg c e else Fin neg (c * 10 ^ nat e) 0))"
proof (cases "e < 0")
  case True
  obtain ip fp where f: "format_f neg c e = sign_text neg @ ip @ CHR ''.'' # fp"
      "ip \<noteq> []" "list_all is_digit ip" "fp \<noteq> []" "list_all is_digit fp" "int (length fp) = - e"
      "nat_of_str (ip @ fp) = c" "last fp = last (str_nat c)"
    using format_f_neg [OF True] by blast
  from True assms(1) have c: "c mod 10 \<noteq> 0" by (auto simp: lowest_def split: if_splits)
  then have last0: "last fp \<noteq> CHR ''0''" using f(8) by (simp add: last_str_nat)
  have "last fp \<noteq> CHR ''.''" using f(4,5) is_digit_not [of "last fp"] by (auto simp: list_all_iff)
  then have "strip_point text = text"
    using last0 f(4) unfolding assms(2) f(1) strip_point_def rstrip_char_def by (simp add: rstrip_by_id)
  moreover have "decimal_of_str text = Some (Fin neg c e)"
    unfolding assms(2) f(1)
    using decimal_of_str_plain [OF plain_body_point [OF f(2,4,3,5)] parse_number_point [OF f(2,3,5)]] f(6,7)
    by simp
  ultimately show ?thesis
    using True last0 f(1,4) plain_body_point [OF f(2,4,3,5)] by (auto simp: assms(2))
next
  case False
  let ?b = "str_nat c @ zeros (nat e)"
  have b: "list_all is_digit ?b" "?b \<noteq> []" using all_digit_lists by simp_all
  then have point: "CHR ''.'' \<notin> set ?b" "CHR ''.'' \<notin> set (sign_text neg @ ?b)"
    using is_digit_not by (fastforce simp: list_all_iff sign_text_def)+
  have "nat_of_str ?b = c * 10 ^ nat e" by (simp add: nat_of_str_append)
  then have "decimal_of_str (sign_text neg @ ?b) = Some (Fin neg (c * 10 ^ nat e) 0)"
    using decimal_of_str_plain [OF plain_body_digits [OF b(2,1)] parse_number_digits [OF b(2,1)]] by simp
  moreover have "text = sign_text neg @ ?b" using False assms(2) by (simp add: format_f_nonneg)
  moreover have "strip_point text = text" using point(2) calculation(2) by (simp add: strip_point_def)
  ultimately show ?thesis using False point(1) plain_body_digits [OF b(2,1)] by auto
qed

lemma format_decimal_fits:
  assumes "fits28 (Fin neg c e)" "dec_normalize c e = Inr (c', e')" "lowest c' e'"
  shows "format_decimal (Fin neg c e) = Inr (format_f neg c' e')"
proof -
  have "strip_point (format_f neg c' e') = format_f neg c' e'" "format_f neg c' e' \<noteq> []"
    using format_f_text [OF assms(3) refl, of neg] by (auto simp: plain_body_def)
  then show ?thesis using assms(2) by (simp add: strip_point_def Let_def split: if_splits)
qed
declare format_decimal.simps [simp del]

text \<open>Every value that fits is rendered from its normal form.\<close>

lemma format_decimal_normal:
  assumes "fits28 (Fin neg c e)"
  obtains c' e' where "lowest c' e'" "format_decimal (Fin neg c e) = Inr (format_f neg c' e')"
    "of_nat c' * (10 :: rat) powi e' = of_nat c * 10 powi e"
  using dec_normalize_fits [OF assms] format_decimal_fits [OF assms] by metis

lemma fits28_Fin: "fits28 d \<Longrightarrow> \<exists>neg c e. d = Fin neg c e"
  by (cases d) auto

lemma dec_value_signed: "dec_value (Fin neg c e) = (if neg then - 1 else 1) * (of_nat c * 10 powi e)"
  by (simp add: signed_def)

lemma ndigits_le: "0 < n \<Longrightarrow> c < 10 ^ n \<Longrightarrow> ndigits c \<le> int n"
proof (induction n arbitrary: c)
  case 0
  then show ?case by simp
next
  case (Suc n)
  show ?case
  proof (cases "c < 10")
    case True
    then show ?thesis by (simp add: ndigits_def digits.simps [of c])
  next
    case False
    then have n: "0 < n" using Suc.prems(2) by (cases n) auto
    have "c div 10 < 10 ^ n" using Suc.prems(2) by (simp add: less_mult_imp_div_less mult.commute)
    with Suc.IH n have "ndigits (c div 10) \<le> int n" by blast
    with False show ?thesis by (simp add: ndigits_div10)
  qed
qed

text \<open>A simple sufficient condition: fewer than 29 digits and an exponent in a wide range.\<close>

lemma fits28_bound: "c < 10 ^ 28 \<Longrightarrow> e_tiny \<le> e \<Longrightarrow> e \<le> e_top \<Longrightarrow> fits28 (Fin neg c e)"
  using ndigits_le [of 28 c] by (simp add: prec_def)

lemma format_decimal_reads_back:
  assumes "fits28 d"
  shows "\<exists>text d'. format_decimal d = Inr text \<and> decimal_of_str text = Some d' \<and> dec_value d' = dec_value d"
proof -
  obtain neg c e where d: "d = Fin neg c e" using fits28_Fin [OF assms] by blast
  obtain c' e' where n: "lowest c' e'" "format_decimal d = Inr (format_f neg c' e')"
      "of_nat c' * (10 :: rat) powi e' = of_nat c * 10 powi e"
    using format_decimal_normal assms unfolding d by blast
  let ?d' = "if e' < 0 then Fin neg c' e' else Fin neg (c' * 10 ^ nat e') 0"
  have "dec_value ?d' = dec_value (Fin neg c' e')"
    by (simp add: signed_def power_int_def)
  also have "\<dots> = dec_value d" by (simp only: n(3) d dec_value_signed)
  finally show ?thesis using format_f_text [OF n(1) refl, of neg] n(2) by blast
qed

lemma same_text_iff:
  assumes "fits28 (Fin neg c e)" "fits28 (Fin neg d f)"
  shows "format_decimal (Fin neg c e) = format_decimal (Fin neg d f) \<longleftrightarrow>
    dec_value (Fin neg c e) = dec_value (Fin neg d f)"
proof -
  obtain c' e' where a: "lowest c' e'" "format_decimal (Fin neg c e) = Inr (format_f neg c' e')"
      "of_nat c' * (10 :: rat) powi e' = of_nat c * 10 powi e"
    using format_decimal_normal [OF assms(1)] by blast
  obtain d' f' where b: "lowest d' f'" "format_decimal (Fin neg d f) = Inr (format_f neg d' f')"
      "of_nat d' * (10 :: rat) powi f' = of_nat d * 10 powi f"
    using format_decimal_normal [OF assms(2)] by blast
  have val: "dec_value (Fin neg c e) = dec_value (Fin neg d f) \<longleftrightarrow>
      of_nat c' * (10 :: rat) powi e' = of_nat d' * 10 powi f'"
    unfolding dec_value_signed a(3) b(3) by simp
  show ?thesis
  proof
    assume "format_decimal (Fin neg c e) = format_decimal (Fin neg d f)"
    then show "dec_value (Fin neg c e) = dec_value (Fin neg d f)"
      using format_decimal_reads_back [OF assms(1)] format_decimal_reads_back [OF assms(2)]
      by (metis Inr_inject option.inject)
  next
    assume "dec_value (Fin neg c e) = dec_value (Fin neg d f)"
    then have "c' = d' \<and> e' = f'" using val lowest_unique [OF _ a(1) b(1)] by blast
    then show "format_decimal (Fin neg c e) = format_decimal (Fin neg d f)" by (simp only: a(2) b(2))
  qed
qed

lemma same_value_same_text:
  "fits28 (Fin neg d f) \<Longrightarrow> fits28 (Fin neg c e) \<Longrightarrow> dec_value (Fin neg d f) = dec_value (Fin neg c e) \<Longrightarrow>
     format_decimal (Fin neg d f) = format_decimal (Fin neg c e)"
  by (simp only: same_text_iff)

section \<open>Properties\<close>

text \<open>
  C32. Reading back the text \<open>format_decimal\<close> produces gives the number it was given, for every
  decimal of at most 28 significant digits in the context's exponent range: nothing is lost on the
  way to the API response or to the exchange.
\<close>
theorem format_decimal_roundtrip:
  assumes "fits28 d"
  shows "\<exists>text d'. format_decimal d = Inr text \<and> decimal_of_str text = Some d' \<and> dec_value d' = dec_value d"
  using assms by (rule format_decimal_reads_back)

theorem format_decimal_roundtrip_witness:
  "\<exists>text d'. format_decimal (Fin False 1000000000 (- 12)) = Inr text \<and> decimal_of_str text = Some d' \<and>
    dec_value d' = dec_value (Fin False 1000000000 (- 12))"
  by (rule format_decimal_roundtrip, rule fits28_bound) (simp_all add: e_tiny_def e_top_def)

text \<open>
  The rendering is canonical: two decimals that fit and carry the same sign print as the same
  text exactly when they are the same number. So a quantity padded by the NUMERIC(28, 12) column
  prints as the quantity the client sent.
\<close>
theorem format_decimal_canonical:
  assumes "fits28 (Fin neg c e)" "fits28 (Fin neg d f)"
  shows "format_decimal (Fin neg c e) = format_decimal (Fin neg d f) \<longleftrightarrow>
    dec_value (Fin neg c e) = dec_value (Fin neg d f)"
  using assms by (rule same_text_iff)

theorem format_decimal_canonical_witness:
  "format_decimal (Fin False 1000000000 (- 12)) = format_decimal (Fin False 1 (- 3)) \<longleftrightarrow>
    dec_value (Fin False 1000000000 (- 12)) = dec_value (Fin False 1 (- 3))"
  by (rule format_decimal_canonical; rule fits28_bound) (simp_all add: e_tiny_def e_top_def)

text \<open>
  The text is in plain notation: an optional minus sign, then digits with at most one point
  between digits - never an exponent - and after a point the last digit is not a zero.
\<close>
theorem format_decimal_plain:
  assumes "fits28 d" "format_decimal d = Inr text"
  shows "\<exists>neg b. text = sign_text neg @ b \<and> plain_body b \<and> (CHR ''.'' \<in> set b \<longrightarrow> last b \<noteq> CHR ''0'')"
proof -
  obtain neg c e where d: "d = Fin neg c e" using fits28_Fin [OF assms(1)] by blast
  obtain c' e' where n: "lowest c' e'" "format_decimal d = Inr (format_f neg c' e')"
    using format_decimal_normal assms(1) unfolding d by blast
  then show ?thesis using format_f_text [OF n(1) refl, of neg] assms(2) by auto
qed

theorem format_decimal_plain_witness:
  "format_decimal (Fin True 50 (- 1)) = Inr ''-5'' \<and>
    (\<exists>neg b. ''-5'' = sign_text neg @ b \<and> plain_body b \<and> (CHR ''.'' \<in> set b \<longrightarrow> last b \<noteq> CHR ''0''))"
proof -
  have f: "fits28 (Fin True 50 (- 1))" by (rule fits28_bound) (simp_all add: e_tiny_def e_top_def)
  have v: "format_decimal (Fin True 50 (- 1)) = Inr ''-5''" by code_simp
  show ?thesis using v format_decimal_plain [OF f v] by blast
qed

text \<open>The order on finite decimals is the order of the numbers they denote.\<close>

lemma dec_value_scaled:
  "m \<le> e \<Longrightarrow> dec_value (Fin s c e) = of_int (signed s c * 10 ^ nat (e - m)) * 10 powi m"
  by (simp add: power_int_diff flip: power_int_of_nat)

theorem dec_less_exact: "dec_less (Fin s c e) (Fin t d f) \<longleftrightarrow> dec_value (Fin s c e) < dec_value (Fin t d f)"
  unfolding dec_value_scaled [of "min e f" e, OF min.cobounded1] dec_value_scaled [of "min e f" f, OF min.cobounded2]
  by (simp only: dec_less.simps mult_less_cancel_right_pos zero_less_power_int of_int_less_iff zero_less_numeral)
end
