(* ===== verification/Models.thy ===== *)
theory Models
  imports Numbers
begin

text \<open>
  \<open>app/db/models.py\<close> and the initial migration: the two enumerations, the status sets, the rows of
  the two tables, and what their column types accept. Times are integers, in microseconds since the
  epoch (UTC).
\<close>

section \<open>Enumerations\<close>

datatype order_side = BUY | SELL

fun side_value :: "order_side \<Rightarrow> string" where
  "side_value BUY = ''BUY''"
| "side_value SELL = ''SELL''"

datatype trade_status =
  PENDING | UNKNOWN | NEW | PARTIALLY_FILLED | FILLED | CANCELLED | REJECTED | EXPIRED | FAILED

fun status_value :: "trade_status \<Rightarrow> string" where
  "status_value PENDING = ''PENDING''"
| "status_value UNKNOWN = ''UNKNOWN''"
| "status_value NEW = ''NEW''"
| "status_value PARTIALLY_FILLED = ''PARTIALLY_FILLED''"
| "status_value FILLED = ''FILLED''"
| "status_value CANCELLED = ''CANCELLED''"
| "status_value REJECTED = ''REJECTED''"
| "status_value EXPIRED = ''EXPIRED''"
| "status_value FAILED = ''FAILED''"

instantiation trade_status :: enum
begin

definition enum_trade_status :: "trade_status list" where
  "enum_trade_status =
     [PENDING, UNKNOWN, NEW, PARTIALLY_FILLED, FILLED, CANCELLED, REJECTED, EXPIRED, FAILED]"

definition enum_all_trade_status :: "(trade_status \<Rightarrow> bool) \<Rightarrow> bool" where
  "enum_all_trade_status p = list_all p enum_class.enum"

definition enum_ex_trade_status :: "(trade_status \<Rightarrow> bool) \<Rightarrow> bool" where
  "enum_ex_trade_status p = list_ex p enum_class.enum"

instance
proof
  show univ: "UNIV = set (enum_class.enum :: trade_status list)"
    unfolding enum_trade_status_def by (auto intro: trade_status.exhaust)
  show "distinct (enum_class.enum :: trade_status list)"
    by (simp add: enum_trade_status_def)
  show "enum_class.enum_all P = Ball UNIV P" for P :: "trade_status \<Rightarrow> bool"
    by (simp add: univ enum_all_trade_status_def list_all_iff)
  show "enum_class.enum_ex P = Bex UNIV P" for P :: "trade_status \<Rightarrow> bool"
    by (simp add: univ enum_ex_trade_status_def list_ex_iff)
qed

end

definition TERMINAL_STATUSES :: "trade_status set" where
  "TERMINAL_STATUSES = {FILLED, CANCELLED, REJECTED, EXPIRED, FAILED}"

definition RECONCILABLE_STATUSES :: "trade_status set" where
  "RECONCILABLE_STATUSES = {PENDING, UNKNOWN, NEW, PARTIALLY_FILLED}"

section \<open>Rows\<close>

record user =
  u_id :: int
  email :: string
  password_hash :: string
  is_active :: bool
  u_created_at :: int
  u_updated_at :: int

record trade =
  t_id :: int
  user_id :: int
  signal_id :: string
  client_order_id :: string
  symbol :: string
  side :: order_side
  order_type :: string
  quantity :: decimal
  status :: trade_status
  binance_order_id :: "int option"
  binance_status :: "string option"
  executed_quantity :: "decimal option"
  cumulative_quote_quantity :: "decimal option"
  error_code :: "string option"
  error_message :: "string option"
  submitted_at :: "int option"
  reconciled_at :: "int option"
  created_at :: int
  updated_at :: int

definition is_terminal :: "trade \<Rightarrow> bool" where
  "is_terminal t = (status t \<in> TERMINAL_STATUSES)"

section \<open>Column types\<close>

text \<open>
  \<open>NUMERIC(28, 12)\<close>: a value is rounded to twelve places, half away from zero, and refused when its
  magnitude reaches ten to the sixteenth. What comes back is padded to exactly twelve places.
\<close>

fun numeric_28_12 :: "decimal \<Rightarrow> decimal option" where
  "numeric_28_12 (Fin neg c e) =
     (let q = (if - 12 \<le> e then c * 10 ^ nat (e + 12)
               else let k = 10 ^ nat (- 12 - e)
                    in if k \<le> 2 * (c mod k) then c div k + 1 else c div k)
      in if q < 10 ^ 28 then Some (Fin (neg \<and> q \<noteq> 0) q (- 12)) else None)"
| "numeric_28_12 (Infinite _) = None"
| "numeric_28_12 NaN = Some NaN"

declare numeric_28_12.simps [simp del]

definition numeric_opt :: "decimal option \<Rightarrow> decimal option option" where
  "numeric_opt x = (case x of None \<Rightarrow> Some None | Some d \<Rightarrow> map_option Some (numeric_28_12 d))"

definition bigint_ok :: "int option \<Rightarrow> bool" where
  "bigint_ok x = (case x of None \<Rightarrow> True | Some i \<Rightarrow> - (2 ^ 63) \<le> i \<and> i < 2 ^ 63)"

text \<open>The range of an INTEGER, of columns and of the parameters compared with them.\<close>

definition int32 :: "int \<Rightarrow> bool" where
  "int32 i = (- (2 ^ 31) \<le> i \<and> i < 2 ^ 31)"

text \<open>No text type takes a NUL; a VARCHAR limits the length as well.\<close>

definition nul_free :: "string \<Rightarrow> bool" where
  "nul_free s = (CHR 0x00 \<notin> set s)"

definition text_ok :: "string option \<Rightarrow> bool" where
  "text_ok x = (case x of None \<Rightarrow> True | Some s \<Rightarrow> nul_free s)"

definition varchar_ok :: "nat \<Rightarrow> string option \<Rightarrow> bool" where
  "varchar_ok n x = (case x of None \<Rightarrow> True | Some s \<Rightarrow> length s \<le> n \<and> nul_free s)"

lemma nul_free_simps [simp]: "nul_free []" "nul_free (c # s) \<longleftrightarrow> c \<noteq> CHR 0x00 \<and> nul_free s"
  "nul_free (s @ r) \<longleftrightarrow> nul_free s \<and> nul_free r"
  by (auto simp: nul_free_def)

lemma text_ok_simps [simp]: "text_ok None" "text_ok (Some s) = nul_free s"
  by (simp_all add: text_ok_def)

lemma nul_free_take: "nul_free s \<Longrightarrow> nul_free (take n s)"
  by (auto simp: nul_free_def dest: in_set_takeD)


text \<open>The row a \<open>trades\<close> table stores for an object, or None when a column type refuses a value.\<close>

definition store_row :: "trade \<Rightarrow> trade option" where
  "store_row t =
     (if varchar_ok 64 (Some (signal_id t)) \<and> varchar_ok 36 (Some (client_order_id t)) \<and>
         varchar_ok 20 (Some (symbol t)) \<and> varchar_ok 20 (Some (order_type t)) \<and> bigint_ok (binance_order_id t) \<and>
         varchar_ok 32 (binance_status t) \<and> varchar_ok 64 (error_code t) \<and> text_ok (error_message t)
      then
        (case (numeric_28_12 (quantity t), numeric_opt (executed_quantity t),
               numeric_opt (cumulative_quote_quantity t)) of
           (Some q, Some x, Some y) \<Rightarrow>
             Some (t\<lparr>quantity := q, executed_quantity := x, cumulative_quote_quantity := y\<rparr>)
         | _ \<Rightarrow> None)
      else None)"

section \<open>Lemmas\<close>

lemma status_value_inject: "status_value a = status_value b \<longleftrightarrow> a = b"
  by (cases a; cases b) simp_all

lemma side_value_inject: "side_value a = side_value b \<longleftrightarrow> a = b"
  by (cases a; cases b) simp_all

lemma statuses_partition:
  "TERMINAL_STATUSES \<union> RECONCILABLE_STATUSES = UNIV" "TERMINAL_STATUSES \<inter> RECONCILABLE_STATUSES = {}"
  by (auto simp: TERMINAL_STATUSES_def RECONCILABLE_STATUSES_def intro: trade_status.exhaust)

lemma reconcilable_iff: "status t \<in> RECONCILABLE_STATUSES \<longleftrightarrow> \<not> is_terminal t"
  using statuses_partition unfolding is_terminal_def by blast

lemma store_row_fields:
  assumes "store_row t = Some r"
  shows "\<exists>q x y. r = t\<lparr>quantity := q, executed_quantity := x, cumulative_quote_quantity := y\<rparr>"
  using assms by (auto simp: store_row_def split: if_splits option.splits)

lemma store_row_keeps:
  assumes "store_row t = Some r"
  shows "t_id r = t_id t" "user_id r = user_id t" "signal_id r = signal_id t"
    "client_order_id r = client_order_id t" "symbol r = symbol t" "side r = side t"
    "status r = status t" "submitted_at r = submitted_at t" "created_at r = created_at t"
    "binance_order_id r = binance_order_id t" "error_code r = error_code t"
  using store_row_fields [OF assms] by auto

lemma store_row_quantity: "store_row t = Some r \<Longrightarrow> numeric_28_12 (quantity t) = Some (quantity r)"
  by (simp add: store_row_def split: if_splits option.splits) auto

text \<open>A value of at most twelve places is stored exactly, and what is stored fits 28 digits.\<close>

lemma numeric_28_12_exact:
  assumes "numeric_28_12 (Fin neg c e) = Some d" "- 12 \<le> e"
  shows "dec_value d = dec_value (Fin neg c e)"
proof -
  let ?q = "c * 10 ^ nat (e + 12)"
  have d: "d = Fin (neg \<and> ?q \<noteq> 0) ?q (- 12)"
    using assms by (simp add: numeric_28_12.simps Let_def split: if_splits)
  have "signed (neg \<and> ?q \<noteq> 0) ?q = signed neg c * 10 ^ nat (e - (- 12))"
    by (simp add: signed_def)
  then have "dec_value d = of_int (signed neg c * 10 ^ nat (e - (- 12))) * 10 powi (- 12)"
    by (simp only: d dec_value.simps(1))
  also have "\<dots> = dec_value (Fin neg c e)" by (rule dec_value_scaled [OF assms(2), symmetric])
  finally show ?thesis .
qed

lemma numeric_28_12_fits: "numeric_28_12 (Fin neg c e) = Some d \<Longrightarrow> fits28 d"
proof -
  assume "numeric_28_12 (Fin neg c e) = Some d"
  then obtain n q where d: "d = Fin n q (- 12)" "q < 10 ^ 28"
    unfolding numeric_28_12.simps Let_def by (metis option.distinct(1) option.inject)
  show "fits28 d" unfolding d(1) using d(2) by (rule fits28_bound) (simp_all add: e_tiny_def e_top_def)
qed

text \<open>What is stored is stored again as it is, and which values a row refuses.\<close>

lemma numeric_28_12_idem: "numeric_28_12 d = Some q \<Longrightarrow> numeric_28_12 q = Some q"
  by (cases d) (auto simp: numeric_28_12.simps Let_def split: if_splits)

lemma numeric_opt_idem: "numeric_opt d = Some q \<Longrightarrow> numeric_opt q = Some q"
  by (auto simp: numeric_opt_def numeric_28_12_idem split: option.splits)

lemma store_row_idem:
  assumes "store_row t = Some r"
  shows "store_row r = Some r"
proof -
  obtain q x y where p: "numeric_28_12 (quantity t) = Some q" "numeric_opt (executed_quantity t) = Some x"
      "numeric_opt (cumulative_quote_quantity t) = Some y"
      "r = t\<lparr>quantity := q, executed_quantity := x, cumulative_quote_quantity := y\<rparr>"
    using assms by (auto simp: store_row_def split: if_splits option.splits)
  then show ?thesis using assms numeric_28_12_idem [OF p(1)] numeric_opt_idem [OF p(2)] numeric_opt_idem [OF p(3)]
    by (auto simp: store_row_def split: if_splits)
qed

lemma store_row_fixed:
  "store_row t = Some t \<longleftrightarrow>
     varchar_ok 64 (Some (signal_id t)) \<and> varchar_ok 36 (Some (client_order_id t)) \<and>
     varchar_ok 20 (Some (symbol t)) \<and> varchar_ok 20 (Some (order_type t)) \<and> bigint_ok (binance_order_id t) \<and>
     varchar_ok 32 (binance_status t) \<and> varchar_ok 64 (error_code t) \<and> text_ok (error_message t) \<and> numeric_28_12 (quantity t) = Some (quantity t) \<and>
     numeric_opt (executed_quantity t) = Some (executed_quantity t) \<and>
     numeric_opt (cumulative_quote_quantity t) = Some (cumulative_quote_quantity t)"
proof -
  have "t\<lparr>quantity := q, executed_quantity := x, cumulative_quote_quantity := y\<rparr> = t \<longleftrightarrow>
      q = quantity t \<and> x = executed_quantity t \<and> y = cumulative_quote_quantity t" for q x y
    by (cases t) auto
  then show ?thesis by (auto simp: store_row_def split: option.splits)
qed

lemma store_row_accepts:
  "store_row t \<noteq> None \<longleftrightarrow>
     varchar_ok 64 (Some (signal_id t)) \<and> varchar_ok 36 (Some (client_order_id t)) \<and>
     varchar_ok 20 (Some (symbol t)) \<and> varchar_ok 20 (Some (order_type t)) \<and> bigint_ok (binance_order_id t) \<and>
     varchar_ok 32 (binance_status t) \<and> varchar_ok 64 (error_code t) \<and> text_ok (error_message t) \<and> numeric_28_12 (quantity t) \<noteq> None \<and>
     numeric_opt (executed_quantity t) \<noteq> None \<and> numeric_opt (cumulative_quote_quantity t) \<noteq> None"
  by (auto simp: store_row_def split: option.splits)

end
