(* ===== verification/Database.thy ===== *)
theory Database
  imports Models
begin

text \<open>
  The database the services talk to: the two tables of \<open>app/db/models.py\<close> and the initial migration,
  with their UNIQUE indexes and the foreign key, and the statements the sources issue against them.
  Each operation here is one statement in its own transaction; whether the COMMIT itself succeeds is
  decided by the environment (theory World).

  The interface \<open>trade_table\<close> states what the trading code relies on; its client lemmas say that a
  trade is claimed for submission at most once, whatever is inserted, written or claimed later. The
  interpretation at the end discharges the laws for the tables of this theory.
\<close>

section \<open>Tables and statements\<close>

record db =
  users :: "user list"
  trades :: "trade list"
  user_seq :: int
  trade_seq :: int

datatype sql_error = IntegrityError | DataError | StaleDataError | OperationalError | MissingGreenlet

definition select_trade :: "int \<Rightarrow> db \<Rightarrow> trade option" where
  "select_trade tid d = find (\<lambda>t. t_id t = tid) (trades d)"

definition select_user :: "int \<Rightarrow> db \<Rightarrow> user option" where
  "select_user uid d = find (\<lambda>u. u_id u = uid) (users d)"

definition select_user_by_email :: "string \<Rightarrow> db \<Rightarrow> user option" where
  "select_user_by_email e d = find (\<lambda>u. email u = e) (users d)"

definition select_trade_by_signal :: "string \<Rightarrow> db \<Rightarrow> trade option" where
  "select_trade_by_signal s d = find (\<lambda>t. signal_id t = s) (trades d)"

text \<open>
  INSERT INTO trades: the id comes from the sequence; the foreign key and the two UNIQUE indexes
  refuse the row with an IntegrityError. The object keeps the values it was given, the table stores
  them in its column types.
\<close>

definition insert_trade :: "trade \<Rightarrow> db \<Rightarrow> (sql_error, trade) result \<times> db" where
  "insert_trade t d =
     (let row = t\<lparr>t_id := trade_seq d\<rparr>; d1 = d\<lparr>trade_seq := trade_seq d + 1\<rparr>
      in case store_row row of
           None \<Rightarrow> (Inl DataError, d1)
         | Some stored \<Rightarrow>
             if user_id t \<notin> u_id ` set (users d) \<or> signal_id t \<in> signal_id ` set (trades d) \<or>
                client_order_id t \<in> client_order_id ` set (trades d)
             then (Inl IntegrityError, d1)
             else (Inr row, d1\<lparr>trades := trades d @ [stored]\<rparr>))"

definition insert_user :: "user \<Rightarrow> db \<Rightarrow> (sql_error, user) result \<times> db" where
  "insert_user u d =
     (let row = u\<lparr>u_id := user_seq d\<rparr>; d1 = d\<lparr>user_seq := user_seq d + 1\<rparr>
      in if \<not> (varchar_ok 320 (Some (email u)) \<and> varchar_ok 128 (Some (password_hash u))) then (Inl DataError, d1)
         else if email u \<in> email ` set (users d) then (Inl IntegrityError, d1)
         else (Inr row, d1\<lparr>users := users d @ [row]\<rparr>))"

text \<open>
  The conditional UPDATE of \<open>claim_for_submission\<close>: sets \<open>submitted_at\<close> where the row is PENDING and
  has none, and reports the number of rows it changed.
\<close>

definition claimable :: "int \<Rightarrow> trade \<Rightarrow> bool" where
  "claimable tid t = (t_id t = tid \<and> status t = PENDING \<and> submitted_at t = None)"

definition mark_submitted :: "int \<Rightarrow> trade \<Rightarrow> trade" where
  "mark_submitted now t = t\<lparr>submitted_at := Some now, updated_at := now\<rparr>"

definition update_claim :: "int \<Rightarrow> int \<Rightarrow> db \<Rightarrow> nat \<times> db" where
  "update_claim tid now d =
     (length (filter (claimable tid) (trades d)),
      d\<lparr>trades := map (\<lambda>t. if claimable tid t then mark_submitted now t else t) (trades d)\<rparr>)"

section \<open>Flushing a changed object\<close>

text \<open>
  A commit writes an object's attributes that differ from the values it was loaded with, and only
  those: another transaction's changes to the other columns survive. \<open>merge_row old new row\<close> is the
  row after the UPDATE, for an object loaded as \<open>old\<close> and now holding \<open>new\<close>. Decimals are compared
  as numbers.
\<close>

fun dec_same :: "decimal \<Rightarrow> decimal \<Rightarrow> bool" where
  "dec_same (Fin s c e) (Fin t d f) =
     (\<not> dec_less (Fin s c e) (Fin t d f) \<and> \<not> dec_less (Fin t d f) (Fin s c e))"
| "dec_same (Infinite s) (Infinite t) = (s = t)"
| "dec_same _ _ = False"

definition dec_opt_same :: "decimal option \<Rightarrow> decimal option \<Rightarrow> bool" where
  "dec_opt_same x y = (case (x, y) of (None, None) \<Rightarrow> True | (Some a, Some b) \<Rightarrow> dec_same a b | _ \<Rightarrow> False)"

definition dirty :: "trade \<Rightarrow> trade \<Rightarrow> bool" where
  "dirty old new =
     (status new \<noteq> status old \<or> binance_order_id new \<noteq> binance_order_id old \<or>
      binance_status new \<noteq> binance_status old \<or>
      \<not> dec_opt_same (executed_quantity new) (executed_quantity old) \<or>
      \<not> dec_opt_same (cumulative_quote_quantity new) (cumulative_quote_quantity old) \<or>
      error_code new \<noteq> error_code old \<or> error_message new \<noteq> error_message old \<or>
      reconciled_at new \<noteq> reconciled_at old)"

definition merge_row :: "trade \<Rightarrow> trade \<Rightarrow> trade \<Rightarrow> trade" where
  "merge_row old new row =
     row\<lparr>status := (if status new = status old then status row else status new),
         binance_order_id := (if binance_order_id new = binance_order_id old
           then binance_order_id row else binance_order_id new),
         binance_status := (if binance_status new = binance_status old
           then binance_status row else binance_status new),
         executed_quantity := (if dec_opt_same (executed_quantity new) (executed_quantity old)
           then executed_quantity row else executed_quantity new),
         cumulative_quote_quantity :=
           (if dec_opt_same (cumulative_quote_quantity new) (cumulative_quote_quantity old)
            then cumulative_quote_quantity row else cumulative_quote_quantity new),
         error_code := (if error_code new = error_code old then error_code row else error_code new),
         error_message := (if error_message new = error_message old
           then error_message row else error_message new),
         reconciled_at := (if reconciled_at new = reconciled_at old
           then reconciled_at row else reconciled_at new)\<rparr>"

definition replace_row :: "trade \<Rightarrow> db \<Rightarrow> db" where
  "replace_row r d = d\<lparr>trades := map (\<lambda>t. if t_id t = t_id r then r else t) (trades d)\<rparr>"

definition flush_trade :: "int \<Rightarrow> trade \<Rightarrow> trade \<Rightarrow> db \<Rightarrow> (sql_error, trade) result \<times> db" where
  "flush_trade now old new d =
     (if \<not> dirty old new then (Inr new, d)
      else case select_trade (t_id old) d of
             None \<Rightarrow> (Inl StaleDataError, d)
           | Some row \<Rightarrow>
               (case store_row ((merge_row old new row)\<lparr>updated_at := now\<rparr>) of
                  None \<Rightarrow> (Inl DataError, d)
                | Some r \<Rightarrow> (Inr (new\<lparr>updated_at := now\<rparr>), replace_row r d)))"

section \<open>Integrity of the tables\<close>

text \<open>What the primary keys, UNIQUE indexes, sequences and the foreign key keep true.\<close>

definition trades_ok :: "trade list \<Rightarrow> bool" where
  "trades_ok ts =
     (distinct (map t_id ts) \<and> distinct (map signal_id ts) \<and> distinct (map client_order_id ts))"

definition users_ok :: "user list \<Rightarrow> bool" where
  "users_ok us = (distinct (map u_id us) \<and> distinct (map email us))"

definition db_ok :: "db \<Rightarrow> bool" where
  "db_ok d =
     (trades_ok (trades d) \<and> users_ok (users d) \<and>
      list_all (\<lambda>t. t_id t < trade_seq d) (trades d) \<and> list_all (\<lambda>u. u_id u < user_seq d) (users d) \<and>
      list_all (\<lambda>t. user_id t \<in> u_id ` set (users d)) (trades d))"

definition empty_db :: db where
  "empty_db = \<lparr>users = [], trades = [], user_seq = 1, trade_seq = 1\<rparr>"

text \<open>The part of a row no statement ever changes, and with it the mark of the claim.\<close>

definition row_key :: "trade \<Rightarrow> int \<times> int \<times> string \<times> string" where
  "row_key t = (t_id t, user_id t, signal_id t, client_order_id t)"

definition identity :: "trade \<Rightarrow> (int \<times> int \<times> string \<times> string) \<times> int option" where
  "identity t = (row_key t, submitted_at t)"

definition submitted_in :: "trade list \<Rightarrow> int \<Rightarrow> bool" where
  "submitted_in ts tid = list_ex (\<lambda>t. t_id t = tid \<and> submitted_at t \<noteq> None) ts"

lemma empty_db_ok: "db_ok empty_db"
  by (simp add: db_ok_def empty_db_def trades_ok_def users_ok_def)

lemma find_unique:
  "distinct (map f xs) \<Longrightarrow> x \<in> set xs \<Longrightarrow> find (\<lambda>y. f y = f x) xs = Some x"
  by (induction xs) auto

lemma find_key: "find (\<lambda>y. f y = k) xs = Some x \<Longrightarrow> x \<in> set xs \<and> f x = k"
  by (auto simp: find_Some_iff)

lemma select_trade_in: "select_trade tid d = Some t \<Longrightarrow> t \<in> set (trades d) \<and> t_id t = tid"
  unfolding select_trade_def by (rule find_key)

lemma select_trade_self: "db_ok d \<Longrightarrow> t \<in> set (trades d) \<Longrightarrow> select_trade (t_id t) d = Some t"
  unfolding select_trade_def by (rule find_unique) (auto simp: db_ok_def trades_ok_def)

lemma trades_ok_inject:
  "trades_ok ts \<Longrightarrow> t \<in> set ts \<Longrightarrow> s \<in> set ts \<Longrightarrow>
     t_id t = t_id s \<or> client_order_id t = client_order_id s \<or> signal_id t = signal_id s \<Longrightarrow> t = s"
  by (auto simp: trades_ok_def distinct_map dest: inj_onD)

lemma map_via: "map f ts = map f us \<Longrightarrow> map (g \<circ> f) ts = map (g \<circ> f) us"
  by (metis map_map)

lemma map_row_key_keeps:
  assumes "map row_key ts = map row_key us"
  shows "map t_id ts = map t_id us" "map user_id ts = map user_id us"
    "map signal_id ts = map signal_id us" "map client_order_id ts = map client_order_id us"
  using map_via [OF assms, of fst] map_via [OF assms, of "fst \<circ> snd"]
    map_via [OF assms, of "fst \<circ> snd \<circ> snd"] map_via [OF assms, of "snd \<circ> snd \<circ> snd"]
  by (simp_all add: row_key_def o_def)

lemma map_identity_row_key: "map identity ts = map identity us \<Longrightarrow> map row_key ts = map row_key us"
  using map_via [of identity ts us fst] by (simp add: identity_def o_def)

lemma list_all_via: "list_all (\<lambda>t. P (f t)) ts = list_all P (map f ts)"
  by (simp add: list.pred_map o_def)

lemma db_ok_keeps:
  assumes "db_ok d" "map row_key (trades d') = map row_key (trades d)" "users d' = users d"
    "user_seq d' = user_seq d" "trade_seq d' = trade_seq d"
  shows "db_ok d'"
  using assms(1,3-5) map_row_key_keeps [OF assms(2)] unfolding db_ok_def trades_ok_def
  by (simp only: list_all_via [where f = t_id and P = "\<lambda>i. i < trade_seq d"]
      list_all_via [where f = user_id and P = "\<lambda>i. i \<in> u_id ` set (users d)"])

lemma submitted_in_identity:
  assumes "map identity ts = map identity us"
  shows "submitted_in ts = submitted_in us"
proof -
  have "submitted_in ts tid = list_ex (\<lambda>i. fst (fst i) = tid \<and> snd i \<noteq> None) (map identity ts)" for ts tid
    by (simp add: submitted_in_def identity_def row_key_def list_ex_iff)
  then show ?thesis using assms by presburger
qed

subsection \<open>The statements keep it\<close>

lemma merge_row_identity [simp]: "identity (merge_row old new row) = identity row"
  by (simp add: merge_row_def identity_def row_key_def)

lemma identity_updated [simp]: "identity (t\<lparr>updated_at := now\<rparr>) = identity t"
  by (simp add: identity_def row_key_def)

lemma identity_store_row: "store_row t = Some r \<Longrightarrow> identity r = identity t"
  by (simp add: identity_def row_key_def store_row_keeps)

lemma identity_t_id: "identity r = identity t \<Longrightarrow> t_id r = t_id t"
  by (simp add: identity_def row_key_def)

lemma replace_row_identity:
  assumes "db_ok d" "row \<in> set (trades d)" "identity r = identity row"
  shows "map identity (trades (replace_row r d)) = map identity (trades d)"
proof -
  have "identity (if t_id t = t_id r then r else t) = identity t" if "t \<in> set (trades d)" for t
    using trades_ok_inject [of "trades d" t row] that assms identity_t_id [OF assms(3)]
    by (auto simp: db_ok_def)
  then show ?thesis by (simp add: replace_row_def)
qed

lemma replace_row_rest [simp]:
  "users (replace_row r d) = users d" "user_seq (replace_row r d) = user_seq d"
  "trade_seq (replace_row r d) = trade_seq d"
  by (simp_all add: replace_row_def)

lemma flush_trade_cases:
  assumes "flush_trade now old new d = (r, d')"
  obtains (clean) "\<not> dirty old new" "r = Inr new" "d' = d"
  | (failed) e where "r = Inl e" "d' = d"
  | (written) row s where "dirty old new" "row \<in> set (trades d)" "t_id row = t_id old"
      "store_row ((merge_row old new row)\<lparr>updated_at := now\<rparr>) = Some s"
      "r = Inr (new\<lparr>updated_at := now\<rparr>)" "d' = replace_row s d"
proof (cases "dirty old new")
  case False
  with assms clean show thesis by (simp add: flush_trade_def)
next
  case d: True
  show thesis
  proof (cases "select_trade (t_id old) d")
    case None
    with assms d failed [of StaleDataError] show thesis by (simp add: flush_trade_def)
  next
    case (Some row)
    then have row: "row \<in> set (trades d)" "t_id row = t_id old" by (auto dest: select_trade_in)
    show thesis
    proof (cases "store_row ((merge_row old new row)\<lparr>updated_at := now\<rparr>)")
      case None
      with assms d Some failed [of DataError] show thesis by (simp add: flush_trade_def)
    next
      case s: (Some s)
      with assms d Some written [OF d row s] show thesis by (simp add: flush_trade_def)
    qed
  qed
qed

lemma flush_trade_identity:
  assumes "db_ok d" "flush_trade now old new d = (r, d')"
  shows "map identity (trades d') = map identity (trades d) \<and> db_ok d'"
  using assms(2)
proof (cases rule: flush_trade_cases)
  case (written row s)
  have "identity s = identity row"
    using identity_store_row [OF written(4)] by (simp only: identity_updated merge_row_identity)
  then have m: "map identity (trades d') = map identity (trades d)"
    unfolding written(6) by (rule replace_row_identity [OF assms(1) written(2)])
  then have "db_ok d'"
    by (intro db_ok_keeps [OF assms(1)] map_identity_row_key) (simp_all only: written(6) replace_row_rest)
  with m show ?thesis ..
qed (use assms(1) in auto)

lemma mark_submitted_key [simp]: "row_key (mark_submitted now t) = row_key t"
  by (simp add: mark_submitted_def row_key_def)

lemma update_claim_ok:
  assumes "db_ok d" "update_claim tid now d = (n, d')"
  shows "db_ok d'"
  using assms(2) unfolding update_claim_def
  by (auto intro!: db_ok_keeps [OF assms(1)])

lemma insert_trade_ok:
  assumes "db_ok d" "insert_trade t d = (r, d')"
  shows "db_ok d'"
proof (cases "trades d' = trades d")
  case True
  with assms show ?thesis
    by (auto simp: insert_trade_def db_ok_def Let_def list_all_iff split: option.splits if_splits)
next
  case False
  then obtain s where s: "store_row (t\<lparr>t_id := trade_seq d\<rparr>) = Some s"
      "d' = d\<lparr>trade_seq := trade_seq d + 1, trades := trades d @ [s]\<rparr>"
      "user_id t \<in> u_id ` set (users d)" "signal_id t \<notin> signal_id ` set (trades d)"
      "client_order_id t \<notin> client_order_id ` set (trades d)"
    using assms(2) by (auto simp: insert_trade_def Let_def split: option.splits if_splits)
  with assms(1) show ?thesis
    using store_row_keeps [OF s(1)]
    by (auto simp: db_ok_def trades_ok_def list_all_iff)
qed

lemma insert_user_ok:
  assumes "db_ok d" "insert_user u d = (r, d')"
  shows "db_ok d'"
proof (cases "users d' = users d")
  case True
  with assms have "d' = d\<lparr>user_seq := user_seq d + 1\<rparr>"
    by (auto simp: insert_user_def Let_def split: if_splits)
  with assms(1) show ?thesis by (auto simp: db_ok_def list_all_iff intro: less_imp_le)
next
  case False
  then have "d' = d\<lparr>user_seq := user_seq d + 1, users := users d @ [u\<lparr>u_id := user_seq d\<rparr>]\<rparr>"
      "email u \<notin> email ` set (users d)"
    using assms(2) by (auto simp: insert_user_def Let_def split: if_splits)
  with assms(1) show ?thesis
    by (auto simp: db_ok_def users_ok_def list_all_iff intro: less_imp_le)
qed

lemmas db_ok_statements = insert_trade_ok update_claim_ok insert_user_ok flush_trade_identity

section \<open>What a statement leaves alone\<close>

text \<open>
  \<open>only_rows I d d'\<close>: the rows with ids outside \<open>I\<close> are the same, and no row was added, removed or
  given another identity; the users are the same.
\<close>

definition only_rows :: "int set \<Rightarrow> db \<Rightarrow> db \<Rightarrow> bool" where
  "only_rows I d d' =
     (filter (\<lambda>r. t_id r \<notin> I) (trades d') = filter (\<lambda>r. t_id r \<notin> I) (trades d) \<and>
      map row_key (trades d') = map row_key (trades d) \<and> users d' = users d \<and>
      user_seq d' = user_seq d \<and> trade_seq d' = trade_seq d)"

lemma only_rows_refl [simp, intro]: "only_rows I d d"
  by (simp add: only_rows_def)

lemma only_rows_mono:
  assumes "only_rows I d d'" "I \<subseteq> J"
  shows "only_rows J d d'"
proof -
  have split: "filter (\<lambda>r. t_id r \<notin> J) ts = filter (\<lambda>r. t_id r \<notin> J) (filter (\<lambda>r. t_id r \<notin> I) ts)" for ts
    using assms(2) by (auto intro: filter_cong)
  show ?thesis using assms(1) unfolding only_rows_def
    by (subst split, subst (2) split) simp
qed

lemma only_rows_trans: "only_rows I a b \<Longrightarrow> only_rows I b c \<Longrightarrow> only_rows I a c"
  by (simp add: only_rows_def)

lemma only_rows_ok: "only_rows I d d' \<Longrightarrow> db_ok d \<Longrightarrow> db_ok d'"
  by (erule db_ok_keeps) (simp_all add: only_rows_def)

lemma only_rows_other:
  assumes "only_rows I d d'" "t_id r \<notin> I"
  shows "r \<in> set (trades d') \<longleftrightarrow> r \<in> set (trades d)"
proof -
  have "set (filter (\<lambda>r. t_id r \<notin> I) (trades d')) = set (filter (\<lambda>r. t_id r \<notin> I) (trades d))"
    using assms(1) by (simp only: only_rows_def)
  then show ?thesis using assms(2) by auto
qed

lemma replace_row_trades:
  "trades (replace_row r d) = map (\<lambda>t. if t_id t = t_id r then r else t) (trades d)"
  by (simp add: replace_row_def)

lemma filter_map_keep:
  "(\<And>x. P (f x) = P x) \<Longrightarrow> (\<And>x. P x \<Longrightarrow> f x = x) \<Longrightarrow> filter P (map f xs) = filter P xs"
  by (induction xs) auto

lemma replace_row_only:
  assumes "db_ok d" "row \<in> set (trades d)" "identity r = identity row"
  shows "only_rows {t_id r} d (replace_row r d)"
proof -
  have "filter (\<lambda>t. t_id t \<notin> {t_id r}) (trades (replace_row r d)) = filter (\<lambda>t. t_id t \<notin> {t_id r}) (trades d)"
    unfolding replace_row_trades by (rule filter_map_keep) auto
  then show ?thesis unfolding only_rows_def
    by (simp only: map_identity_row_key [OF replace_row_identity [OF assms]] replace_row_rest simp_thms)
qed

lemma flush_trade_only:
  assumes "db_ok d" "flush_trade now old new d = (r, d')"
  shows "only_rows {t_id old} d d'"
  using assms(2)
proof (cases rule: flush_trade_cases)
  case (written row s)
  have s: "identity s = identity row"
    using identity_store_row [OF written(4)] by (simp only: identity_updated merge_row_identity)
  then have "t_id s = t_id old" using identity_t_id [OF s] written(3) by simp
  then show ?thesis using replace_row_only [OF assms(1) written(2) s] written(6) by simp
qed simp_all

lemma update_claim_only:
  assumes "update_claim tid now d = (n, d')"
  shows "only_rows {tid} d d'"
proof -
  let ?f = "\<lambda>t. if claimable tid t then mark_submitted now t else t"
  have d': "d' = d\<lparr>trades := map ?f (trades d)\<rparr>" using assms by (simp add: update_claim_def)
  have "filter (\<lambda>t. t_id t \<notin> {tid}) (map ?f (trades d)) = filter (\<lambda>t. t_id t \<notin> {tid}) (trades d)"
    by (rule filter_map_keep) (auto simp: claimable_def mark_submitted_def)
  moreover have "map row_key (map ?f (trades d)) = map row_key (trades d)"
    by (simp add: o_def if_distrib)
  ultimately show ?thesis unfolding only_rows_def d' by simp
qed

text \<open>The row an object was loaded from, and what a write makes of it.\<close>

lemma flush_trade_row:
  assumes "db_ok d" "flush_trade now old new d = (Inr v, d')" "dirty old new"
  shows "\<exists>row s. select_trade (t_id old) d = Some row \<and>
    store_row ((merge_row old new row)\<lparr>updated_at := now\<rparr>) = Some s \<and>
    select_trade (t_id old) d' = Some s \<and> v = new\<lparr>updated_at := now\<rparr>"
  using assms(2)
proof (cases rule: flush_trade_cases)
  case (written row s)
  have id: "identity s = identity row"
    using identity_store_row [OF written(4)] by (simp only: identity_updated merge_row_identity)
  then have tid: "t_id s = t_id old" using identity_t_id [OF id] written(3) by simp
  have ok: "db_ok d'" by (rule only_rows_ok [OF flush_trade_only [OF assms(1,2)] assms(1)])
  have "s = (if t_id row = t_id s then s else row)" using tid written(3) by simp
  then have "s \<in> (\<lambda>t. if t_id t = t_id s then s else t) ` set (trades d)"
    using written(2) by (rule image_eqI)
  then have "s \<in> set (trades d')" by (simp only: written(6) replace_row_trades set_map)
  then have s: "select_trade (t_id old) d' = Some s" using select_trade_self [OF ok] tid by metis
  have row: "select_trade (t_id old) d = Some row"
    using select_trade_self [OF assms(1) written(2)] written(3) by simp
  have "v = new\<lparr>updated_at := now\<rparr>" using written(5) by simp
  with s row written(4) show ?thesis by blast
qed (use assms(3) in auto)

section \<open>The interface the trading code relies on\<close>

locale trade_table =
  fixes rows :: "'d \<Rightarrow> trade list"
    and inv :: "'d \<Rightarrow> bool"
    and insert :: "trade \<Rightarrow> 'd \<Rightarrow> (sql_error, trade) result \<times> 'd"
    and claim :: "int \<Rightarrow> int \<Rightarrow> 'd \<Rightarrow> nat \<times> 'd"
    and save :: "int \<Rightarrow> trade \<Rightarrow> trade \<Rightarrow> 'd \<Rightarrow> (sql_error, trade) result \<times> 'd"
  assumes inv_unique: "inv d \<Longrightarrow> trades_ok (rows d)"
    and inv_insert: "inv d \<Longrightarrow> insert t d = (r, d') \<Longrightarrow> inv d'"
    and insert_rows: "insert t d = (Inr t', d') \<Longrightarrow>
      \<exists>s. rows d' = rows d @ [s] \<and> row_key s = row_key t' \<and> submitted_at s = submitted_at t"
    and insert_refused: "insert t d = (Inl e, d') \<Longrightarrow> rows d' = rows d"
    and inv_claim: "inv d \<Longrightarrow> claim tid now d = (n, d') \<Longrightarrow> inv d'"
    and claim_rows: "claim tid now d = (n, d') \<Longrightarrow>
      n = length (filter (claimable tid) (rows d)) \<and>
      rows d' = map (\<lambda>t. if claimable tid t then mark_submitted now t else t) (rows d)"
    and inv_save: "inv d \<Longrightarrow> save now old new d = (r, d') \<Longrightarrow> inv d'"
    and save_identity: "inv d \<Longrightarrow> save now old new d = (r, d') \<Longrightarrow>
      map identity (rows d') = map identity (rows d)"
begin

lemma insert_keeps_submitted:
  assumes "insert t d = (r, d')" "submitted_in (rows d) tid"
  shows "submitted_in (rows d') tid"
proof (cases r)
  case (Inl e)
  with assms insert_refused show ?thesis by metis
next
  case (Inr t')
  with assms(1) obtain s where "rows d' = rows d @ [s]" using insert_rows by blast
  with assms(2) show ?thesis by (simp add: submitted_in_def)
qed

lemma save_keeps_submitted:
  "inv d \<Longrightarrow> save now old new d = (r, d') \<Longrightarrow> submitted_in (rows d') = submitted_in (rows d)"
  by (rule submitted_in_identity) (rule save_identity)

lemma claim_keeps_submitted:
  assumes "claim i now d = (n, d')" "submitted_in (rows d) tid"
  shows "submitted_in (rows d') tid"
proof -
  obtain t where t: "t \<in> set (rows d)" "t_id t = tid" "submitted_at t \<noteq> None"
    using assms(2) unfolding submitted_in_def list_ex_iff by blast
  let ?f = "\<lambda>t. if claimable i t then mark_submitted now t else t"
  have "t = ?f t" using t(3) by (auto simp: claimable_def)
  then have "t \<in> ?f ` set (rows d)" using t(1) by (rule image_eqI)
  then have "t \<in> set (rows d')" using claim_rows [OF assms(1)] by (simp only: set_map)
  with t show ?thesis unfolding submitted_in_def list_ex_iff by blast
qed

text \<open>A claim that changed a row found it unclaimed and leaves it claimed; it changed one row.\<close>

lemma claim_wins:
  assumes "inv d" "claim tid now d = (n, d')" "n \<noteq> 0"
  shows "n = 1 \<and> \<not> submitted_in (rows d) tid \<and> submitted_in (rows d') tid"
proof -
  let ?win = "filter (claimable tid) (rows d)"
  have n: "n = length ?win" using claim_rows [OF assms(2)] by simp
  then obtain t where t: "t \<in> set (rows d)" "claimable tid t"
    using assms(3) by (metis filter_empty_conv length_0_conv)
  have uniq: "s = t" if "s \<in> set (rows d)" "t_id s = tid" for s
    using trades_ok_inject [OF inv_unique [OF assms(1)] that(1) t(1)] that(2) t(2)
    by (simp add: claimable_def)
  have "distinct (rows d)"
    using inv_unique [OF assms(1)] by (simp add: trades_ok_def distinct_map)
  then have "length ?win = card (set ?win)" by (simp only: distinct_card distinct_filter)
  also have "set ?win = {t}"
  proof
    show "set ?win \<subseteq> {t}" by (auto intro: uniq simp: claimable_def)
    show "{t} \<subseteq> set ?win" using t by simp
  qed
  finally have "n = 1" using n by simp
  moreover have "\<not> submitted_in (rows d) tid"
  proof
    assume "submitted_in (rows d) tid"
    then obtain s where "s \<in> set (rows d)" "t_id s = tid" "submitted_at s \<noteq> None"
      unfolding submitted_in_def list_ex_iff by blast
    then show False using uniq t(2) by (simp add: claimable_def)
  qed
  moreover have "submitted_in (rows d') tid"
  proof -
    have "mark_submitted now t \<in> set (rows d')"
    proof -
      let ?f = "\<lambda>t. if claimable tid t then mark_submitted now t else t"
      have "mark_submitted now t = ?f t" using t(2) by simp
      then have "mark_submitted now t \<in> ?f ` set (rows d)" using t(1) by (rule image_eqI)
      then show ?thesis using claim_rows [OF assms(2)] by (simp only: set_map)
    qed
    moreover have "t_id (mark_submitted now t) = tid" "submitted_at (mark_submitted now t) \<noteq> None"
      using t(2) by (simp_all add: mark_submitted_def claimable_def)
    ultimately show ?thesis unfolding submitted_in_def list_ex_iff by blast
  qed
  ultimately show ?thesis by blast
qed

lemma claim_refused:
  "inv d \<Longrightarrow> submitted_in (rows d) tid \<Longrightarrow> claim tid now d = (n, d') \<Longrightarrow> n = 0"
  using claim_wins by blast

end

lemma insert_trade_rows:
  assumes "insert_trade t d = (Inr t', d')"
  shows "\<exists>s. store_row t' = Some s \<and> trades d' = trades d @ [s] \<and> t' = t\<lparr>t_id := trade_seq d\<rparr> \<and>
    user_id t \<in> u_id ` set (users d) \<and> signal_id t \<notin> signal_id ` set (trades d) \<and>
    client_order_id t \<notin> client_order_id ` set (trades d)"
  using assms by (auto simp: insert_trade_def Let_def split: option.splits if_splits)

lemma insert_trade_refused:
  "insert_trade t d = (Inl e, d') \<Longrightarrow> trades d' = trades d \<and> users d' = users d"
  by (auto simp: insert_trade_def Let_def split: option.splits if_splits)

lemma insert_trade_seq:
  "insert_trade t d = (r, d') \<Longrightarrow> user_seq d' = user_seq d \<and> trade_seq d' = trade_seq d + 1"
  by (auto simp: insert_trade_def Let_def split: option.splits if_splits)

lemma insert_user_seq:
  "insert_user u d = (r, d') \<Longrightarrow> user_seq d' = user_seq d + 1 \<and> trade_seq d' = trade_seq d"
  by (auto simp: insert_user_def Let_def split: if_splits)

lemma insert_trade_users: "insert_trade t d = (r, d') \<Longrightarrow> users d' = users d"
proof -
  have "users (snd (insert_trade t d)) = users d"
    by (simp add: insert_trade_def Let_def split: option.split)
  then show "insert_trade t d = (r, d') \<Longrightarrow> users d' = users d" by simp
qed

lemma insert_trade_law:
  assumes "insert_trade t d = (Inr t', d')"
  shows "\<exists>s. trades d' = trades d @ [s] \<and> row_key s = row_key t' \<and> submitted_at s = submitted_at t"
proof -
  obtain s where s: "store_row t' = Some s" "trades d' = trades d @ [s]" "t' = t\<lparr>t_id := trade_seq d\<rparr>"
    using insert_trade_rows [OF assms] by blast
  then show ?thesis using identity_store_row [OF s(1)] by (simp add: identity_def)
qed

lemma update_claim_law:
  "update_claim tid now d = (n, d') \<Longrightarrow>
     n = length (filter (claimable tid) (trades d)) \<and>
     trades d' = map (\<lambda>t. if claimable tid t then mark_submitted now t else t) (trades d)"
  by (auto simp: update_claim_def)

interpretation pg: trade_table trades db_ok insert_trade update_claim flush_trade
  by unfold_locales
     (simp add: db_ok_def, erule (1) insert_trade_ok, erule insert_trade_law,
      simp add: insert_trade_refused, erule (1) update_claim_ok, erule update_claim_law,
      simp add: flush_trade_identity, simp add: flush_trade_identity)

section \<open>A claim is won at most once\<close>

text \<open>A rollback restores the tables; the sequences that give out ids are not transactional.\<close>

definition rolled_back :: "db \<Rightarrow> db \<Rightarrow> db" where
  "rolled_back d d' = d\<lparr>user_seq := user_seq d', trade_seq := trade_seq d'\<rparr>"

lemma rolled_back_simps [simp]:
  "users (rolled_back d d') = users d" "trades (rolled_back d d') = trades d"
  "user_seq (rolled_back d d') = user_seq d'" "trade_seq (rolled_back d d') = trade_seq d'"
  by (simp_all add: rolled_back_def)

lemma rolled_back_same: "user_seq d' = user_seq d \<Longrightarrow> trade_seq d' = trade_seq d \<Longrightarrow> rolled_back d d' = d"
  by (simp add: rolled_back_def)

lemma rolled_back_ok:
  "db_ok d \<Longrightarrow> user_seq d \<le> user_seq d' \<Longrightarrow> trade_seq d \<le> trade_seq d' \<Longrightarrow> db_ok (rolled_back d d')"
  by (fastforce simp: db_ok_def list_all_iff)

text \<open>Any statement of the application, by any session, and what a rollback leaves of it.\<close>

inductive db_step :: "db \<Rightarrow> db \<Rightarrow> bool" where
  insert_trade: "insert_trade t d = (r, d') \<Longrightarrow> db_step d d'"
| insert_user: "insert_user u d = (r, d') \<Longrightarrow> db_step d d'"
| claim: "update_claim tid now d = (n, d') \<Longrightarrow> db_step d d'"
| flush: "flush_trade now old new d = (r, d') \<Longrightarrow> db_step d d'"
| rollback: "user_seq d \<le> user_seq d' \<Longrightarrow> trade_seq d \<le> trade_seq d' \<Longrightarrow> db_step d (rolled_back d d')"

lemma db_step_ok: "db_step d d' \<Longrightarrow> db_ok d \<Longrightarrow> db_ok d'"
proof (induction rule: db_step.induct)
  case (rollback d d')
  then show ?case by (simp add: rolled_back_ok)
qed (use db_ok_statements in blast)+

lemma db_step_seq: "db_step d d' \<Longrightarrow> user_seq d \<le> user_seq d' \<and> trade_seq d \<le> trade_seq d'"
  by (induction rule: db_step.induct)
     (auto simp: update_claim_def dest!: insert_trade_seq insert_user_seq elim!: flush_trade_cases)

lemma insert_user_trades: "insert_user u d = (r, d') \<Longrightarrow> trades d' = trades d"
  by (auto simp: insert_user_def Let_def split: if_splits)

lemma db_step_submitted:
  "db_step d d' \<Longrightarrow> db_ok d \<Longrightarrow> submitted_in (trades d) tid \<Longrightarrow> submitted_in (trades d') tid"
proof (induction rule: db_step.induct)
  case (rollback d d')
  then show ?case by simp
qed (use pg.insert_keeps_submitted pg.claim_keeps_submitted pg.save_keeps_submitted insert_user_trades
      in \<open>metis+\<close>)

lemma db_steps_submitted:
  "db_step\<^sup>*\<^sup>* d d' \<Longrightarrow> db_ok d \<Longrightarrow> submitted_in (trades d) tid \<Longrightarrow> db_ok d' \<and> submitted_in (trades d') tid"
  by (induction rule: rtranclp_induct) (use db_step_ok db_step_submitted in blast)+

text \<open>
  C11. \<open>claim_for_submission\<close> is exclusive for good: once its conditional UPDATE has changed a row, that
  UPDATE changes no row again, for the same trade, after any number of later inserts, claims and
  object writes by any session. Two workers holding the same id cannot both win.
\<close>
theorem claim_at_most_once:
  assumes "db_ok d" "update_claim tid now d = (n, d1)" "n \<noteq> 0" "db_step\<^sup>*\<^sup>* d1 d2"
    "update_claim tid now' d2 = (m, d3)"
  shows "n = 1 \<and> m = 0"
proof -
  have n: "n = 1" "submitted_in (trades d1) tid" using pg.claim_wins [OF assms(1-3)] by auto
  have "db_ok d2 \<and> submitted_in (trades d2) tid"
    using db_steps_submitted [OF assms(4) update_claim_ok [OF assms(1,2)] n(2)] .
  then show ?thesis using pg.claim_refused assms(5) n(1) by blast
qed

end
