(* ===== verification/Config.thy ===== *)
theory Config
  imports Numbers "HOL-Library.List_Lexorder"
begin

text \<open>
  \<open>app/core/config.py\<close>: the settings, their validators and derived helpers, and the functions of
  \<open>urllib.parse\<close> they call (\<open>urlsplit\<close>, \<open>hostname\<close>). \<open>Inl\<close> is a value the validator refuses, with the
  reason; loading stops the process then. Settings declared \<open>float\<close> are held as the decimal of their
  \<open>repr\<close>, which is how the sources read the two that matter (\<open>Decimal(str(x))\<close>).

  The lemmas show the hard safety gate: settings that load name a Binance testnet host.
\<close>

section \<open>Constants\<close>

definition ALLOWED_BINANCE_HOSTS :: "string set" where
  "ALLOWED_BINANCE_HOSTS = {''testnet.binance.vision'', ''testnet.binancefuture.com''}"

definition KNOWN_PRODUCTION_BINANCE_HOSTS :: "string set" where
  "KNOWN_PRODUCTION_BINANCE_HOSTS =
     {''api.binance.com'', ''api1.binance.com'', ''api2.binance.com'', ''api3.binance.com'',
      ''api4.binance.com'', ''api-gcp.binance.com'', ''fapi.binance.com'', ''dapi.binance.com'',
      ''api.binance.us''}"

definition PLACEHOLDER_SECRETS :: "string set" where
  "PLACEHOLDER_SECRETS =
     {''replace_with_a_long_random_string_at_least_32_chars'',
      ''replace_with_a_random_string_at_least_16_chars'', ''change-me'', ''changeme'', ''replace-me'',
      ''your-secret-here'', ''string''}"

section \<open>\<open>urllib.parse\<close>\<close>

record url_parts =
  scheme :: string
  netloc :: string
  url_path :: string
  url_query :: string
  url_fragment :: string

definition is_alpha :: "char \<Rightarrow> bool" where
  "is_alpha c = (is_lower c \<or> is_upper c)"

definition scheme_char :: "char \<Rightarrow> bool" where
  "scheme_char c = (is_alpha c \<or> is_digit c \<or> c \<in> set ''+-.'')"

text \<open>The leading characters up to the space are dropped, tabs and line ends anywhere.\<close>

definition url_clean :: "string \<Rightarrow> string" where
  "url_clean u =
     filter (\<lambda>c. code_of c \<notin> {9, 10, 13}) (dropWhile (\<lambda>c. code_of c \<le> 32) u)"

definition split_scheme :: "string \<Rightarrow> string \<times> string" where
  "split_scheme u =
     (case partition_at (CHR '':'') u of
        (s, Some r) \<Rightarrow>
          if s \<noteq> [] \<and> is_alpha (hd s) \<and> list_all scheme_char s then (py_lower s, r) else ([], u)
      | (_, None) \<Rightarrow> ([], u))"

definition net_end :: "char \<Rightarrow> bool" where
  "net_end c = (c \<in> set ''/?#'')"

definition split_netloc :: "string \<Rightarrow> string \<times> string" where
  "split_netloc u =
     (if starts_with ''//'' u
      then (takeWhile (\<lambda>c. \<not> net_end c) (drop 2 u), dropWhile (\<lambda>c. \<not> net_end c) (drop 2 u))
      else ([], u))"

text \<open>
  Square brackets around an IPv6 address: unbalanced ones are a ValueError, and what balanced ones
  enclose is checked by the \<open>ipaddress\<close> module; no bracketed host is on the allow list, so every
  bracketed host is refused here alike.
\<close>

definition has_bracket :: "string \<Rightarrow> bool" where
  "has_bracket n = (CHR ''['' \<in> set n \<or> CHR '']'' \<in> set n)"

definition urlsplit :: "string \<Rightarrow> (string, url_parts) result" where
  "urlsplit u =
     (let (s, r) = split_scheme (url_clean u); (n, r1) = split_netloc r;
          (r2, f) = partition_at (CHR ''#'') r1; (p, q) = partition_at (CHR ''?'') r2
      in if has_bracket n then Inl ''Invalid IPv6 URL''
         else Inr \<lparr>scheme = s, netloc = n, url_path = p,
                url_query = (case q of None \<Rightarrow> [] | Some x \<Rightarrow> x),
                url_fragment = (case f of None \<Rightarrow> [] | Some x \<Rightarrow> x)\<rparr>)"

text \<open>The \<open>hostname\<close> attribute; the empty string for \<open>None\<close>, as the sources' \<open>or ""\<close> makes it.\<close>

definition url_hostname :: "url_parts \<Rightarrow> string" where
  "url_hostname p =
     (let hostinfo = snd (rpartition_at (CHR ''@'') (netloc p));
          host = fst (partition_at (CHR '':'') hostinfo)
      in case partition_at (CHR ''%'') host of
           (h, None) \<Rightarrow> py_lower h
         | (h, Some zone) \<Rightarrow> py_lower h @ CHR ''%'' # zone)"

section \<open>Settings\<close>

record settings =
  APP_NAME :: string
  ENVIRONMENT :: string
  LOG_LEVEL :: string
  DATABASE_URL :: string
  DB_POOL_SIZE :: int
  DB_MAX_OVERFLOW :: int
  DB_POOL_TIMEOUT_SECONDS :: int
  DB_ECHO :: bool
  JWT_SECRET :: string
  JWT_ALGORITHM :: string
  ACCESS_TOKEN_EXPIRE_MINUTES :: int
  WEBHOOK_SECRET :: string
  WEBHOOK_TRADE_OWNER_EMAIL :: string
  BINANCE_API_KEY :: string
  BINANCE_SECRET_KEY :: string
  BINANCE_BASE_URL :: string
  BINANCE_TIMEOUT_SECONDS :: decimal
  BINANCE_RECV_WINDOW_MS :: int
  BINANCE_DRY_RUN :: bool
  WEBHOOK_ASYNC_EXECUTION :: bool
  EXECUTOR_WORKERS :: int
  EXECUTOR_QUEUE_SIZE :: int
  ALLOWED_SYMBOLS :: string
  MIN_ORDER_QUANTITY :: decimal
  MAX_ORDER_QUANTITY :: decimal

section \<open>Validators\<close>

definition reject_placeholder_secrets :: "string \<Rightarrow> (string, string) result" where
  "reject_placeholder_secrets v =
     (if py_lower (py_strip v) \<in> PLACEHOLDER_SECRETS then Inl ''placeholder value'' else Inr v)"

definition enforce_testnet_only :: "string \<Rightarrow> (string, string) result" where
  "enforce_testnet_only v0 =
     (let v = rstrip_char (CHR ''/'') (py_strip v0)
      in case urlsplit v of
           Inl e \<Rightarrow> Inl e
         | Inr parsed \<Rightarrow>
             if scheme parsed \<notin> {''http'', ''https''} then Inl ''not an absolute http(s) URL''
             else let host = py_lower (url_hostname parsed)
                  in if host \<in> KNOWN_PRODUCTION_BINANCE_HOSTS then Inl ''real-money endpoint''
                     else if host \<notin> ALLOWED_BINANCE_HOSTS then Inl ''not a testnet host''
                     else Inr v)"

definition normalise_owner_email :: "string \<Rightarrow> (string, string) result" where
  "normalise_owner_email v0 =
     (let v = py_lower (py_strip v0)
      in if CHR ''@'' \<in> set v then Inr v else Inl ''must be an email address'')"

definition dec_zero :: decimal where
  "dec_zero = Fin False 0 0"

definition dec_int :: "nat \<Rightarrow> decimal" where
  "dec_int n = Fin False n 0"

text \<open>\<open>Field(gt=0)\<close> on a float, and \<open>Field(gt=0, le=60)\<close>.\<close>

definition dec_positive :: "decimal \<Rightarrow> bool" where
  "dec_positive d = dec_less dec_zero d"

section \<open>Loading\<close>

text \<open>
  The settings as read, with the defaults of the fields the environment leaves out: a field is refused
  when its \<open>Field\<close> constraint or its validator refuses it; loading fails with the names of the
  refused fields, and otherwise yields the values the validators return. The rewriting of
  \<open>DATABASE_URL\<close> is a parameter here (\<open>normalise_database_url\<close> of theory Db_Url).
\<close>

definition secret_field :: "nat \<Rightarrow> string \<Rightarrow> (string, string) result" where
  "secret_field n v = (if length v < n then Inl ''too short'' else reject_placeholder_secrets v)"

definition refused :: "string \<Rightarrow> bool \<Rightarrow> string list" where
  "refused name ok = (if ok then [] else [name])"

definition is_right :: "('e, 'a) result \<Rightarrow> bool" where
  "is_right r = (case r of Inl _ \<Rightarrow> False | Inr _ \<Rightarrow> True)"

definition right_or :: "'a \<Rightarrow> ('e, 'a) result \<Rightarrow> 'a" where
  "right_or d r = (case r of Inl _ \<Rightarrow> d | Inr v \<Rightarrow> v)"

definition refused_fields :: "(string \<Rightarrow> (string, string) result) \<Rightarrow> settings \<Rightarrow> string list" where
  "refused_fields db_url s =
     refused ''DATABASE_URL'' (is_right (db_url (DATABASE_URL s))) @
     refused ''JWT_SECRET'' (is_right (secret_field 32 (JWT_SECRET s))) @
     refused ''ACCESS_TOKEN_EXPIRE_MINUTES''
       (1 \<le> ACCESS_TOKEN_EXPIRE_MINUTES s \<and> ACCESS_TOKEN_EXPIRE_MINUTES s \<le> 60 * 24 * 7) @
     refused ''WEBHOOK_SECRET'' (is_right (secret_field 16 (WEBHOOK_SECRET s))) @
     refused ''WEBHOOK_TRADE_OWNER_EMAIL'' (is_right (normalise_owner_email (WEBHOOK_TRADE_OWNER_EMAIL s))) @
     refused ''BINANCE_BASE_URL'' (is_right (enforce_testnet_only (BINANCE_BASE_URL s))) @
     refused ''BINANCE_TIMEOUT_SECONDS''
       (dec_positive (BINANCE_TIMEOUT_SECONDS s) \<and> \<not> dec_less (dec_int 60) (BINANCE_TIMEOUT_SECONDS s)) @
     refused ''BINANCE_RECV_WINDOW_MS''
       (1000 \<le> BINANCE_RECV_WINDOW_MS s \<and> BINANCE_RECV_WINDOW_MS s \<le> 60000) @
     refused ''EXECUTOR_WORKERS'' (1 \<le> EXECUTOR_WORKERS s \<and> EXECUTOR_WORKERS s \<le> 64) @
     refused ''EXECUTOR_QUEUE_SIZE'' (1 \<le> EXECUTOR_QUEUE_SIZE s) @
     refused ''MIN_ORDER_QUANTITY'' (dec_positive (MIN_ORDER_QUANTITY s)) @
     refused ''MAX_ORDER_QUANTITY'' (dec_positive (MAX_ORDER_QUANTITY s))"

definition load_settings ::
  "(string \<Rightarrow> (string, string) result) \<Rightarrow> settings \<Rightarrow> (string list, settings) result" where
  "load_settings db_url s =
     (if refused_fields db_url s \<noteq> [] then Inl (refused_fields db_url s)
      else Inr (s\<lparr>DATABASE_URL := right_or [] (db_url (DATABASE_URL s)),
                 WEBHOOK_TRADE_OWNER_EMAIL := right_or [] (normalise_owner_email (WEBHOOK_TRADE_OWNER_EMAIL s)),
                 BINANCE_BASE_URL := right_or [] (enforce_testnet_only (BINANCE_BASE_URL s))\<rparr>))"

section \<open>Derived helpers\<close>

definition allowed_symbols :: "settings \<Rightarrow> string set" where
  "allowed_symbols s =
     set (map (\<lambda>part. py_upper (py_strip part))
       (filter (\<lambda>part. py_strip part \<noteq> []) (py_split (CHR '','') (ALLOWED_SYMBOLS s))))"

text \<open>\<open>sorted(allowed)\<close>: strings in the order of their code points.\<close>

definition sorted_strings :: "string set \<Rightarrow> string list" where
  "sorted_strings ss = map (map char_of) (sorted_list_of_set (map code_of ` ss))"

definition binance_host :: "settings \<Rightarrow> string" where
  "binance_host s =
     (case urlsplit (BINANCE_BASE_URL s) of Inl _ \<Rightarrow> [] | Inr p \<Rightarrow> py_lower (url_hostname p))"

section \<open>The gate\<close>

lemma enforce_testnet_only_host:
  assumes "enforce_testnet_only v0 = Inr v"
  shows "\<exists>p. urlsplit v = Inr p \<and> scheme p \<in> {''http'', ''https''} \<and>
    py_lower (url_hostname p) \<in> ALLOWED_BINANCE_HOSTS"
  using assms unfolding enforce_testnet_only_def Let_def
  by (auto split: sum.splits if_splits)

lemma hosts_disjoint: "ALLOWED_BINANCE_HOSTS \<inter> KNOWN_PRODUCTION_BINANCE_HOSTS = {}"
  by (simp add: ALLOWED_BINANCE_HOSTS_def KNOWN_PRODUCTION_BINANCE_HOSTS_def)

lemma refused_append: "refused n ok @ r = [] \<longleftrightarrow> ok \<and> r = []" "refused n ok = [] \<longleftrightarrow> ok"
  by (simp_all add: refused_def)

lemma is_right_obtain: "is_right r \<Longrightarrow> \<exists>v. r = Inr v"
  by (cases r) (simp_all add: is_right_def)

lemma load_settings_host:
  assumes "load_settings db_url raw = Inr s"
  shows "binance_host s \<in> ALLOWED_BINANCE_HOSTS"
proof -
  have "is_right (enforce_testnet_only (BINANCE_BASE_URL raw))"
    using assms by (simp add: load_settings_def refused_fields_def refused_append split: if_splits)
  then obtain v where v: "enforce_testnet_only (BINANCE_BASE_URL raw) = Inr v" using is_right_obtain by blast
  then have "BINANCE_BASE_URL s = v"
    using assms by (auto simp: load_settings_def right_or_def split: if_splits)
  then show ?thesis using enforce_testnet_only_host [OF v] by (auto simp: binance_host_def)
qed

lemma load_settings_bounds:
  assumes "load_settings db_url raw = Inr s"
  shows "1 \<le> EXECUTOR_WORKERS s" "EXECUTOR_WORKERS s \<le> 64" "1 \<le> EXECUTOR_QUEUE_SIZE s"
    "32 \<le> length (JWT_SECRET s)" "16 \<le> length (WEBHOOK_SECRET s)"
    "py_lower (py_strip (JWT_SECRET s)) \<notin> PLACEHOLDER_SECRETS"
    "py_lower (py_strip (WEBHOOK_SECRET s)) \<notin> PLACEHOLDER_SECRETS"
  using assms
  by (auto simp: load_settings_def refused_fields_def refused_append secret_field_def is_right_def
      reject_placeholder_secrets_def split: if_splits)

lemma load_settings_minutes:
  assumes "load_settings db_url raw = Inr s"
  shows "1 \<le> ACCESS_TOKEN_EXPIRE_MINUTES s" "ACCESS_TOKEN_EXPIRE_MINUTES s \<le> 60 * 24 * 7"
  using assms by (auto simp: load_settings_def refused_fields_def refused_append split: if_splits)

end
