(* ===== verification/World.thy ===== *)
theory World
  imports Database Config
begin

text \<open>
  What the services run in: JSON values as Python sees them, HTTP requests and their outcomes, and the
  world a call changes - the database, the log of requests sent to the exchange, the cached owner id.

  The environment is a parameter. At each interaction (an HTTP call, a COMMIT, a clock reading) the
  world's tick advances, and the environment answers for that tick: the exchange with any outcome at
  all, the database with whether the COMMIT goes through, the clock with a time. A theorem for every
  environment therefore covers every behaviour of the network, the exchange and the server.
\<close>

section \<open>JSON values\<close>

text \<open>
  A parsed JSON value. A float is known by what the sources ask of it: \<open>int(x)\<close> (None where it raises,
  for NaN and infinities) and \<open>str(x)\<close>.
\<close>

datatype json =
  JNull
| JBool bool
| JInt int
| JFloat "int option" string
| JStr string
| JList "json list"
| JObj "(string \<times> json) list"

text \<open>\<open>dict.get(key)\<close>; a repeated key has its last value in the parsed dict.\<close>

definition json_get :: "string \<Rightarrow> (string \<times> json) list \<Rightarrow> json option" where
  "json_get k kvs = map_of (rev kvs) k"

fun json_truthy :: "json \<Rightarrow> bool" where
  "json_truthy JNull = False"
| "json_truthy (JBool b) = b"
| "json_truthy (JInt i) = (i \<noteq> 0)"
| "json_truthy (JFloat _ r) = (r \<noteq> ''0.0'' \<and> r \<noteq> ''-0.0'')"
| "json_truthy (JStr s) = (s \<noteq> [])"
| "json_truthy (JList xs) = (xs \<noteq> [])"
| "json_truthy (JObj kvs) = (kvs \<noteq> [])"

text \<open>\<open>repr\<close> of a string: single quotes unless only those occur inside.\<close>

definition hex_digit :: "nat \<Rightarrow> char" where
  "hex_digit n = char_of (if n < 10 then 48 + n else 87 + n)"

definition repr_char :: "char \<Rightarrow> char \<Rightarrow> string" where
  "repr_char q c =
     (let n = code_of c; bs = char_of (92 :: nat)
      in if c = q \<or> n = 92 then [bs, c]
         else if n = 10 then [bs, CHR ''n''] else if n = 13 then [bs, CHR ''r'']
         else if n = 9 then [bs, CHR ''t'']
         else if n < 32 \<or> n = 127 then [bs, CHR ''x'', hex_digit (n div 16), hex_digit (n mod 16)]
         else [c])"

definition py_repr_str :: "string \<Rightarrow> string" where
  "py_repr_str s =
     (let q1 = char_of (39 :: nat); q2 = char_of (34 :: nat);
          q = (if q1 \<in> set s \<and> q2 \<notin> set s then q2 else q1)
      in q # concat (map (repr_char q) s) @ [q])"

fun py_repr :: "json \<Rightarrow> string" where
  "py_repr JNull = ''None''"
| "py_repr (JBool b) = (if b then ''True'' else ''False'')"
| "py_repr (JInt i) = str_int i"
| "py_repr (JFloat _ r) = r"
| "py_repr (JStr s) = py_repr_str s"
| "py_repr (JList xs) = ''['' @ py_join '', '' (map py_repr xs) @ '']''"
| "py_repr (JObj kvs) =
     ''{'' @ py_join '', '' (map (\<lambda>kv. py_repr_str (fst kv) @ '': '' @ py_repr (snd kv)) kvs) @ ''}''"

fun py_str :: "json \<Rightarrow> string" where
  "py_str (JStr s) = s"
| "py_str j = py_repr j"

text \<open>\<open>x == n\<close> for a JSON value and an integer literal: booleans are integers, floats compare by value.\<close>

fun json_eq_int :: "json \<Rightarrow> int \<Rightarrow> bool" where
  "json_eq_int (JInt i) n = (i = n)"
| "json_eq_int (JBool b) n = ((if b then 1 else 0) = n)"
| "json_eq_int (JFloat _ r) n = (r = str_int n @ ''.0'')"
| "json_eq_int _ n = False"

text \<open>\<open>int(x)\<close>: None where it raises ValueError, TypeError or OverflowError.\<close>

fun json_int :: "json \<Rightarrow> int option" where
  "json_int (JInt i) = Some i"
| "json_int (JBool b) = Some (if b then 1 else 0)"
| "json_int (JFloat i _) = i"
| "json_int (JStr s) = int_of_str s"
| "json_int _ = None"

section \<open>HTTP\<close>

datatype http_method = GET | POST

text \<open>Parameters are already text: \<open>urlencode\<close> applies \<open>str\<close> to every value.\<close>

record http_request =
  rq_method :: http_method
  rq_path :: string
  rq_params :: "(string \<times> string) list"

text \<open>The body is None when it is not JSON.\<close>

record http_response =
  rs_status :: int
  rs_retry_after :: "string option"
  rs_body :: "json option"

text \<open>\<open>httpx2\<close>: never connected, timed out after connecting, any other transport error, or an answer.\<close>

datatype http_outcome =
  ConnectFailed
| TimedOut
| TransportError
| Answered http_response

section \<open>Environment and world\<close>

text \<open>
  What reading an object says after a commit of its session failed: what the code assigned, what had been
  loaded, or nothing - a rollback expires the objects of a session, and loading them again outside an
  awaited call raises \<open>MissingGreenlet\<close>.
\<close>

datatype object_state = Keeps_changes | Reverted | Unreadable

text \<open>\<open>url_host\<close> is \<open>httpx2.URL(u).host\<close>, the HTTP library's own reading of a URL.\<close>

record env =
  url_host :: "string \<Rightarrow> string"
  exchange :: "nat \<Rightarrow> http_request \<Rightarrow> http_outcome"
  commit_ok :: "nat \<Rightarrow> bool"
  commit_landed :: "nat \<Rightarrow> bool"
  after_failure :: "nat \<Rightarrow> object_state"
  clock :: "nat \<Rightarrow> int"

record world =
  w_db :: db
  requests :: "http_request list"
  tick :: nat
  owner_cache :: "int option"

definition advance :: "world \<Rightarrow> world" where
  "advance w = w\<lparr>tick := tick w + 1\<rparr>"

definition utc_now :: "env \<Rightarrow> world \<Rightarrow> int \<times> world" where
  "utc_now e w = (clock e (tick w), advance w)"

definition http_send :: "env \<Rightarrow> http_request \<Rightarrow> world \<Rightarrow> http_outcome \<times> world" where
  "http_send e r w = (exchange e (tick w) r, advance (w\<lparr>requests := requests w @ [r]\<rparr>))"

text \<open>
  \<open>await db.commit()\<close> around one statement: the statement's error, or its result with the database
  changed, or the failure of the COMMIT. A COMMIT that fails has rolled the statement back, or it has
  taken effect and only its answer was lost, which the caller cannot tell apart. A rollback restores the
  tables (\<open>rolled_back\<close>).
\<close>

definition db_commit ::
  "env \<Rightarrow> (db \<Rightarrow> (sql_error, 'a) result \<times> db) \<Rightarrow> world \<Rightarrow> (sql_error, 'a) result \<times> world" where
  "db_commit e stmt w =
     (case stmt (w_db w) of
        (Inl x, d') \<Rightarrow> (Inl x, advance (w\<lparr>w_db := d'\<rparr>))
      | (Inr v, d') \<Rightarrow>
          if commit_ok e (tick w) then (Inr v, advance (w\<lparr>w_db := d'\<rparr>))
          else (Inl OperationalError,
            advance (w\<lparr>w_db := if commit_landed e (tick w) then d' else rolled_back (w_db w) d'\<rparr>)))"

text \<open>Nothing but the world's clock and log move when the database is not committed to.\<close>

named_theorems world_simps \<open>what an interaction leaves alone\<close>

lemma advance_simps [simp, world_simps]:
  "w_db (advance w) = w_db w" "requests (advance w) = requests w"
  "owner_cache (advance w) = owner_cache w"
  by (simp_all add: advance_def)

lemma utc_now_world [world_simps]: "snd (utc_now e w) = advance w"
  by (simp add: utc_now_def)

lemma http_send_world:
  "http_send e r w = (x, w') \<Longrightarrow> w_db w' = w_db w \<and> requests w' = requests w @ [r] \<and> owner_cache w' = owner_cache w"
  by (auto simp: http_send_def)

lemma db_commit_cases:
  assumes "db_commit e stmt w = (r, w')"
  obtains (ok) v d' where "stmt (w_db w) = (Inr v, d')" "r = Inr v" "w_db w' = d'"
  | (refused) x d' where "stmt (w_db w) = (Inl x, d')" "r = Inl x" "w_db w' = d'"
  | (lost) v d' where "stmt (w_db w) = (Inr v, d')" "r = Inl OperationalError"
      "w_db w' = rolled_back (w_db w) d'"
  | (unheard) v d' where "stmt (w_db w) = (Inr v, d')" "r = Inl OperationalError" "w_db w' = d'"
  using assms unfolding db_commit_def by (auto split: prod.splits sum.splits if_splits)

lemma db_commit_rest:
  "db_commit e stmt w = (r, w') \<Longrightarrow> requests w' = requests w \<and> owner_cache w' = owner_cache w"
  unfolding db_commit_def by (auto split: prod.splits sum.splits if_splits)

end
