(* ===== verification/Urllib.thy ===== *)
theory Urllib
  imports Numbers
begin

text \<open>
  \<open>urllib.parse.urlencode\<close> and \<open>parse_qsl\<close>, which sign a request and rewrite a database URL.
  \<open>parse_qsl\<close> reads back what \<open>urlencode\<close> wrote; so two different parameter lists never share a
  query string, and a signature covers exactly one of them.
\<close>

definition url_safe :: "char \<Rightarrow> bool" where
  "url_safe c = (is_lower c \<or> is_upper c \<or> is_digit c \<or> c \<in> set ''_.-~'')"

definition hex_upper :: "nat \<Rightarrow> char" where
  "hex_upper n = char_of (if n < 10 then 48 + n else 55 + n)"

definition quote_char :: "char \<Rightarrow> string" where
  "quote_char c =
     (if url_safe c then [c] else if c = CHR '' '' then ''+''
      else [CHR ''%'', hex_upper (code_of c div 16), hex_upper (code_of c mod 16)])"

definition quote_plus :: "string \<Rightarrow> string" where
  "quote_plus s = concat (map quote_char s)"

definition encode_pair :: "string \<times> string \<Rightarrow> string" where
  "encode_pair kv = quote_plus (fst kv) @ CHR ''='' # quote_plus (snd kv)"

definition urlencode :: "(string \<times> string) list \<Rightarrow> string" where
  "urlencode kvs = py_join ''&'' (map encode_pair kvs)"

text \<open>\<open>unquote(s.replace("+", " "))\<close>: a percent sign not followed by two hex digits stands for itself.\<close>

definition hex_val :: "char \<Rightarrow> nat option" where
  "hex_val c =
     (let n = code_of c
      in if 48 \<le> n \<and> n \<le> 57 then Some (n - 48)
         else if 65 \<le> n \<and> n \<le> 70 then Some (n - 55)
         else if 97 \<le> n \<and> n \<le> 102 then Some (n - 87) else None)"

fun unquote_plus :: "string \<Rightarrow> string" where
  "unquote_plus (c # a # b # s) =
     (if c = CHR ''%'' then
        (case (hex_val a, hex_val b) of
           (Some x, Some y) \<Rightarrow> char_of (16 * x + y) # unquote_plus s
         | _ \<Rightarrow> c # unquote_plus (a # b # s))
      else (if c = CHR ''+'' then CHR '' '' else c) # unquote_plus (a # b # s))"
| "unquote_plus (c # s) = (if c = CHR ''+'' then CHR '' '' else c) # unquote_plus s"
| "unquote_plus [] = []"

text \<open>\<open>parse_qsl(query, keep_blank_values=True)\<close>: empty pieces are skipped.\<close>

definition parse_pair :: "string \<Rightarrow> string \<times> string" where
  "parse_pair p =
     (case partition_at (CHR ''='') p of
        (k, None) \<Rightarrow> (unquote_plus k, [])
      | (k, Some v) \<Rightarrow> (unquote_plus k, unquote_plus v))"

definition parse_qsl :: "string \<Rightarrow> (string \<times> string) list" where
  "parse_qsl q = map parse_pair (filter (\<lambda>p. p \<noteq> []) (py_split (CHR ''&'') q))"

section \<open>Reading back\<close>

lemma hex_upper_code: "n < 16 \<Longrightarrow> code_of (hex_upper n) = (if n < 10 then 48 + n else 55 + n)"
  by (simp add: hex_upper_def)

lemma hex_val_upper [simp]: "n < 16 \<Longrightarrow> hex_val (hex_upper n) = Some n"
  by (simp add: hex_val_def hex_upper_code Let_def)

lemma safe_code: "url_safe c \<Longrightarrow> code_of c \<notin> {37, 38, 43, 61}"
  by (auto simp: url_safe_def is_lower_def is_upper_def is_digit_def)

lemma unquote_safe: "c \<noteq> CHR ''%'' \<Longrightarrow> unquote_plus (c # s) = (if c = CHR ''+'' then CHR '' '' else c) # unquote_plus s"
  by (cases s; cases "tl s") auto

lemma unquote_quote_char: "unquote_plus (quote_char c @ s) = c # unquote_plus s"
proof -
  have div: "code_of c div 16 < 16" by (rule less_mult_imp_div_less) simp
  have join: "16 * (code_of c div 16) + code_of c mod 16 = code_of c" by simp
  show ?thesis
  proof (cases "url_safe c")
    case True
    then have "c \<noteq> CHR ''%''" "c \<noteq> CHR ''+''" using safe_code [of c] by auto
    with True show ?thesis by (simp add: quote_char_def unquote_safe)
  next
    case unsafe: False
    show ?thesis
    proof (cases "c = CHR '' ''")
      case True
      with unsafe show ?thesis by (simp add: quote_char_def unquote_safe)
    next
      case False
      with unsafe show ?thesis by (simp add: quote_char_def div join)
    qed
  qed
qed

lemma unquote_quote: "unquote_plus (quote_plus s) = s"
  by (induction s) (simp_all add: quote_plus_def unquote_quote_char)

lemma quote_char_no_sep: "x \<in> set (quote_char c) \<Longrightarrow> x \<noteq> CHR ''&'' \<and> x \<noteq> CHR ''=''"
proof -
  assume x: "x \<in> set (quote_char c)"
  have "code_of c div 16 < 16" by (rule less_mult_imp_div_less) simp
  moreover have "code_of c mod 16 < 16" by simp
  moreover have "(url_safe c \<and> x = c) \<or> x = CHR ''+'' \<or> x = CHR ''%'' \<or>
      x = hex_upper (code_of c div 16) \<or> x = hex_upper (code_of c mod 16)"
    using x by (auto simp: quote_char_def split: if_splits)
  moreover have codes: "code_of (CHR ''+'') = 43" "code_of (CHR ''%'') = 37" by simp_all
  ultimately consider "url_safe x" | "code_of x = 37" | "code_of x = 43" | n where "n < 16" "x = hex_upper n"
    using codes by metis
  then have "code_of x \<noteq> 38 \<and> code_of x \<noteq> 61"
    using safe_code [of x] by cases (auto simp: hex_upper_code split: if_splits)
  then show ?thesis by auto
qed

lemma quote_plus_no_sep: "x \<in> set (quote_plus s) \<Longrightarrow> x \<noteq> CHR ''&'' \<and> x \<noteq> CHR ''=''"
  using quote_char_no_sep by (auto simp: quote_plus_def)

lemma partition_at_first:
  "sep \<notin> set a \<Longrightarrow> partition_at sep (a @ sep # b) = (a, Some b)"
  by (induction a) (auto simp: partition_at_def)

lemma parse_encode_pair: "parse_pair (encode_pair kv) = kv"
proof -
  have "CHR ''='' \<notin> set (quote_plus (fst kv))" using quote_plus_no_sep by blast
  then show ?thesis
    by (simp add: parse_pair_def encode_pair_def partition_at_first unquote_quote)
qed

lemma split_no_sep: "sep \<notin> set a \<Longrightarrow> py_split sep a = [a]"
  by (induction a) auto

lemma split_append: "sep \<notin> set a \<Longrightarrow> py_split sep (a @ sep # b) = a # py_split sep b"
  by (induction a) auto

lemma py_split_join:
  "ws \<noteq> [] \<Longrightarrow> \<forall>w \<in> set ws. sep \<notin> set w \<Longrightarrow> py_split sep (py_join [sep] ws) = ws"
  by (induction "[sep]" ws rule: py_join.induct) (auto simp: split_no_sep split_append)

lemma parse_urlencode: "parse_qsl (urlencode kvs) = kvs"
proof (cases kvs)
  case Nil
  then show ?thesis by (simp add: urlencode_def parse_qsl_def)
next
  case Cons
  have "\<forall>w \<in> set (map encode_pair kvs). CHR ''&'' \<notin> set w"
    using quote_plus_no_sep by (fastforce simp: encode_pair_def)
  then have "py_split (CHR ''&'') (urlencode kvs) = map encode_pair kvs"
    using Cons by (simp add: urlencode_def py_split_join)
  moreover have "filter (\<lambda>p. p \<noteq> []) (map encode_pair kvs) = map encode_pair kvs"
    by (simp add: filter_id_conv encode_pair_def)
  ultimately show ?thesis by (simp add: parse_qsl_def parse_encode_pair o_def)
qed

lemma urlencode_inject: "urlencode a = urlencode b \<longleftrightarrow> a = b"
  by (metis parse_urlencode)

end
