(* ===== verification/Sha256.thy ===== *)
theory Sha256
  imports Prelude "HOL-Library.Word"
begin

text \<open>
  The two functions of Python's standard library that the sources call on secrets and identifiers:
  \<open>hashlib.sha256(s.encode("utf-8")).hexdigest()\<close> (FIPS 180-4) and
  \<open>hmac.new(key, msg, hashlib.sha256).hexdigest()\<close> (RFC 2104). The lemmas are about the form of the
  result, 64 lowercase hexadecimal characters; nothing rests on collision resistance.
\<close>

unbundle bit_operations_syntax

type_synonym byte = "8 word"
type_synonym w32 = "32 word"

text \<open>The working variables a to h.\<close>

record hstate =
  ha :: w32
  hb :: w32
  hc :: w32
  hd4 :: w32
  he :: w32
  hf :: w32
  hg :: w32
  hh :: w32

text \<open>
  The constants are the first 32 bits of the fractional parts of the square roots of the first eight
  primes and of the cube roots of the first sixty-four, computed as integer roots of \<open>p * 2 ^ (32 k)\<close>.
\<close>

fun root_from :: "nat \<Rightarrow> nat \<Rightarrow> nat \<Rightarrow> nat \<Rightarrow> nat" where
  "root_from 0 k n acc = acc"
| "root_from (Suc b) k n acc =
     root_from b k n (if (acc + 2 ^ b) ^ k \<le> n then acc + 2 ^ b else acc)"

definition root_bits :: "nat \<Rightarrow> nat \<Rightarrow> w32" where
  "root_bits k p = of_nat (root_from 40 k (p * 2 ^ (32 * k)) 0)"

definition small_primes :: "nat list" where
  "small_primes = filter (\<lambda>p. list_all (\<lambda>q. p mod q \<noteq> 0) [2..<p]) [2..<312]"

definition sha_k :: "w32 list" where
  "sha_k = map (root_bits 3) small_primes"

definition sha_init :: hstate where
  "sha_init = \<lparr>ha = root_bits 2 2, hb = root_bits 2 3, hc = root_bits 2 5, hd4 = root_bits 2 7,
     he = root_bits 2 11, hf = root_bits 2 13, hg = root_bits 2 17, hh = root_bits 2 19\<rparr>"

definition small_sigma0 :: "w32 \<Rightarrow> w32" where
  "small_sigma0 x = word_rotr 7 x XOR word_rotr 18 x XOR drop_bit 3 x"

definition small_sigma1 :: "w32 \<Rightarrow> w32" where
  "small_sigma1 x = word_rotr 17 x XOR word_rotr 19 x XOR drop_bit 10 x"

definition big_sigma0 :: "w32 \<Rightarrow> w32" where
  "big_sigma0 x = word_rotr 2 x XOR word_rotr 13 x XOR word_rotr 22 x"

definition big_sigma1 :: "w32 \<Rightarrow> w32" where
  "big_sigma1 x = word_rotr 6 x XOR word_rotr 11 x XOR word_rotr 25 x"

definition ch :: "w32 \<Rightarrow> w32 \<Rightarrow> w32 \<Rightarrow> w32" where
  "ch x y z = (x AND y) XOR (NOT x AND z)"

definition maj :: "w32 \<Rightarrow> w32 \<Rightarrow> w32 \<Rightarrow> w32" where
  "maj x y z = (x AND y) XOR (x AND z) XOR (y AND z)"

text \<open>The message schedule, newest word first: \<open>n\<close> more words after the sixteen of the block.\<close>

fun schedule :: "nat \<Rightarrow> w32 list \<Rightarrow> w32 list" where
  "schedule 0 ws = ws"
| "schedule (Suc n) ws =
     schedule n ((small_sigma1 (ws ! 1) + ws ! 6 + small_sigma0 (ws ! 14) + ws ! 15) # ws)"

definition sha_round :: "hstate \<Rightarrow> w32 \<times> w32 \<Rightarrow> hstate" where
  "sha_round s kw =
     (let t1 = hh s + big_sigma1 (he s) + ch (he s) (hf s) (hg s) + fst kw + snd kw;
          t2 = big_sigma0 (ha s) + maj (ha s) (hb s) (hc s)
      in \<lparr>ha = t1 + t2, hb = ha s, hc = hb s, hd4 = hc s, he = hd4 s + t1, hf = he s, hg = hf s, hh = hg s\<rparr>)"

definition compress :: "hstate \<Rightarrow> w32 list \<Rightarrow> hstate" where
  "compress s block =
     (let r = foldl sha_round s (zip sha_k (rev (schedule 48 (rev block))))
      in \<lparr>ha = ha s + ha r, hb = hb s + hb r, hc = hc s + hc r, hd4 = hd4 s + hd4 r,
          he = he s + he r, hf = hf s + hf r, hg = hg s + hg r, hh = hh s + hh r\<rparr>)"

text \<open>Bytes to big-endian words and back; padding to a multiple of 64 bytes.\<close>

fun be_words :: "byte list \<Rightarrow> w32 list" where
  "be_words (a # b # c # d # bs) =
     (push_bit 24 (ucast a) OR push_bit 16 (ucast b) OR push_bit 8 (ucast c) OR ucast d) # be_words bs"
| "be_words _ = []"

definition be_bytes :: "w32 \<Rightarrow> byte list" where
  "be_bytes w = [ucast (drop_bit 24 w), ucast (drop_bit 16 w), ucast (drop_bit 8 w), ucast w]"

definition length_bytes :: "nat \<Rightarrow> byte list" where
  "length_bytes n = map (\<lambda>i. of_nat (8 * n div 256 ^ i)) [7, 6, 5, 4, 3, 2, 1, 0]"

definition sha_pad :: "byte list \<Rightarrow> byte list" where
  "sha_pad m = m @ 0x80 # replicate ((119 - length m mod 64) mod 64) 0 @ length_bytes (length m)"

fun sha_blocks :: "nat \<Rightarrow> hstate \<Rightarrow> w32 list \<Rightarrow> hstate" where
  "sha_blocks 0 s ws = s"
| "sha_blocks (Suc n) s ws = sha_blocks n (compress s (take 16 ws)) (drop 16 ws)"

definition sha256 :: "byte list \<Rightarrow> byte list" where
  "sha256 m =
     (let ws = be_words (sha_pad m); s = sha_blocks (length ws div 16) sha_init ws
      in be_bytes (ha s) @ be_bytes (hb s) @ be_bytes (hc s) @ be_bytes (hd4 s) @
         be_bytes (he s) @ be_bytes (hf s) @ be_bytes (hg s) @ be_bytes (hh s))"

section \<open>Hexadecimal digests\<close>

definition hex_char :: "nat \<Rightarrow> char" where
  "hex_char n = char_of (if n < 10 then 48 + n else 87 + n)"

definition hex :: "byte list \<Rightarrow> string" where
  "hex bs = concat (map (\<lambda>b. [hex_char (unat b div 16), hex_char (unat b mod 16)]) bs)"

text \<open>\<open>s.encode("utf-8")\<close>, for code points below 128.\<close>

definition encode_ascii :: "string \<Rightarrow> byte list" where
  "encode_ascii s = map (\<lambda>c. of_nat (code_of c)) s"

definition sha256_hex :: "string \<Rightarrow> string" where
  "sha256_hex s = hex (sha256 (encode_ascii s))"

definition hmac_sha256_hex :: "string \<Rightarrow> string \<Rightarrow> string" where
  "hmac_sha256_hex key msg =
     (let k0 = (if 64 < length key then sha256 (encode_ascii key) else encode_ascii key);
          k = k0 @ replicate (64 - length k0) 0
      in hex (sha256 (map (\<lambda>b. b XOR 0x5c) k @
                      sha256 (map (\<lambda>b. b XOR 0x36) k @ encode_ascii msg))))"

definition is_hex_char :: "char \<Rightarrow> bool" where
  "is_hex_char c = (is_digit c \<or> (97 \<le> code_of c \<and> code_of c \<le> 102))"

lemma length_sha256 [simp]: "length (sha256 m) = 32"
  by (simp add: sha256_def be_bytes_def Let_def)

lemma length_hex [simp]: "length (hex bs) = 2 * length bs"
  by (induction bs) (simp_all add: hex_def)

lemma hex_char_ok: "n < 16 \<Longrightarrow> is_hex_char (hex_char n)"
  by (auto simp: is_hex_char_def hex_char_def is_digit_def)

lemma hex_chars: "c \<in> set (hex bs) \<Longrightarrow> is_hex_char c"
proof -
  assume "c \<in> set (hex bs)"
  then obtain b where b: "c = hex_char (unat b div 16) \<or> c = hex_char (unat (b :: byte) mod 16)"
    by (auto simp: hex_def)
  have "unat b < 256" using unsigned_less [of b, where 'a = nat] by simp
  then show ?thesis using b hex_char_ok by auto
qed

lemma sha256_hex_form: "length (sha256_hex s) = 64 \<and> (\<forall>c \<in> set (sha256_hex s). is_hex_char c)"
  using hex_chars by (auto simp: sha256_hex_def)

lemma hmac_hex_form: "length (hmac_sha256_hex k m) = 64 \<and> (\<forall>c \<in> set (hmac_sha256_hex k m). is_hex_char c)"
  using hex_chars by (auto simp: hmac_sha256_hex_def Let_def)

end
