(* ===== verification/Binance.thy ===== *)
theory Binance
  imports Errors Urllib Sha256
begin

text \<open>
  \<open>app/services/binance_service.py\<close>: the exchange client. \<open>do_request\<close> is \<open>_request\<close>; every failure of the
  HTTP layer becomes one of the typed errors. A client object is a record of its settings; the calls
  take the environment, whose \<open>exchange\<close> answers each HTTP request with any outcome.

  The interface \<open>exchange_api\<close> at the end is what the services rely on, whichever client is injected:
  placing an order sends at most one order request, carrying the given client order id; a query sends
  none; neither touches the database. It is interpreted on the client modelled here.
\<close>

section \<open>Errors\<close>

datatype binance_error =
  Rejected string json "int option"
| RateLimit string json "int option" "int option"
| Auth string json "int option"
| Unavailable string json "int option"
| Uncertain string json "int option"

fun b_message :: "binance_error \<Rightarrow> string" where
  "b_message (Rejected m _ _) = m"
| "b_message (RateLimit m _ _ _) = m"
| "b_message (Auth m _ _) = m"
| "b_message (Unavailable m _ _) = m"
| "b_message (Uncertain m _ _) = m"

text \<open>The code; \<open>JNull\<close> is \<open>None\<close>.\<close>

fun b_code :: "binance_error \<Rightarrow> json" where
  "b_code (Rejected _ c _) = c"
| "b_code (RateLimit _ c _ _) = c"
| "b_code (Auth _ c _) = c"
| "b_code (Unavailable _ c _) = c"
| "b_code (Uncertain _ c _) = c"

text \<open>\<open>isinstance(exc, BinanceRejectedError)\<close>: rate limit and authentication errors are subclasses.\<close>

fun is_rejected :: "binance_error \<Rightarrow> bool" where
  "is_rejected (Rejected _ _ _) = True"
| "is_rejected (RateLimit _ _ _ _) = True"
| "is_rejected (Auth _ _ _) = True"
| "is_rejected _ = False"

text \<open>Everything a service call can raise; \<open>PyExn\<close> is any other Python exception, by its class.\<close>

datatype exn =
  AppExn app_error
| BinanceExn binance_error
| SqlExn sql_error
| PyExn string

definition ORDER_DOES_NOT_EXIST_CODE :: int where
  "ORDER_DOES_NOT_EXIST_CODE = - 2013"

section \<open>The normalised result\<close>

record order_result =
  r_order_id :: "int option"
  r_client_order_id :: string
  r_symbol :: string
  r_side :: string
  r_status :: string
  r_executed_quantity :: decimal
  r_cumulative_quote_quantity :: decimal
  r_raw :: "(string \<times> json) list"

text \<open>The exception \<open>int(x)\<close> raises where it has no value.\<close>

fun int_error :: "json \<Rightarrow> string" where
  "int_error (JStr _) = ''ValueError''"
| "int_error (JFloat _ r) = (if r = ''nan'' then ''ValueError'' else ''OverflowError'')"
| "int_error _ = ''TypeError''"

text \<open>\<open>_decimal(key)\<close>: never fails; a falsy, missing or unreadable field is zero.\<close>

definition payload_decimal :: "string \<Rightarrow> (string \<times> json) list \<Rightarrow> decimal" where
  "payload_decimal key p =
     (let v = (case json_get key p of None \<Rightarrow> JStr ''0'' | Some j \<Rightarrow> j);
          text = (if json_truthy v then py_str v else ''0'')
      in case decimal_of_str text of None \<Rightarrow> dec_zero | Some d \<Rightarrow> d)"

definition payload_str :: "string \<Rightarrow> (string \<times> json) list \<Rightarrow> string" where
  "payload_str key p = (case json_get key p of None \<Rightarrow> [] | Some j \<Rightarrow> py_str j)"

definition from_payload :: "(string \<times> json) list \<Rightarrow> (exn, order_result) result" where
  "from_payload p =
     (let build = (\<lambda>oid. \<lparr>r_order_id = oid, r_client_order_id = payload_str ''clientOrderId'' p,
                r_symbol = payload_str ''symbol'' p, r_side = payload_str ''side'' p,
                r_status = payload_str ''status'' p,
                r_executed_quantity = payload_decimal ''executedQty'' p,
                r_cumulative_quote_quantity = payload_decimal ''cummulativeQuoteQty'' p, r_raw = p\<rparr>)
      in case json_get ''orderId'' p of
           None \<Rightarrow> Inr (build None)
         | Some JNull \<Rightarrow> Inr (build None)
         | Some j \<Rightarrow> (case json_int j of None \<Rightarrow> Inl (PyExn (int_error j)) | Some i \<Rightarrow> Inr (build (Some i))))"

section \<open>The client object\<close>

record client =
  c_api_key :: string
  c_secret_key :: string
  c_base_url :: string
  c_timeout :: decimal
  c_recv_window :: int
  c_dry_run :: bool

definition client_host :: "env \<Rightarrow> string \<Rightarrow> string" where
  "client_host e base = py_lower (url_host e base)"

definition assert_testnet :: "env \<Rightarrow> string \<Rightarrow> (exn, unit) result" where
  "assert_testnet e base =
     (if client_host e base \<in> ALLOWED_BINANCE_HOSTS then Inr () else Inl (PyExn ''RuntimeError''))"

text \<open>\<open>value or default\<close>, for an optional string argument.\<close>

definition or_str :: "string option \<Rightarrow> string \<Rightarrow> string" where
  "or_str x d = (case x of None \<Rightarrow> d | Some s \<Rightarrow> if s = [] then d else s)"

definition make_client ::
  "env \<Rightarrow> settings \<Rightarrow> string option \<Rightarrow> string option \<Rightarrow> string option \<Rightarrow> decimal option \<Rightarrow> int option \<Rightarrow>
   bool option \<Rightarrow> (exn, client) result" where
  "make_client e s api_key secret_key base_url timeout recv_window dry_run =
     (let base = rstrip_char (CHR ''/'') (or_str base_url (BINANCE_BASE_URL s))
      in case assert_testnet e base of
           Inl x \<Rightarrow> Inl x
         | Inr _ \<Rightarrow> Inr
             \<lparr>c_api_key = or_str api_key (BINANCE_API_KEY s),
              c_secret_key = or_str secret_key (BINANCE_SECRET_KEY s),
              c_base_url = base,
              c_timeout = (case timeout of None \<Rightarrow> BINANCE_TIMEOUT_SECONDS s
                | Some t \<Rightarrow> if dec_same t dec_zero then BINANCE_TIMEOUT_SECONDS s else t),
              c_recv_window = (case recv_window of None \<Rightarrow> BINANCE_RECV_WINDOW_MS s
                | Some r \<Rightarrow> if r = 0 then BINANCE_RECV_WINDOW_MS s else r),
              c_dry_run = (case dry_run of None \<Rightarrow> BINANCE_DRY_RUN s | Some b \<Rightarrow> b)\<rparr>)"

section \<open>Plumbing\<close>

definition sign :: "client \<Rightarrow> (string \<times> string) list \<Rightarrow> string" where
  "sign c params = hmac_sha256_hex (c_secret_key c) (urlencode params)"

text \<open>A dict update keeps the place of a key that is there and appends one that is not.\<close>

definition dict_set :: "string \<Rightarrow> string \<Rightarrow> (string \<times> string) list \<Rightarrow> (string \<times> string) list" where
  "dict_set k v kvs =
     (if k \<in> fst ` set kvs then map (\<lambda>kv. if fst kv = k then (k, v) else kv) kvs else kvs @ [(k, v)])"

definition signed_params :: "client \<Rightarrow> int \<Rightarrow> (string \<times> string) list \<Rightarrow> (string \<times> string) list" where
  "signed_params c now params =
     (let p = dict_set ''recvWindow'' (str_int (c_recv_window c))
                (dict_set ''timestamp'' (str_int (now div 1000)) params)
      in dict_set ''signature'' (sign c p) p)"

definition error_body :: "http_response \<Rightarrow> (string \<times> json) list" where
  "error_body r = (case rs_body r of Some (JObj kvs) \<Rightarrow> kvs | _ \<Rightarrow> [])"

definition response_error_code :: "http_response \<Rightarrow> json" where
  "response_error_code r = (case json_get ''code'' (error_body r) of None \<Rightarrow> JNull | Some j \<Rightarrow> j)"

definition response_error_message :: "http_response \<Rightarrow> string" where
  "response_error_message r =
     (case json_get ''msg'' (error_body r) of
        Some (JStr m) \<Rightarrow> if m \<noteq> [] then m else ''Binance returned HTTP '' @ str_int (rs_status r) @ ''.''
      | _ \<Rightarrow> ''Binance returned HTTP '' @ str_int (rs_status r) @ ''.'')"

definition parse_retry_after :: "string option \<Rightarrow> int option" where
  "parse_retry_after v = (case v of None \<Rightarrow> None | Some s \<Rightarrow> if s = [] then None else int_of_str s)"

definition auth_code :: "json \<Rightarrow> bool" where
  "auth_code c = (json_eq_int c (- 2014) \<or> json_eq_int c (- 2015) \<or> json_eq_int c (- 1022))"

definition handle_response :: "http_response \<Rightarrow> (exn, (string \<times> json) list) result" where
  "handle_response r =
     (let sc = rs_status r
      in if 500 \<le> sc then
           Inl (BinanceExn (Uncertain ''Binance returned a server error; order status is unknown.''
             (JStr ''server_error'') (Some sc)))
         else if sc = 429 \<or> sc = 418 then
           Inl (BinanceExn (RateLimit ''Binance rate limit exceeded.'' (response_error_code r) (Some sc)
             (parse_retry_after (rs_retry_after r))))
         else if 400 \<le> sc then
           (let code = response_error_code r; msg = response_error_message r
            in if sc = 401 \<or> sc = 403 \<or> auth_code code
               then Inl (BinanceExn (Auth msg code (Some sc)))
               else Inl (BinanceExn (Rejected msg code (Some sc))))
         else
           (case rs_body r of
              None \<Rightarrow> Inl (BinanceExn (Uncertain ''Binance returned an unreadable response.''
                 (JStr ''bad_payload'') None))
            | Some (JObj kvs) \<Rightarrow> Inr kvs
            | Some j \<Rightarrow> Inr [(''result'', j)]))"

definition do_request ::
  "env \<Rightarrow> client \<Rightarrow> http_method \<Rightarrow> string \<Rightarrow> (string \<times> string) list \<Rightarrow> bool \<Rightarrow> world \<Rightarrow>
   (exn, (string \<times> json) list) result \<times> world" where
  "do_request e c method path params is_signed w =
     (let (ps, w1) = (if is_signed then (let (now, w') = utc_now e w in (signed_params c now params, w'))
                      else (params, w));
          (outcome, w2) = http_send e \<lparr>rq_method = method, rq_path = path, rq_params = ps\<rparr> w1
      in case outcome of
           ConnectFailed \<Rightarrow>
             (Inl (BinanceExn (Unavailable ''Could not reach Binance testnet.'' (JStr ''connection_error'') None)), w2)
         | TimedOut \<Rightarrow>
             (Inl (BinanceExn (Uncertain ''Binance did not respond in time; order status is unknown.''
                (JStr ''timeout'') None)), w2)
         | TransportError \<Rightarrow>
             (Inl (BinanceExn (Uncertain ''Binance request failed in transport; order status is unknown.''
                (JStr ''transport_error'') None)), w2)
         | Answered r \<Rightarrow> (handle_response r, w2))"

section \<open>Public calls\<close>

definition ping :: "env \<Rightarrow> client \<Rightarrow> world \<Rightarrow> bool \<times> world" where
  "ping e c w =
     (case do_request e c GET ''/api/v3/ping'' [] False w of
        (Inl _, w') \<Rightarrow> (False, w') | (Inr _, w') \<Rightarrow> (True, w'))"

definition get_server_time :: "env \<Rightarrow> client \<Rightarrow> world \<Rightarrow> (exn, int) result \<times> world" where
  "get_server_time e c w =
     (case do_request e c GET ''/api/v3/time'' [] False w of
        (Inl x, w') \<Rightarrow> (Inl x, w')
      | (Inr p, w') \<Rightarrow>
          (case json_get ''serverTime'' p of
             None \<Rightarrow> (Inl (PyExn ''KeyError''), w')
           | Some j \<Rightarrow> (case json_int j of None \<Rightarrow> (Inl (PyExn (int_error j)), w') | Some i \<Rightarrow> (Inr i, w'))))"

definition order_path :: "client \<Rightarrow> string" where
  "order_path c = (if c_dry_run c then ''/api/v3/order/test'' else ''/api/v3/order'')"

definition order_params :: "string \<Rightarrow> string \<Rightarrow> string \<Rightarrow> string \<Rightarrow> (string \<times> string) list" where
  "order_params sy sd qty cid =
     [(''symbol'', sy), (''side'', sd), (''type'', ''MARKET''), (''quantity'', qty),
      (''newClientOrderId'', cid), (''newOrderRespType'', ''FULL'')]"

definition place_market_order ::
  "env \<Rightarrow> client \<Rightarrow> string \<Rightarrow> string \<Rightarrow> decimal \<Rightarrow> string \<Rightarrow> world \<Rightarrow> (exn, order_result) result \<times> world" where
  "place_market_order e c sy sd qty cid w =
     (case assert_testnet e (c_base_url c) of
        Inl x \<Rightarrow> (Inl x, w)
      | Inr _ \<Rightarrow>
          (case format_decimal qty of
             Inl NonFinite \<Rightarrow> (Inl (PyExn ''ValueError''), w)
           | Inl Overflow \<Rightarrow> (Inl (PyExn ''Overflow''), w)
           | Inr text \<Rightarrow>
               (case do_request e c POST (order_path c) (order_params sy sd text cid) True w of
                  (Inl x, w') \<Rightarrow> (Inl x, w')
                | (Inr p, w') \<Rightarrow>
                    if c_dry_run c then
                      (Inr \<lparr>r_order_id = None, r_client_order_id = cid, r_symbol = sy, r_side = sd,
                         r_status = ''DRY_RUN_VALIDATED'', r_executed_quantity = dec_zero,
                         r_cumulative_quote_quantity = dec_zero, r_raw = p\<rparr>, w')
                    else (from_payload p, w'))))"

definition get_order ::
  "env \<Rightarrow> client \<Rightarrow> string \<Rightarrow> string \<Rightarrow> world \<Rightarrow> (exn, order_result option) result \<times> world" where
  "get_order e c sy cid w =
     (case do_request e c GET ''/api/v3/order'' [(''symbol'', sy), (''origClientOrderId'', cid)] True w of
        (Inl (BinanceExn x), w') \<Rightarrow>
          if is_rejected x \<and> json_eq_int (b_code x) ORDER_DOES_NOT_EXIST_CODE then (Inr None, w')
          else (Inl (BinanceExn x), w')
      | (Inl x, w') \<Rightarrow> (Inl x, w')
      | (Inr p, w') \<Rightarrow>
          (case from_payload p of Inl x \<Rightarrow> (Inl x, w') | Inr r \<Rightarrow> (Inr (Some r), w')))"

section \<open>What a call does to the world\<close>

definition is_order_request :: "http_request \<Rightarrow> bool" where
  "is_order_request r =
     (rq_method r = POST \<and> (rq_path r = ''/api/v3/order'' \<or> rq_path r = ''/api/v3/order/test''))"

definition orders_for :: "string \<Rightarrow> world \<Rightarrow> nat" where
  "orders_for cid w =
     length (filter (\<lambda>r. is_order_request r \<and> map_of (rq_params r) ''newClientOrderId'' = Some cid) (requests w))"

definition order_count :: "world \<Rightarrow> nat" where
  "order_count w = length (filter is_order_request (requests w))"

text \<open>Only the log and the clock differ.\<close>

definition same_store :: "world \<Rightarrow> world \<Rightarrow> bool" where
  "same_store w w' = (w_db w' = w_db w \<and> owner_cache w' = owner_cache w)"

lemma same_store_refl [simp]: "same_store w w"
  by (simp add: same_store_def)

lemma do_request_log:
  assumes "do_request e c m path ps sg w = (r, w')"
  shows "same_store w w' \<and> (\<exists>now. requests w' = requests w @
    [\<lparr>rq_method = m, rq_path = path, rq_params = (if sg then signed_params c now ps else ps)\<rparr>])"
  using assms unfolding do_request_def same_store_def
  by (cases sg) (auto simp: utc_now_def http_send_def split: prod.splits http_outcome.splits)

lemma map_of_replace:
  "k \<noteq> k' \<Longrightarrow> map_of (map (\<lambda>kv. if fst kv = k' then (k', v) else kv) kvs) k = map_of kvs k"
  by (induction kvs) auto

lemma map_of_dict_set: "k \<noteq> k' \<Longrightarrow> map_of (dict_set k' v kvs) k = map_of kvs k"
  using map_of_replace [of k k' v kvs] by (auto simp: dict_set_def map_add_def split: option.splits)

lemma signed_params_keep:
  "k \<notin> {''timestamp'', ''recvWindow'', ''signature''} \<Longrightarrow> map_of (signed_params c now ps) k = map_of ps k"
  by (simp add: signed_params_def Let_def map_of_dict_set)

lemma order_params_cid: "map_of (signed_params c now (order_params sy sd q cid)) ''newClientOrderId'' = Some cid"
  by (simp add: signed_params_keep order_params_def)

lemma place_market_order_log:
  assumes "place_market_order e c sy sd qty cid w = (r, w')"
  shows "same_store w w' \<and> (requests w' = requests w \<or>
    (\<exists>q. requests w' = requests w @ [q] \<and> is_order_request q \<and>
      map_of (rq_params q) ''newClientOrderId'' = Some cid))"
proof (cases "w' = w")
  case True
  then show ?thesis by simp
next
  case False
  with assms obtain qt r1 where "do_request e c POST (order_path c) (order_params sy sd qt cid) True w = (r1, w')"
    unfolding place_market_order_def
    by (auto split: sum.splits number_error.splits prod.splits if_splits)
  from do_request_log [OF this] show ?thesis
    by (cases "c_dry_run c") (auto simp: is_order_request_def order_path_def order_params_cid)
qed

lemma get_order_log:
  assumes "get_order e c sy cid w = (r, w')"
  shows "same_store w w' \<and> (\<exists>q. requests w' = requests w @ [q] \<and> rq_method q = GET)"
proof -
  obtain r1 where "do_request e c GET ''/api/v3/order'' [(''symbol'', sy), (''origClientOrderId'', cid)] True w = (r1, w')"
    using assms unfolding get_order_def
    by (auto split: sum.splits exn.splits prod.splits if_splits)
  from do_request_log [OF this] show ?thesis by auto
qed

section \<open>The interface of an injected client\<close>

record binance_api =
  api_place :: "string \<Rightarrow> string \<Rightarrow> decimal \<Rightarrow> string \<Rightarrow> world \<Rightarrow> (exn, order_result) result \<times> world"
  api_query :: "string \<Rightarrow> string \<Rightarrow> world \<Rightarrow> (exn, order_result option) result \<times> world"

definition binance_client :: "env \<Rightarrow> client \<Rightarrow> binance_api" where
  "binance_client e c = \<lparr>api_place = place_market_order e c, api_query = get_order e c\<rparr>"

locale exchange_api =
  fixes api :: binance_api
  assumes place_log: "api_place api sy sd qty cid w = (r, w') \<Longrightarrow>
      same_store w w' \<and> (requests w' = requests w \<or>
        (\<exists>q. requests w' = requests w @ [q] \<and> is_order_request q \<and>
          map_of (rq_params q) ''newClientOrderId'' = Some cid))"
    and query_log: "api_query api sy cid w = (ro, w') \<Longrightarrow>
      same_store w w' \<and> (\<exists>qs. requests w' = requests w @ qs \<and> list_all (\<lambda>q. \<not> is_order_request q) qs)"
begin

lemma place_orders:
  assumes "api_place api sy sd qty cid w = (r, w')"
  shows "orders_for cid w' \<le> orders_for cid w + 1 \<and> (c \<noteq> cid \<longrightarrow> orders_for c w' = orders_for c w) \<and>
    order_count w' \<le> order_count w + 1"
  using place_log [OF assms] by (auto simp: orders_for_def order_count_def)

lemma query_orders:
  assumes "api_query api sy cid w = (r, w')"
  shows "orders_for c w' = orders_for c w \<and> order_count w' = order_count w"
proof -
  obtain qs where "requests w' = requests w @ qs" "list_all (\<lambda>q. \<not> is_order_request q) qs"
    using query_log [OF assms] by blast
  then show ?thesis
    by (auto simp: orders_for_def order_count_def list_all_iff filter_empty_conv)
qed

lemma place_store: "api_place api sy sd qty cid w = (r, w') \<Longrightarrow> w_db w' = w_db w \<and> owner_cache w' = owner_cache w"
  using place_log by (simp add: same_store_def)

lemma query_store: "api_query api sy cid w = (r, w') \<Longrightarrow> w_db w' = w_db w \<and> owner_cache w' = owner_cache w"
  using query_log by (simp add: same_store_def)

end

lemma binance_client_simps [simp]:
  "api_place (binance_client e c) = place_market_order e c" "api_query (binance_client e c) = get_order e c"
  by (simp_all add: binance_client_def)

interpretation testnet: exchange_api "binance_client e c" for e c
proof
  fix sy sd qty cid w r w'
  assume "api_place (binance_client e c) sy sd qty cid w = (r, w')"
  then show "same_store w w' \<and> (requests w' = requests w \<or>
      (\<exists>q. requests w' = requests w @ [q] \<and> is_order_request q \<and>
        map_of (rq_params q) ''newClientOrderId'' = Some cid))"
    by (simp add: place_market_order_log)
next
  fix sy cid w r w'
  assume "api_query (binance_client e c) sy cid w = (r, w')"
  then obtain q where "same_store w w'" "requests w' = requests w @ [q]" "rq_method q = GET"
    using get_order_log by (metis binance_client_simps(2))
  then show "same_store w w' \<and> (\<exists>qs. requests w' = requests w @ qs \<and> list_all (\<lambda>q. \<not> is_order_request q) qs)"
    by (intro conjI exI [of _ "[q]"]) (simp_all add: is_order_request_def)
qed

end
