(* ===== verification/Fates.thy ===== *)
theory Fates
  imports Binance
begin

text \<open>
  The contract of the exchange client, stated without its details: what one HTTP exchange tells about
  the order it was about, and that the typed errors of \<open>app/services/binance_service.py\<close> say exactly
  that. The trading and reconciliation services branch on the errors alone, so the contract is what
  makes their statuses honest.
\<close>

section \<open>The specification\<close>

datatype fate = Never_sent | Refused | May_exist | Confirmed

fun fate_of :: "http_outcome \<Rightarrow> fate" where
  "fate_of ConnectFailed = Never_sent"
| "fate_of TimedOut = May_exist"
| "fate_of TransportError = May_exist"
| "fate_of (Answered r) =
     (if 500 \<le> rs_status r then May_exist else if 400 \<le> rs_status r then Refused
      else if rs_body r = None then May_exist else Confirmed)"

fun error_fate :: "binance_error \<Rightarrow> fate" where
  "error_fate (Rejected _ _ _) = Refused"
| "error_fate (RateLimit _ _ _ _) = Refused"
| "error_fate (Auth _ _ _) = Refused"
| "error_fate (Unavailable _ _ _) = Never_sent"
| "error_fate (Uncertain _ _ _) = May_exist"

section \<open>The client implements it\<close>

lemma handle_response_fate:
  "handle_response r = Inl y \<Longrightarrow> \<exists>x. y = BinanceExn x \<and> error_fate x = fate_of (Answered r)"
  "handle_response r = Inr p \<Longrightarrow> fate_of (Answered r) = Confirmed"
  by (auto simp: handle_response_def Let_def split: if_splits option.splits json.splits)

text \<open>The request a signed call sends, and the tick at which the exchange answers it.\<close>

definition signed_request :: "env \<Rightarrow> client \<Rightarrow> http_method \<Rightarrow> string \<Rightarrow> (string \<times> string) list \<Rightarrow> world \<Rightarrow> http_request" where
  "signed_request e c m path ps w =
     \<lparr>rq_method = m, rq_path = path, rq_params = signed_params c (clock e (tick w)) ps\<rparr>"

definition outcome_at :: "env \<Rightarrow> http_request \<Rightarrow> world \<Rightarrow> http_outcome" where
  "outcome_at e r w = exchange e (tick w + 1) r"

lemma do_request_signed:
  "do_request e c m path ps True w =
     (case outcome_at e (signed_request e c m path ps w) w of
        ConnectFailed \<Rightarrow>
          Inl (BinanceExn (Unavailable ''Could not reach Binance testnet.'' (JStr ''connection_error'') None))
      | TimedOut \<Rightarrow>
          Inl (BinanceExn (Uncertain ''Binance did not respond in time; order status is unknown.''
                (JStr ''timeout'') None))
      | TransportError \<Rightarrow>
          Inl (BinanceExn (Uncertain ''Binance request failed in transport; order status is unknown.''
                (JStr ''transport_error'') None))
      | Answered r \<Rightarrow> handle_response r,
      w\<lparr>requests := requests w @ [signed_request e c m path ps w], tick := tick w + 2\<rparr>)"
  by (simp add: do_request_def utc_now_def http_send_def advance_def outcome_at_def signed_request_def
      split: http_outcome.split)

lemma do_request_fate:
  assumes "do_request e c m path ps True w = (r, w')"
  shows "case r of
      Inl y \<Rightarrow> \<exists>x. y = BinanceExn x \<and> error_fate x = fate_of (outcome_at e (signed_request e c m path ps w) w)
    | Inr _ \<Rightarrow> fate_of (outcome_at e (signed_request e c m path ps w) w) = Confirmed"
proof -
  let ?o = "outcome_at e (signed_request e c m path ps w) w"
  have r: "r = fst (do_request e c m path ps True w)" using assms by simp
  show ?thesis
  proof (cases ?o)
    case (Answered a)
    then have "r = handle_response a" using r by (simp add: do_request_signed)
    then show ?thesis using handle_response_fate [of a] Answered by (auto split: sum.split)
  qed (simp_all add: r do_request_signed)
qed

text \<open>The one way a query says that no such order exists.\<close>

definition says_no_such_order :: "http_outcome \<Rightarrow> bool" where
  "says_no_such_order out =
     (case out of
        Answered r \<Rightarrow> 400 \<le> rs_status r \<and> rs_status r < 500 \<and>
          json_eq_int (response_error_code r) ORDER_DOES_NOT_EXIST_CODE
      | _ \<Rightarrow> False)"

lemma handle_response_missing:
  "(\<exists>x. handle_response r = Inl (BinanceExn x) \<and> is_rejected x \<and> json_eq_int (b_code x) ORDER_DOES_NOT_EXIST_CODE)
     \<longleftrightarrow> says_no_such_order (Answered r)"
  unfolding says_no_such_order_def handle_response_def Let_def
  by (auto split: if_splits option.splits json.splits)

definition query_params :: "string \<Rightarrow> string \<Rightarrow> (string \<times> string) list" where
  "query_params sy cid = [(''symbol'', sy), (''origClientOrderId'', cid)]"

definition query_outcome :: "env \<Rightarrow> client \<Rightarrow> string \<Rightarrow> string \<Rightarrow> world \<Rightarrow> http_outcome" where
  "query_outcome e c sy cid w = outcome_at e (signed_request e c GET ''/api/v3/order'' (query_params sy cid) w) w"

lemma get_order_fst:
  "fst (get_order e c sy cid w) =
     (case fst (do_request e c GET ''/api/v3/order'' (query_params sy cid) True w) of
        Inl (BinanceExn x) \<Rightarrow>
          if is_rejected x \<and> json_eq_int (b_code x) ORDER_DOES_NOT_EXIST_CODE then Inr None else Inl (BinanceExn x)
      | Inl x \<Rightarrow> Inl x
      | Inr p \<Rightarrow> (case from_payload p of Inl x \<Rightarrow> Inl x | Inr r \<Rightarrow> Inr (Some r)))"
  by (auto simp: get_order_def query_params_def split: prod.split sum.split exn.split)

lemma get_order_missing:
  "fst (get_order e c sy cid w) = Inr None \<longleftrightarrow> says_no_such_order (query_outcome e c sy cid w)"
proof -
  let ?r = "fst (do_request e c GET ''/api/v3/order'' (query_params sy cid) True w)"
  have "fst (get_order e c sy cid w) = Inr None \<longleftrightarrow>
      (\<exists>x. ?r = Inl (BinanceExn x) \<and> is_rejected x \<and> json_eq_int (b_code x) ORDER_DOES_NOT_EXIST_CODE)"
    unfolding get_order_fst by (cases ?r) (auto split: exn.split sum.split)
  also have "\<dots> \<longleftrightarrow> says_no_such_order (query_outcome e c sy cid w)"
    unfolding query_outcome_def do_request_signed fst_conv
    by (cases "outcome_at e (signed_request e c GET ''/api/v3/order'' (query_params sy cid) w) w")
       (simp_all only: http_outcome.case handle_response_missing,
        simp_all add: says_no_such_order_def)
  finally show ?thesis .
qed

lemma get_order_found:
  assumes "fst (get_order e c sy cid w) = Inr (Some r)"
  shows "fate_of (query_outcome e c sy cid w) = Confirmed"
proof -
  let ?q = "do_request e c GET ''/api/v3/order'' (query_params sy cid) True w"
  obtain p where "fst ?q = Inr p"
    using assms unfolding get_order_fst by (cases "fst ?q") (auto split: exn.splits if_splits)
  then have "?q = (Inr p, snd ?q)" by (metis prod.collapse)
  from do_request_fate [OF this] show ?thesis by (simp add: query_outcome_def)
qed

text \<open>The dict a readable answer below 400 is turned into: anything but an object is wrapped.\<close>

definition payload_of :: "json \<Rightarrow> (string \<times> json) list" where
  "payload_of j = (case j of JObj kvs \<Rightarrow> kvs | _ \<Rightarrow> [(''result'', j)])"

lemma handle_response_payload:
  "handle_response r = Inr p \<longleftrightarrow> rs_status r < 400 \<and> (\<exists>j. rs_body r = Some j \<and> p = payload_of j)"
  by (auto simp: handle_response_def Let_def payload_of_def split: option.split json.split)

lemma get_order_sends:
  assumes "get_order e c sy cid w = (r, w')"
  shows "w_db w' = w_db w \<and>
    requests w' = requests w @ [signed_request e c GET ''/api/v3/order'' (query_params sy cid) w]"
proof -
  obtain q where "do_request e c GET ''/api/v3/order'' (query_params sy cid) True w = (q, w')"
    using assms unfolding get_order_def query_params_def
    by (auto split: sum.splits exn.splits prod.splits if_splits)
  then show ?thesis unfolding do_request_signed by auto
qed

lemma query_answer:
  "fst (do_request e c GET ''/api/v3/order'' (query_params sy cid) True w) = Inr p \<longleftrightarrow>
     (\<exists>a j. query_outcome e c sy cid w = Answered a \<and> rs_status a < 400 \<and> rs_body a = Some j \<and> p = payload_of j)"
  unfolding query_outcome_def do_request_signed fst_conv
  by (cases "outcome_at e (signed_request e c GET ''/api/v3/order'' (query_params sy cid) w) w")
     (auto simp: handle_response_payload)

lemma get_order_some:
  "fst (get_order e c sy cid w) = Inr (Some res) \<longleftrightarrow>
     (\<exists>a j. query_outcome e c sy cid w = Answered a \<and> rs_status a < 400 \<and> rs_body a = Some j \<and>
        from_payload (payload_of j) = Inr res)"
proof -
  have "fst (get_order e c sy cid w) = Inr (Some res) \<longleftrightarrow>
      (\<exists>p. fst (do_request e c GET ''/api/v3/order'' (query_params sy cid) True w) = Inr p \<and> from_payload p = Inr res)"
    unfolding get_order_fst by (auto split: sum.split exn.split)
  then show ?thesis unfolding query_answer by blast
qed

lemma from_payload_raises: "from_payload p = Inl y \<Longrightarrow> \<exists>n. y = PyExn n"
  by (auto simp: from_payload_def Let_def split: option.splits json.splits)

lemma get_order_raises:
  "case fst (get_order e c sy cid w) of
     Inr _ \<Rightarrow> True
   | Inl (BinanceExn x) \<Rightarrow> error_fate x = fate_of (query_outcome e c sy cid w)
   | Inl y \<Rightarrow> \<exists>a j. query_outcome e c sy cid w = Answered a \<and> rs_status a < 400 \<and> rs_body a = Some j \<and>
       from_payload (payload_of j) = Inl y"
proof (cases "fst (do_request e c GET ''/api/v3/order'' (query_params sy cid) True w)")
  case (Inl y)
  then have "do_request e c GET ''/api/v3/order'' (query_params sy cid) True w =
      (Inl y, snd (do_request e c GET ''/api/v3/order'' (query_params sy cid) True w))" by (metis prod.collapse)
  from do_request_fate [OF this] Inl show ?thesis unfolding get_order_fst query_outcome_def by auto
next
  case (Inr p)
  then obtain a j where a: "query_outcome e c sy cid w = Answered a" "rs_status a < 400" "rs_body a = Some j"
      "p = payload_of j" unfolding query_answer by blast
  show ?thesis
  proof (cases "from_payload p")
    case (Inl y)
    moreover obtain n where "y = PyExn n" using from_payload_raises [OF Inl] by blast
    ultimately show ?thesis using Inr a unfolding get_order_fst by auto
  next
    case Inr': (Inr res)
    then show ?thesis using Inr unfolding get_order_fst by simp
  qed
qed

section \<open>Placing\<close>

definition place_request :: "env \<Rightarrow> client \<Rightarrow> string \<Rightarrow> string \<Rightarrow> string \<Rightarrow> string \<Rightarrow> world \<Rightarrow> http_request" where
  "place_request e c sy sd text cid w = signed_request e c POST (order_path c) (order_params sy sd text cid) w"

lemma place_sends:
  assumes "format_decimal qty = Inr q" "assert_testnet e (c_base_url c) = Inr u"
  shows "place_market_order e c sy sd qty cid w =
    (case do_request e c POST (order_path c) (order_params sy sd q cid) True w of
       (Inl x, w') \<Rightarrow> (Inl x, w')
     | (Inr p, w') \<Rightarrow>
         if c_dry_run c then
           (Inr \<lparr>r_order_id = None, r_client_order_id = cid, r_symbol = sy, r_side = sd,
              r_status = ''DRY_RUN_VALIDATED'', r_executed_quantity = dec_zero,
              r_cumulative_quote_quantity = dec_zero, r_raw = p\<rparr>, w')
         else (from_payload p, w'))"
  using assms by (simp add: place_market_order_def)

lemma place_fate:
  assumes "place_market_order e c sy sd qty cid w = (r, w')" "format_decimal qty = Inr q"
    "client_host e (c_base_url c) \<in> ALLOWED_BINANCE_HOSTS"
  shows "case r of
      Inl (BinanceExn x) \<Rightarrow> error_fate x = fate_of (outcome_at e (place_request e c sy sd q cid w) w)
    | _ \<Rightarrow> fate_of (outcome_at e (place_request e c sy sd q cid w) w) = Confirmed"
proof -
  let ?d = "do_request e c POST (order_path c) (order_params sy sd q cid) True w"
  have "assert_testnet e (c_base_url c) = Inr ()" using assms(3) by (simp add: assert_testnet_def)
  note p = place_sends [OF assms(2) this, of sy sd cid w]
  have f: "case fst ?d of
      Inl y \<Rightarrow> \<exists>x. y = BinanceExn x \<and> error_fate x = fate_of (outcome_at e (place_request e c sy sd q cid w) w)
    | Inr _ \<Rightarrow> fate_of (outcome_at e (place_request e c sy sd q cid w) w) = Confirmed"
    unfolding place_request_def by (rule do_request_fate [of e c POST "order_path c" _ w _ "snd ?d"]) simp
  show ?thesis
  proof (cases "fst ?d")
    case (Inl y)
    then obtain x where "y = BinanceExn x"
        "error_fate x = fate_of (outcome_at e (place_request e c sy sd q cid w) w)" using f by auto
    moreover have "r = Inl y" using p assms(1) Inl by (cases ?d) simp
    ultimately show ?thesis by simp
  next
    case (Inr pl)
    then have conf: "fate_of (outcome_at e (place_request e c sy sd q cid w) w) = Confirmed"
      using f by simp
    have "r = (if c_dry_run c then Inr \<lparr>r_order_id = None, r_client_order_id = cid, r_symbol = sy, r_side = sd,
              r_status = ''DRY_RUN_VALIDATED'', r_executed_quantity = dec_zero,
              r_cumulative_quote_quantity = dec_zero, r_raw = pl\<rparr> else from_payload pl)"
      using p assms(1) Inr by (cases ?d) (simp split: if_splits)
    moreover have "from_payload pl \<noteq> Inl (BinanceExn x)" for x
      by (simp add: from_payload_def Let_def split: option.split json.split)
    ultimately have "r \<noteq> Inl (BinanceExn x)" for x by simp
    with conf show ?thesis by (simp split: sum.split exn.split)
  qed
qed

end
