(* ===== verification/Schemas.thy ===== *)
theory Schemas
  imports Models
begin

text \<open>
  \<open>app/schemas/webhook.py\<close> and \<open>app/schemas/trade.py\<close>: the validators of the webhook payload and the
  response shape of a trade. The raw payload holds what Pydantic's type coercion hands to the field
  constraints and validators; \<open>Inl\<close> lists the fields that fail, which becomes the 422.

  The lemmas show what an accepted payload guarantees downstream: identifiers in their alphabets and
  a quantity that the database stores exactly and the exchange receives unchanged.
\<close>

section \<open>The webhook payload\<close>

record raw_payload =
  rp_signal_id :: string
  rp_symbol :: string
  rp_action :: string
  rp_quantity :: decimal
  rp_secret :: "string option"

record payload =
  p_signal_id :: string
  p_symbol :: string
  p_action :: order_side
  p_quantity :: decimal
  p_secret :: "string option"

definition symbol_char :: "char \<Rightarrow> bool" where
  "symbol_char c = (is_upper c \<or> is_digit c)"

definition signal_char :: "char \<Rightarrow> bool" where
  "signal_char c = (is_lower c \<or> is_upper c \<or> is_digit c \<or> c \<in> set ''_.:-'')"

definition SYMBOL_PATTERN :: "string \<Rightarrow> bool" where
  "SYMBOL_PATTERN s = (5 \<le> length s \<and> length s \<le> 20 \<and> list_all symbol_char s)"

definition SIGNAL_ID_PATTERN :: "string \<Rightarrow> bool" where
  "SIGNAL_ID_PATTERN s = (1 \<le> length s \<and> length s \<le> 64 \<and> list_all signal_char s)"

definition validate_signal_id :: "string \<Rightarrow> string option" where
  "validate_signal_id v =
     (if 1 \<le> length v \<and> length v \<le> 64 then
        (let v' = py_strip v in if SIGNAL_ID_PATTERN v' then Some v' else None)
      else None)"

definition validate_symbol :: "string \<Rightarrow> string option" where
  "validate_symbol v = (let v' = py_upper (py_strip v) in if SYMBOL_PATTERN v' then Some v' else None)"

definition normalise_action :: "string \<Rightarrow> order_side option" where
  "normalise_action v =
     (let v' = py_upper (py_strip v)
      in if v' = side_value BUY then Some BUY else if v' = side_value SELL then Some SELL else None)"

definition validate_quantity :: "decimal \<Rightarrow> decimal option" where
  "validate_quantity d =
     (if dec_less (Fin False 0 0) d \<and> is_finite d \<and> - dec_exponent d \<le> 12 then Some d else None)"

definition failed_field :: "string \<Rightarrow> 'a option \<Rightarrow> string list" where
  "failed_field n x = (case x of None \<Rightarrow> [n] | Some _ \<Rightarrow> [])"

definition validate_payload :: "raw_payload \<Rightarrow> (string list, payload) result" where
  "validate_payload r =
     (case (validate_signal_id (rp_signal_id r), validate_symbol (rp_symbol r),
            normalise_action (rp_action r), validate_quantity (rp_quantity r)) of
        (Some i, Some y, Some a, Some q) \<Rightarrow>
          Inr \<lparr>p_signal_id = i, p_symbol = y, p_action = a, p_quantity = q, p_secret = rp_secret r\<rparr>
      | (i, y, a, q) \<Rightarrow>
          Inl (failed_field ''signal_id'' i @ failed_field ''symbol'' y @
               failed_field ''action'' a @ failed_field ''quantity'' q))"

text \<open>What an accepted payload satisfies.\<close>

definition payload_ok :: "payload \<Rightarrow> bool" where
  "payload_ok p =
     (SIGNAL_ID_PATTERN (p_signal_id p) \<and> SYMBOL_PATTERN (p_symbol p) \<and>
      (\<exists>c e. p_quantity p = Fin False c e \<and> 0 < c \<and> - 12 \<le> e))"

lemma payload_texts: "payload_ok p \<Longrightarrow> nul_free (p_signal_id p) \<and> nul_free (p_symbol p)"
proof -
  have "\<not> signal_char (CHR 0x00)" "\<not> symbol_char (CHR 0x00)"
    by (simp_all add: signal_char_def symbol_char_def is_lower_def is_upper_def is_digit_def)
  then show "payload_ok p \<Longrightarrow> ?thesis"
    by (auto simp: payload_ok_def SIGNAL_ID_PATTERN_def SYMBOL_PATTERN_def list_all_iff nul_free_def)
qed

section \<open>A trade in a response\<close>

record trade_read =
  tr_id :: int
  tr_signal_id :: string
  tr_client_order_id :: string
  tr_symbol :: string
  tr_side :: order_side
  tr_order_type :: string
  tr_quantity :: string
  tr_status :: trade_status
  tr_binance_order_id :: "int option"
  tr_binance_status :: "string option"
  tr_executed_quantity :: "string option"
  tr_cumulative_quote_quantity :: "string option"
  tr_error_code :: "string option"
  tr_error_message :: "string option"
  tr_submitted_at :: "int option"
  tr_reconciled_at :: "int option"
  tr_created_at :: int
  tr_updated_at :: int

definition serialise_decimal :: "decimal option \<Rightarrow> (number_error, string option) result" where
  "serialise_decimal v =
     (case v of None \<Rightarrow> Inr None
      | Some d \<Rightarrow> (case format_decimal d of Inl x \<Rightarrow> Inl x | Inr s \<Rightarrow> Inr (Some s)))"

definition trade_read_of :: "trade \<Rightarrow> (number_error, trade_read) result" where
  "trade_read_of t =
     (case format_decimal (quantity t) of
        Inl x \<Rightarrow> Inl x
      | Inr q \<Rightarrow>
          (case serialise_decimal (executed_quantity t) of
             Inl x \<Rightarrow> Inl x
           | Inr ex \<Rightarrow>
               (case serialise_decimal (cumulative_quote_quantity t) of
                  Inl x \<Rightarrow> Inl x
                | Inr cq \<Rightarrow>
                    Inr \<lparr>tr_id = t_id t, tr_signal_id = signal_id t, tr_client_order_id = client_order_id t,
                       tr_symbol = symbol t, tr_side = side t, tr_order_type = order_type t, tr_quantity = q,
                       tr_status = status t, tr_binance_order_id = binance_order_id t,
                       tr_binance_status = binance_status t, tr_executed_quantity = ex,
                       tr_cumulative_quote_quantity = cq, tr_error_code = error_code t,
                       tr_error_message = error_message t, tr_submitted_at = submitted_at t,
                       tr_reconciled_at = reconciled_at t, tr_created_at = created_at t,
                       tr_updated_at = updated_at t\<rparr>)))"

section \<open>Lemmas\<close>

lemma validate_quantity_ok:
  assumes "validate_quantity d = Some q"
  obtains c e where "d = q" "q = Fin False c e" "0 < c" "- 12 \<le> e"
proof -
  have d: "dec_less (Fin False 0 0) d" "is_finite d" "- dec_exponent d \<le> 12" "q = d"
    using assms by (simp_all add: validate_quantity_def split: if_splits)
  then obtain s c e where f: "d = Fin s c e" by (cases d) auto
  have "0 < dec_value (Fin s c e)" using d(1) dec_less_exact [of False 0 0 s c e] unfolding f by (simp add: signed_def)
  then have "0 < (of_int (signed s c) :: rat)"
    using zero_less_mult_pos2 [of "of_int (signed s c)" "10 powi e :: rat"] by simp
  then have "\<not> s \<and> 0 < c" by (simp add: signed_def split: if_splits)
  then show thesis using that d(3,4) f by simp
qed

lemma validate_payload_ok:
  assumes "validate_payload r = Inr p"
  shows "payload_ok p"
proof -
  have "validate_signal_id (rp_signal_id r) = Some (p_signal_id p)"
    "validate_symbol (rp_symbol r) = Some (p_symbol p)"
    "validate_quantity (rp_quantity r) = Some (p_quantity p)"
    using assms unfolding validate_payload_def by (auto split: option.splits)
  then show ?thesis
    unfolding payload_ok_def
    by (auto simp: validate_signal_id_def validate_symbol_def Let_def split: if_splits
        elim!: validate_quantity_ok)
qed

text \<open>A stored quantity has the value, and the text, of the one that was sent.\<close>

lemma stored_quantity:
  assumes "numeric_28_12 (Fin False c e) = Some d" "0 < c" "- 12 \<le> e" "c < 10 ^ 28"
    "e \<le> e_top"
  shows "format_decimal d = format_decimal (Fin False c e) \<and> dec_value d = dec_value (Fin False c e)"
proof -
  obtain q where d: "d = Fin False q (- 12)" "fits28 d"
    using assms(1) numeric_28_12_fits [OF assms(1)]
    unfolding numeric_28_12.simps Let_def by (auto split: if_splits)
  have v: "dec_value d = dec_value (Fin False c e)" by (rule numeric_28_12_exact [OF assms(1,3)])
  have "fits28 (Fin False c e)"
    using assms(4) by (rule fits28_bound) (use assms(3,5) in \<open>simp_all add: e_tiny_def\<close>)
  then show ?thesis using same_value_same_text d v by metis
qed

end
