(* ===== verification/Job_Queue.thy ===== *)
theory Job_Queue
  imports Prelude
begin

text \<open>
  The bounded queue of \<open>app/services/execution_queue.py\<close> (an \<open>asyncio.Queue\<close> of trade ids, each with the
  id of the request that created it) and the two operations the producers and workers use on it.

  The interface \<open>bounded_fifo\<close> is a queue that never holds more than its bound and gives out what it
  accepted, in order; it is interpreted on the model.
\<close>

record job_queue =
  items :: "(int \<times> string) list"
  maxsize :: int
  unfinished :: nat

definition new_queue :: "int \<Rightarrow> job_queue" where
  "new_queue n = \<lparr>items = [], maxsize = n, unfinished = 0\<rparr>"

text \<open>\<open>Queue.full\<close>: a size of zero or less means unbounded.\<close>

definition queue_full :: "job_queue \<Rightarrow> bool" where
  "queue_full q = (0 < maxsize q \<and> maxsize q \<le> int (length (items q)))"

text \<open>\<open>put_nowait\<close> raises QueueFull (None); \<open>get\<close> waits on an empty queue (None).\<close>

definition put_nowait :: "int \<times> string \<Rightarrow> job_queue \<Rightarrow> job_queue option" where
  "put_nowait x q =
     (if queue_full q then None else Some (q\<lparr>items := items q @ [x], unfinished := unfinished q + 1\<rparr>))"

definition queue_get :: "job_queue \<Rightarrow> ((int \<times> string) \<times> job_queue) option" where
  "queue_get q = (case items q of [] \<Rightarrow> None | x # xs \<Rightarrow> Some (x, q\<lparr>items := xs\<rparr>))"

text \<open>\<open>task_done\<close> raises ValueError (None) when called more often than items were put.\<close>

definition task_done :: "job_queue \<Rightarrow> job_queue option" where
  "task_done q = (if unfinished q = 0 then None else Some (q\<lparr>unfinished := unfinished q - 1\<rparr>))"

text \<open>\<open>TradeExecutor.submit\<close>: never waits; False when the queue is full.\<close>

definition submit :: "int \<Rightarrow> string \<Rightarrow> job_queue \<Rightarrow> bool \<times> job_queue" where
  "submit tid request_id q =
     (case put_nowait (tid, request_id) q of None \<Rightarrow> (False, q) | Some q' \<Rightarrow> (True, q'))"

fun submit_all :: "int list \<Rightarrow> string \<Rightarrow> job_queue \<Rightarrow> job_queue" where
  "submit_all [] rid q = q"
| "submit_all (t # ts) rid q = submit_all ts rid (snd (submit t rid q))"

section \<open>The interface\<close>

locale bounded_fifo =
  fixes contents :: "'q \<Rightarrow> 'a list"
    and bound :: "'q \<Rightarrow> nat option"
    and put :: "'a \<Rightarrow> 'q \<Rightarrow> 'q option"
    and get :: "'q \<Rightarrow> ('a \<times> 'q) option"
  assumes put_accepts: "put x q = Some q' \<Longrightarrow> contents q' = contents q @ [x] \<and> bound q' = bound q"
    and put_refuses: "put x q = None \<longleftrightarrow> (\<exists>n. bound q = Some n \<and> n \<le> length (contents q))"
    and get_first: "get q = Some (x, q') \<Longrightarrow> contents q = x # contents q' \<and> bound q' = bound q"
    and get_empty: "get q = None \<longleftrightarrow> contents q = []"
begin

definition within :: "'q \<Rightarrow> bool" where
  "within q = (\<forall>n. bound q = Some n \<longrightarrow> length (contents q) \<le> n)"

lemma put_within: "within q \<Longrightarrow> put x q = Some q' \<Longrightarrow> within q'"
  using put_accepts [of x q q'] put_refuses [of x q]
  by (metis length_append_singleton not_less_eq_eq option.distinct(1) within_def)

lemma get_within: "within q \<Longrightarrow> get q = Some (x, q') \<Longrightarrow> within q'"
  using get_first [of q x q'] by (auto simp: within_def)

text \<open>Draining gives the contents in order.\<close>

fun drain :: "nat \<Rightarrow> 'q \<Rightarrow> 'a list" where
  "drain 0 q = []"
| "drain (Suc n) q = (case get q of None \<Rightarrow> [] | Some (x, q') \<Rightarrow> x # drain n q')"

lemma drain_contents: "length (contents q) \<le> n \<Longrightarrow> drain n q = contents q"
proof (induction n arbitrary: q)
  case 0
  then show ?case by simp
next
  case (Suc n)
  show ?case
  proof (cases "get q")
    case None
    then have "contents q = []" using get_empty by blast
    with None show ?thesis by simp
  next
    case (Some p)
    then obtain x q' where p: "get q = Some (x, q')" by (cases p) auto
    then have "contents q = x # contents q'" using get_first by blast
    with Suc p show ?thesis by simp
  qed
qed

end

definition queue_bound :: "job_queue \<Rightarrow> nat option" where
  "queue_bound q = (if 0 < maxsize q then Some (nat (maxsize q)) else None)"

interpretation jobs: bounded_fifo items queue_bound put_nowait queue_get
  by unfold_locales
     (auto simp: put_nowait_def queue_get_def queue_full_def queue_bound_def split: list.splits if_splits)

text \<open>Jobs counted as unfinished are at least those still queued.\<close>

definition queue_ok :: "job_queue \<Rightarrow> bool" where
  "queue_ok q = (jobs.within q \<and> length (items q) \<le> unfinished q)"

lemma new_queue_ok: "queue_ok (new_queue n)"
  by (simp add: queue_ok_def jobs.within_def new_queue_def)

lemma put_nowait_ok: "queue_ok q \<Longrightarrow> put_nowait x q = Some q' \<Longrightarrow> queue_ok q'"
  using jobs.put_within by (auto simp: queue_ok_def put_nowait_def split: if_splits)

lemma submit_ok: "queue_ok q \<Longrightarrow> submit t rid q = (b, q') \<Longrightarrow> queue_ok q'"
  using put_nowait_ok by (auto simp: submit_def split: option.splits)

lemma queue_get_ok: "queue_ok q \<Longrightarrow> queue_get q = Some (x, q') \<Longrightarrow> queue_ok q'"
  using jobs.get_within by (auto simp: queue_ok_def queue_get_def split: list.splits)

lemma submit_all_ok: "queue_ok q \<Longrightarrow> queue_ok (submit_all ts rid q)"
  by (induction ts arbitrary: q) (auto simp: submit_ok split: prod.splits intro: submit_ok prod.collapse [symmetric])

text \<open>Submitting a list of ids queues as many of them as there is room for, in order.\<close>

lemma submit_items:
  "items (snd (submit t rid q)) = (if queue_full q then items q else items q @ [(t, rid)])"
  "maxsize (snd (submit t rid q)) = maxsize q"
  by (simp_all add: submit_def put_nowait_def)

lemma submit_all_items:
  "0 < maxsize q \<Longrightarrow> items (submit_all ts rid q) =
     items q @ map (\<lambda>t. (t, rid)) (take (nat (maxsize q) - length (items q)) ts)"
proof (induction ts arbitrary: q)
  case Nil
  then show ?case by simp
next
  case (Cons t ts)
  let ?q = "snd (submit t rid q)"
  have "items (submit_all ts rid ?q) =
      items ?q @ map (\<lambda>t. (t, rid)) (take (nat (maxsize q) - length (items ?q)) ts)"
    using Cons by (simp add: submit_items)
  then show ?case using Cons.prems
    by (cases "queue_full q") (auto simp: submit_items queue_full_def take_Cons' Suc_diff_Suc)
qed

end
