(* ===== verification/Fixtures.thy ===== *)
theory Fixtures
  imports Fates Schemas Job_Queue
begin

text \<open>
  Concrete inputs for the witnesses, after \<open>tests/conftest.py\<close>: its settings, its webhook owner, one
  signal and the trade it creates, and environments in which every COMMIT goes through, the clock
  counts microseconds and the exchange gives one answer to everything.
\<close>

definition test_settings :: settings where
  "test_settings =
     \<lparr>APP_NAME = ''Crypto Auto-Trading Backend'', ENVIRONMENT = ''test'', LOG_LEVEL = ''WARNING'',
      DATABASE_URL = ''sqlite+aiosqlite:///test.db'', DB_POOL_SIZE = 5, DB_MAX_OVERFLOW = 10,
      DB_POOL_TIMEOUT_SECONDS = 30, DB_ECHO = False,
      JWT_SECRET = ''test-jwt-secret-that-is-definitely-long-enough-123456'', JWT_ALGORITHM = ''HS256'',
      ACCESS_TOKEN_EXPIRE_MINUTES = 60, WEBHOOK_SECRET = ''test-webhook-secret-value'',
      WEBHOOK_TRADE_OWNER_EMAIL = ''webhook-owner@example.com'',
      BINANCE_API_KEY = ''test-api-key'', BINANCE_SECRET_KEY = ''test-secret-key'',
      BINANCE_BASE_URL = ''https://testnet.binance.vision'', BINANCE_TIMEOUT_SECONDS = Fin False 100 (- 1),
      BINANCE_RECV_WINDOW_MS = 5000, BINANCE_DRY_RUN = False, WEBHOOK_ASYNC_EXECUTION = False,
      EXECUTOR_WORKERS = 8, EXECUTOR_QUEUE_SIZE = 1000, ALLOWED_SYMBOLS = ''BTCUSDT,ETHUSDT'',
      MIN_ORDER_QUANTITY = Fin False 1 (- 5), MAX_ORDER_QUANTITY = Fin False 10 (- 1)\<rparr>"

definition test_env :: "http_outcome \<Rightarrow> env" where
  "test_env out =
     \<lparr>url_host = (\<lambda>u. case urlsplit u of Inl _ \<Rightarrow> [] | Inr p \<Rightarrow> url_hostname p),
      exchange = (\<lambda>_ _. out), commit_ok = (\<lambda>_. True), commit_landed = (\<lambda>_. False),
      after_failure = (\<lambda>_. Unreadable), clock = int\<rparr>"

definition test_client :: client where
  "test_client =
     \<lparr>c_api_key = ''test-api-key'', c_secret_key = ''test-secret-key'',
      c_base_url = ''https://testnet.binance.vision'', c_timeout = Fin False 100 (- 1),
      c_recv_window = 5000, c_dry_run = False\<rparr>"

definition test_owner :: user where
  "test_owner =
     \<lparr>u_id = 1, email = ''webhook-owner@example.com'', password_hash = ''hash'', is_active = True,
      u_created_at = 0, u_updated_at = 0\<rparr>"

definition test_db :: db where
  "test_db = \<lparr>users = [test_owner], trades = [], user_seq = 2, trade_seq = 1\<rparr>"

definition test_world :: world where
  "test_world = \<lparr>w_db = test_db, requests = [], tick = 0, owner_cache = None\<rparr>"

definition test_payload :: payload where
  "test_payload =
     \<lparr>p_signal_id = ''sig-1'', p_symbol = ''BTCUSDT'', p_action = BUY,
      p_quantity = Fin False 1 (- 3), p_secret = None\<rparr>"

definition test_trade :: trade where
  "test_trade =
     \<lparr>t_id = 1, user_id = 1, signal_id = ''sig-1'', client_order_id = ''cat-1'', symbol = ''BTCUSDT'',
      side = BUY, order_type = ''MARKET'', quantity = Fin False 1000000000 (- 12), status = PENDING,
      binance_order_id = None, binance_status = None, executed_quantity = None,
      cumulative_quote_quantity = None, error_code = None, error_message = None, submitted_at = None,
      reconciled_at = None, created_at = 0, updated_at = 0\<rparr>"

definition trade_db :: db where
  "trade_db = \<lparr>users = [test_owner], trades = [test_trade], user_seq = 2, trade_seq = 2\<rparr>"

definition trade_world :: world where
  "trade_world = \<lparr>w_db = trade_db, requests = [], tick = 0, owner_cache = Some 1\<rparr>"

text \<open>Answers of the exchange.\<close>

definition filled_answer :: http_outcome where
  "filled_answer = Answered \<lparr>rs_status = 200, rs_retry_after = None,
     rs_body = Some (JObj [(''orderId'', JInt 7), (''clientOrderId'', JStr ''cat-1''),
       (''symbol'', JStr ''BTCUSDT''), (''side'', JStr ''BUY''), (''status'', JStr ''FILLED''),
       (''executedQty'', JStr ''0.001''), (''cummulativeQuoteQty'', JStr ''45'')])\<rparr>"

definition missing_answer :: http_outcome where
  "missing_answer = Answered \<lparr>rs_status = 400, rs_retry_after = None,
     rs_body = Some (JObj [(''code'', JInt (- 2013)), (''msg'', JStr ''Order does not exist.'')])\<rparr>"

definition filled_payload :: "(string \<times> json) list" where
  "filled_payload =
     [(''orderId'', JInt 7), (''clientOrderId'', JStr ''cat-1''),
      (''symbol'', JStr ''BTCUSDT''), (''side'', JStr ''BUY''), (''status'', JStr ''FILLED''),
      (''executedQty'', JStr ''0.001''), (''cummulativeQuoteQty'', JStr ''45'')]"

definition filled_result :: order_result where
  "filled_result =
     \<lparr>r_order_id = Some 7, r_client_order_id = ''cat-1'', r_symbol = ''BTCUSDT'', r_side = ''BUY'',
      r_status = ''FILLED'', r_executed_quantity = Fin False 1 (- 3), r_cumulative_quote_quantity = Fin False 45 0,
      r_raw = filled_payload\<rparr>"

lemma from_filled: "from_payload filled_payload = Inr filled_result"
proof -
  have "decimal_of_str ''0.001'' = Some (Fin False 1 (- 3))" "decimal_of_str ''45'' = Some (Fin False 45 0)"
    by code_simp+
  then show ?thesis
    by (simp add: from_payload_def filled_payload_def filled_result_def json_get_def payload_str_def payload_decimal_def)
qed

lemma test_db_ok: "db_ok test_db"
  by (simp add: db_ok_def test_db_def trades_ok_def users_ok_def test_owner_def)

lemma trade_db_ok: "db_ok trade_db"
  by (simp add: db_ok_def trade_db_def trades_ok_def users_ok_def test_owner_def test_trade_def)

lemma select_test_trade: "select_trade 1 trade_db = Some test_trade"
  by (simp add: select_trade_def trade_db_def test_trade_def)

lemma test_client_host: "client_host (test_env out) (c_base_url test_client) \<in> ALLOWED_BINANCE_HOSTS"
proof -
  have "urlsplit ''https://testnet.binance.vision'' =
      Inr \<lparr>scheme = ''https'', netloc = ''testnet.binance.vision'', url_path = [], url_query = [], url_fragment = []\<rparr>"
    by code_simp
  moreover have "py_lower (url_hostname \<lparr>scheme = ''https'', netloc = ''testnet.binance.vision'',
      url_path = [], url_query = [], url_fragment = []\<rparr>) = ''testnet.binance.vision''"
    by code_simp
  ultimately show ?thesis
    by (simp add: client_host_def test_env_def test_client_def ALLOWED_BINANCE_HOSTS_def)
qed

lemma test_env_simps [simp]:
  "exchange (test_env out) n r = out" "commit_ok (test_env out) n" "clock (test_env out) n = int n"
  by (simp_all add: test_env_def)

theorem claim_at_most_once_witness:
  "fst (update_claim 1 5 trade_db) = 1 \<and> fst (update_claim 1 6 (snd (update_claim 1 5 trade_db))) = 0"
proof -
  let ?d = "snd (update_claim 1 5 trade_db)"
  have one: "fst (update_claim 1 5 trade_db) = 1"
    by (simp add: update_claim_def claimable_def trade_db_def test_trade_def)
  have first: "update_claim 1 5 trade_db = (1, ?d)" using one by (metis prod.collapse)
  have again: "update_claim 1 6 ?d = (fst (update_claim 1 6 ?d), snd (update_claim 1 6 ?d))" by simp
  show ?thesis
    using claim_at_most_once [OF trade_db_ok first one_neq_zero rtranclp.rtrancl_refl again] one by blast
qed

end
