(* ===== verification/Reconcile.thy ===== *)
theory Reconcile
  imports Fixtures
begin

text \<open>
  \<open>app/services/reconciliation_service.py\<close>, and the status map it shares with the trading service. A
  trade object is passed as it was loaded; what a commit writes is the difference to it
  (\<open>flush_trade\<close>). \<open>reconcile_trade\<close> returns the object after the attempt (the source returns its
  status). Reads are modelled as succeeding: a failing read raises before anything is changed.
\<close>

definition BINANCE_STATUS_MAP :: "(string \<times> trade_status) list" where
  "BINANCE_STATUS_MAP =
     [(''NEW'', NEW), (''PARTIALLY_FILLED'', PARTIALLY_FILLED), (''FILLED'', FILLED),
      (''CANCELED'', CANCELLED), (''PENDING_CANCEL'', CANCELLED), (''REJECTED'', REJECTED),
      (''EXPIRED'', EXPIRED), (''EXPIRED_IN_MATCH'', EXPIRED), (''DRY_RUN_VALIDATED'', FILLED)]"

definition mapped_status :: "string \<Rightarrow> trade_status" where
  "mapped_status s = (case map_of BINANCE_STATUS_MAP s of None \<Rightarrow> NEW | Some st \<Rightarrow> st)"

definition not_found_message :: string where
  "not_found_message =
     ''Binance has no order with this client order id; the submission never reached the exchange.''"

text \<open>The attributes set before the commit.\<close>

definition reconciled_object :: "order_result option \<Rightarrow> int \<Rightarrow> trade \<Rightarrow> trade" where
  "reconciled_object answer now t =
     (case answer of
        None \<Rightarrow> t\<lparr>status := FAILED, error_code := Some ''order_not_found'',
                  error_message := Some not_found_message, reconciled_at := Some now\<rparr>
      | Some r \<Rightarrow>
          (let st = mapped_status (r_status r);
               t1 = t\<lparr>binance_order_id := r_order_id r, binance_status := Some (r_status r),
                      executed_quantity := Some (r_executed_quantity r),
                      cumulative_quote_quantity := Some (r_cumulative_quote_quantity r), status := st\<rparr>;
               t2 = (if st \<notin> {REJECTED, FAILED} then t1\<lparr>error_code := None, error_message := None\<rparr> else t1)
           in t2\<lparr>reconciled_at := Some now\<rparr>))"

text \<open>\<open>await db.commit()\<close> with one changed object; \<open>onupdate\<close> reads the clock.\<close>

definition commit_object :: "env \<Rightarrow> trade \<Rightarrow> trade \<Rightarrow> world \<Rightarrow> (sql_error, trade) result \<times> world" where
  "commit_object e old new w =
     (let (now, w1) = utc_now e w in db_commit e (flush_trade now old new) w1)"

definition reconcile_trade :: "env \<Rightarrow> binance_api \<Rightarrow> trade \<Rightarrow> world \<Rightarrow> (exn, trade) result \<times> world" where
  "reconcile_trade e api t w =
     (if is_terminal t then (Inr t, w)
      else case api_query api (symbol t) (client_order_id t) w of
             (Inl (BinanceExn x), w1) \<Rightarrow> (Inr t, w1)
           | (Inl x, w1) \<Rightarrow> (Inl x, w1)
           | (Inr answer, w1) \<Rightarrow>
               (let (now, w2) = utc_now e w1
                in case commit_object e t (reconciled_object answer now t) w2 of
                     (Inl x, w3) \<Rightarrow> (Inl (SqlExn x), w3)
                   | (Inr t', w3) \<Rightarrow> (Inr t', w3)))"

definition find_reconcilable_trades :: "env \<Rightarrow> int \<Rightarrow> nat \<Rightarrow> world \<Rightarrow> trade list \<times> world" where
  "find_reconcilable_trades e older_than_seconds limit w =
     (let (now, w1) = utc_now e w; cutoff = now - older_than_seconds * 1000000
      in (take limit (sort_key created_at
            (filter (\<lambda>t. status t \<in> RECONCILABLE_STATUSES \<and> created_at t < cutoff) (trades (w_db w1)))), w1))"

record summary =
  checked :: nat
  changed :: nat
  unchanged :: nat

definition count_outcome :: "trade \<Rightarrow> trade \<Rightarrow> summary \<Rightarrow> summary" where
  "count_outcome before after s =
     (let s1 = s\<lparr>checked := checked s + 1\<rparr>
      in if status after \<noteq> status before then s1\<lparr>changed := changed s1 + 1\<rparr>
         else s1\<lparr>unchanged := unchanged s1 + 1\<rparr>)"

text \<open>The loop over the loaded trades; an exception ends the run.\<close>

fun reconcile_loop ::
  "env \<Rightarrow> binance_api \<Rightarrow> trade list \<Rightarrow> summary \<Rightarrow> world \<Rightarrow> (exn, summary) result \<times> world" where
  "reconcile_loop e api [] s w = (Inr s, w)"
| "reconcile_loop e api (t # ts) s w =
     (case reconcile_trade e api t w of
        (Inl x, w1) \<Rightarrow> (Inl x, w1)
      | (Inr t', w1) \<Rightarrow> reconcile_loop e api ts (count_outcome t t' s) w1)"

definition reconcile_pending_trades ::
  "env \<Rightarrow> binance_api \<Rightarrow> int \<Rightarrow> nat \<Rightarrow> world \<Rightarrow> (exn, summary) result \<times> world" where
  "reconcile_pending_trades e api older_than_seconds limit w =
     (let (ts, w1) = find_reconcilable_trades e older_than_seconds limit w
      in reconcile_loop e api ts \<lparr>checked = 0, changed = 0, unchanged = 0\<rparr> w1)"

section \<open>A commit of one object\<close>

lemma commit_object_rest:
  "commit_object e old new w = (r, w') \<Longrightarrow> requests w' = requests w \<and> owner_cache w' = owner_cache w"
  unfolding commit_object_def utc_now_def using db_commit_rest by fastforce

lemma commit_object_cases:
  assumes "commit_object e old new w = (r, w')"
  obtains (saved) v now d' where "r = Inr v" "flush_trade now old new (w_db w) = (Inr v, d')" "w_db w' = d'"
  | (failed) x where "r = Inl x" "w_db w' = w_db w"
  | (unheard) v now d' where "r = Inl OperationalError" "flush_trade now old new (w_db w) = (Inr v, d')" "w_db w' = d'"
proof -
  have "db_commit e (flush_trade (clock e (tick w)) old new) (advance w) = (r, w')"
    using assms by (simp add: commit_object_def utc_now_def)
  then show thesis
  proof (cases rule: db_commit_cases)
    case (ok v d')
    then show thesis using saved by simp
  next
    case (refused x d')
    from refused(1) have "d' = w_db w"
      by (cases rule: flush_trade_cases) auto
    then show thesis using failed refused by simp
  next
    case (lost v d')
    have "rolled_back (w_db w) d' = w_db w"
      using lost(1) by (cases rule: flush_trade_cases) (auto intro: rolled_back_same)
    then show thesis using failed lost by simp
  next
    case (unheard v d')
    then show thesis using that(3) by simp
  qed
qed

lemma commit_object_only:
  assumes "db_ok (w_db w)" "commit_object e old new w = (r, w')"
  shows "only_rows {t_id old} (w_db w) (w_db w')"
    "map identity (trades (w_db w')) = map identity (trades (w_db w))"
  using assms(2)
  by (cases rule: commit_object_cases; use flush_trade_only [OF assms(1)] flush_trade_identity [OF assms(1)] in auto)+

lemma commit_object_value:
  assumes "commit_object e old new w = (Inr v, w')"
  shows "\<exists>u. v = new\<lparr>updated_at := u\<rparr>"
  using assms
proof (cases rule: commit_object_cases)
  case (saved v' now d')
  from saved(2) have "v' = new \<or> v' = new\<lparr>updated_at := now\<rparr>"
    by (cases rule: flush_trade_cases) auto
  moreover have "new = new\<lparr>updated_at := updated_at new\<rparr>" by simp
  ultimately show ?thesis using saved(1) by (metis sum.inject(2))
qed simp_all

lemma commit_object_row:
  assumes "db_ok (w_db w)" "commit_object e old new w = (Inr v, w')" "dirty old new"
  shows "\<exists>row s u. select_trade (t_id old) (w_db w) = Some row \<and>
    store_row ((merge_row old new row)\<lparr>updated_at := u\<rparr>) = Some s \<and>
    select_trade (t_id old) (w_db w') = Some s \<and> v = new\<lparr>updated_at := u\<rparr>"
  using assms(2)
proof (cases rule: commit_object_cases)
  case (saved v' now d')
  then show ?thesis using flush_trade_row [OF assms(1) _ assms(3)] by (metis sum.inject(2))
qed simp_all

text \<open>
  A COMMIT that failed left the tables alone, or took effect and its answer was lost: then the tables are
  what they are when the answer is heard.
\<close>

definition heard :: "env \<Rightarrow> env" where
  "heard e = e\<lparr>commit_ok := \<lambda>_. True\<rparr>"

lemma commit_object_lost:
  assumes "commit_object e old new w = (Inl x, w')"
  shows "w_db w' = w_db w \<or> x = OperationalError \<and> (\<exists>v. commit_object (heard e) old new w = (Inr v, w'))"
  using assms
  by (auto simp: commit_object_def utc_now_def db_commit_def heard_def advance_def
      elim!: flush_trade_cases split: prod.splits sum.splits if_splits)

text \<open>
  \<open>loaded t row\<close>: the object and the row agree, but for the representation of decimals and the time
  of the last update. An object written over the row it agrees with agrees with what is stored.
\<close>

definition loaded :: "trade \<Rightarrow> trade \<Rightarrow> bool" where
  "loaded t row =
     (identity row = identity t \<and> status row = status t \<and> binance_order_id row = binance_order_id t \<and>
      binance_status row = binance_status t \<and> error_code row = error_code t \<and>
      error_message row = error_message t \<and> reconciled_at row = reconciled_at t)"

lemma loaded_refl [simp]: "loaded t t"
  by (simp add: loaded_def)

lemma loaded_updated [simp]: "loaded (t\<lparr>updated_at := u\<rparr>) row = loaded t row"
  by (simp add: loaded_def)

lemma store_row_loaded:
  assumes "store_row t = Some r"
  shows "loaded t r"
  using store_row_fields [OF assms] by (auto simp: loaded_def identity_def row_key_def)

lemma commit_object_fresh:
  assumes "db_ok (w_db w)" "commit_object e old new w = (Inr v, w')" "identity new = identity old"
    "select_trade (t_id old) (w_db w) = Some row" "loaded old row"
  shows "\<exists>s. select_trade (t_id old) (w_db w') = Some s \<and> loaded new s \<and> loaded v s"
proof (cases "dirty old new")
  case True
  obtain s u where s: "store_row ((merge_row old new row)\<lparr>updated_at := u\<rparr>) = Some s"
      "select_trade (t_id old) (w_db w') = Some s" "v = new\<lparr>updated_at := u\<rparr>"
    using commit_object_row [OF assms(1,2) True] assms(4) by (metis option.inject)
  have "loaded (merge_row old new row) s" using store_row_loaded [OF s(1)] by simp
  then have "loaded new s"
    using assms(3,5) by (simp add: loaded_def merge_row_def identity_def row_key_def)
  then show ?thesis using s(2,3) by simp
next
  case False
  then have "w_db w' = w_db w" "v = new"
    using assms(2) by (auto elim!: commit_object_cases flush_trade_cases)
  moreover have "loaded new row" using assms(3,5) False by (simp add: dirty_def loaded_def)
  ultimately show ?thesis using assms(4) by simp
qed

section \<open>One reconciliation\<close>

lemma reconciled_object_keeps [simp]:
  "identity (reconciled_object a now t) = identity t" "t_id (reconciled_object a now t) = t_id t"
  "symbol (reconciled_object a now t) = symbol t"
  by (simp_all add: reconciled_object_def identity_def row_key_def Let_def split: option.split)

lemma reconciled_status:
  "status (reconciled_object a now t) = (case a of None \<Rightarrow> FAILED | Some r \<Rightarrow> mapped_status (r_status r))"
  by (simp add: reconciled_object_def Let_def split: option.split)

lemma mapped_status_cases:
  "mapped_status s \<in> {NEW, PARTIALLY_FILLED, FILLED, CANCELLED, REJECTED, EXPIRED}"
  unfolding mapped_status_def BINANCE_STATUS_MAP_def by (auto split: option.split if_splits)

lemma mapped_status_known: "mapped_status s \<noteq> PENDING" "mapped_status s \<noteq> UNKNOWN" "mapped_status s \<noteq> FAILED"
  using mapped_status_cases [of s] by auto

lemma reconciled_status_known:
  "status (reconciled_object a now t) \<noteq> PENDING" "status (reconciled_object a now t) \<noteq> UNKNOWN"
  unfolding reconciled_status using mapped_status_known by (auto split: option.split)

context exchange_api
begin

lemma reconcile_trade_cases:
  assumes "reconcile_trade e api t w = (r, w')"
  obtains (settled) "is_terminal t" "r = Inr t" "w' = w"
  | (unasked) x where "\<not> is_terminal t" "api_query api (symbol t) (client_order_id t) w = (Inl x, w')"
      "r = (case x of BinanceExn _ \<Rightarrow> Inr t | _ \<Rightarrow> Inl x)"
  | (answered) a w1 now c where "\<not> is_terminal t"
      "api_query api (symbol t) (client_order_id t) w = (Inr a, w1)"
      "commit_object e t (reconciled_object a now t) (advance w1) = (c, w')"
      "r = (case c of Inl x \<Rightarrow> Inl (SqlExn x) | Inr v \<Rightarrow> Inr v)"
proof (cases "is_terminal t")
  case True
  with assms settled show thesis by (simp add: reconcile_trade_def)
next
  case nt: False
  obtain q w1 where q: "api_query api (symbol t) (client_order_id t) w = (q, w1)"
    by (cases "api_query api (symbol t) (client_order_id t) w") auto
  show thesis
  proof (cases q)
    case (Inl x)
    then show thesis using assms nt q unasked [of x] by (cases x) (auto simp: reconcile_trade_def)
  next
    case (Inr a)
    obtain c w2 where c: "commit_object e t (reconciled_object a (clock e (tick w1)) t) (advance w1) = (c, w2)"
      by (cases "commit_object e t (reconciled_object a (clock e (tick w1)) t) (advance w1)") auto
    have "w2 = w' \<and> r = (case c of Inl x \<Rightarrow> Inl (SqlExn x) | Inr v \<Rightarrow> Inr v)"
      using assms nt q Inr c by (auto simp: reconcile_trade_def utc_now_def split: sum.splits)
    then show thesis using answered nt q Inr c by blast
  qed
qed

lemma reconcile_trade_effect:
  assumes "reconcile_trade e api t w = (r, w')"
  shows "orders_for c w' = orders_for c w" "order_count w' = order_count w" "owner_cache w' = owner_cache w"
    "db_ok (w_db w) \<Longrightarrow> only_rows {t_id t} (w_db w) (w_db w')"
    "db_ok (w_db w) \<Longrightarrow> map identity (trades (w_db w')) = map identity (trades (w_db w))"
proof -
  have "orders_for c w' = orders_for c w \<and> order_count w' = order_count w \<and> owner_cache w' = owner_cache w \<and>
    (db_ok (w_db w) \<longrightarrow> only_rows {t_id t} (w_db w) (w_db w') \<and>
      map identity (trades (w_db w')) = map identity (trades (w_db w)))"
    using assms
  proof (cases rule: reconcile_trade_cases)
    case settled
    then show ?thesis by simp
  next
    case (unasked x)
    then show ?thesis using query_orders [OF unasked(2)] query_store [OF unasked(2)] by simp
  next
    case (answered a w1 now k)
    note q = query_orders [OF answered(2)] query_store [OF answered(2)]
    note k = commit_object_rest [OF answered(3)]
    have "orders_for c w' = orders_for c w \<and> order_count w' = order_count w"
      using q k by (simp add: orders_for_def order_count_def)
    moreover have "only_rows {t_id t} (w_db w) (w_db w') \<and>
        map identity (trades (w_db w')) = map identity (trades (w_db w))" if "db_ok (w_db w)"
      using commit_object_only [OF _ answered(3)] that q by simp
    ultimately show ?thesis using q k by simp
  qed
  then show "orders_for c w' = orders_for c w" "order_count w' = order_count w" "owner_cache w' = owner_cache w"
    "db_ok (w_db w) \<Longrightarrow> only_rows {t_id t} (w_db w) (w_db w')"
    "db_ok (w_db w) \<Longrightarrow> map identity (trades (w_db w')) = map identity (trades (w_db w))" by blast+
qed

lemma reconcile_trade_lost:
  assumes "reconcile_trade e api t w = (Inl x, w')"
  shows "w_db w' = w_db w \<or> x = SqlExn OperationalError \<and> (\<exists>v. reconcile_trade (heard e) api t w = (Inr v, w'))"
  using assms
proof (cases rule: reconcile_trade_cases)
  case (unasked y)
  then show ?thesis using query_store by simp
next
  case (answered a w1 now k)
  obtain y where k: "k = Inl y" "x = SqlExn y" using answered(4) by (simp split: sum.splits)
  have c: "commit_object e t (reconciled_object a (clock e (tick w1)) t) (advance w1) = (Inl y, w')"
    using assms answered(1,2) k(2) by (auto simp: reconcile_trade_def utc_now_def split: prod.splits sum.splits)
  have "w_db (advance w1) = w_db w" using query_store [OF answered(2)] by simp
  then show ?thesis using commit_object_lost [OF c] answered(1,2) k(2)
    by (auto simp: reconcile_trade_def utc_now_def heard_def)
qed simp

text \<open>A run over loaded trades touches their rows only, and sends no order.\<close>

lemma reconcile_loop_effect:
  "reconcile_loop e api ts s w = (r, w') \<Longrightarrow>
     orders_for c w' = orders_for c w \<and> order_count w' = order_count w \<and> owner_cache w' = owner_cache w \<and>
     (db_ok (w_db w) \<longrightarrow> only_rows (t_id ` set ts) (w_db w) (w_db w'))"
proof (induction ts arbitrary: s w)
  case Nil
  then show ?case by simp
next
  case (Cons t ts)
  obtain x w1 where t: "reconcile_trade e api t w = (x, w1)" by (cases "reconcile_trade e api t w") auto
  note eff = reconcile_trade_effect [OF t]
  have one: "only_rows (t_id ` set (t # ts)) (w_db w) (w_db w1)" if "db_ok (w_db w)"
    by (rule only_rows_mono [OF eff(4) [OF that]]) simp
  show ?case
  proof (cases x)
    case (Inl y)
    then have "w' = w1" using Cons.prems t by simp
    then show ?thesis using eff(1-3) one by simp
  next
    case (Inr v)
    then have "reconcile_loop e api ts (count_outcome t v s) w1 = (r, w')" using Cons.prems t by simp
    note ih = Cons.IH [OF this]
    have "only_rows (t_id ` set (t # ts)) (w_db w) (w_db w')" if ok: "db_ok (w_db w)"
    proof (rule only_rows_trans [OF one [OF ok]])
      have "only_rows (t_id ` set ts) (w_db w1) (w_db w')"
        using ih only_rows_ok [OF one [OF ok] ok] by blast
      then show "only_rows (t_id ` set (t # ts)) (w_db w1) (w_db w')" by (rule only_rows_mono) auto
    qed
    then show ?thesis using ih eff(1-3) by simp
  qed
qed

end

lemma reconcile_loop_count:
  "reconcile_loop e api ts s w = (Inr s', w') \<Longrightarrow> checked s' = checked s + length ts \<and>
     changed s' + unchanged s' = changed s + unchanged s + length ts"
proof (induction ts arbitrary: s w)
  case (Cons t ts)
  obtain x w1 where t: "reconcile_trade e api t w = (x, w1)" by (cases "reconcile_trade e api t w") auto
  then obtain v where v: "x = Inr v" "reconcile_loop e api ts (count_outcome t v s) w1 = (Inr s', w')"
    using Cons.prems by (cases x) auto
  have "checked (count_outcome t v s) = checked s + 1 \<and>
      changed (count_outcome t v s) + unchanged (count_outcome t v s) = changed s + unchanged s + 1"
    by (simp add: count_outcome_def Let_def)
  then show ?case using Cons.IH [OF v(2)] by simp
qed simp

section \<open>The contract of reconciliation\<close>

lemma reconcile_trade_status:
  assumes "db_ok (w_db w)" "select_trade (t_id t) (w_db w) = Some row" "loaded t row"
    "reconcile_trade e' (binance_client e c) t w = (Inr t', w')"
  shows "status t' = (if is_terminal t then status t else
      case fst (get_order e c (symbol t) (client_order_id t) w) of
        Inl _ \<Rightarrow> status t | Inr None \<Rightarrow> FAILED | Inr (Some r) \<Rightarrow> mapped_status (r_status r)) \<and>
    (\<exists>s. select_trade (t_id t) (w_db w') = Some s \<and> loaded t' s) \<and> identity t' = identity t"
  using assms(4)
proof (cases rule: testnet.reconcile_trade_cases)
  case settled
  then show ?thesis using assms(2,3) by simp
next
  case (unasked x)
  then have "fst (get_order e c (symbol t) (client_order_id t) w) = Inl x" "t' = t"
    by (simp_all split: exn.splits)
  moreover have "w_db w' = w_db w" using testnet.query_store [OF unasked(2)] by simp
  ultimately show ?thesis using assms(2,3) unasked(1) by auto
next
  case (answered a w1 now k)
  have k: "k = Inr t'" using answered(4) by (simp split: sum.splits)
  have w1: "w_db (advance w1) = w_db w" using testnet.query_store [OF answered(2)] by simp
  let ?new = "reconciled_object a now t"
  have "\<exists>s. select_trade (t_id t) (w_db w') = Some s \<and> loaded ?new s \<and> loaded t' s"
    using commit_object_fresh [of "advance w1" e' t ?new t' w' row] answered(3) assms(1-3)
    unfolding k w1 by auto
  moreover from this have "status t' = status ?new" "identity t' = identity t"
    by (auto simp: loaded_def)
  moreover have "fst (get_order e c (symbol t) (client_order_id t) w) = Inr a" using answered(2) by simp
  moreover have "\<exists>s. select_trade (t_id t) (w_db w') = Some s \<and> loaded t' s"
    using calculation(1) by blast
  ultimately show ?thesis using answered(1) by (simp add: reconciled_status split: option.split)
qed

text \<open>
  C5. Reconciling one trade, freshly loaded, records what the exchange said: a settled trade keeps its
  status; a query that failed changes nothing; an order that exists gives the trade the mapped status,
  never PENDING, UNKNOWN or FAILED; and FAILED is recorded only when the exchange answered -2013. The
  row of the table ends in the status that is returned, with its identity intact.
\<close>
theorem reconcile_records_the_answer:
  assumes "db_ok (w_db w)" "select_trade (t_id t) (w_db w) = Some t"
    "reconcile_trade e (binance_client e c) t w = (Inr t', w')"
  shows "(\<exists>row. select_trade (t_id t) (w_db w') = Some row \<and> status row = status t' \<and> identity row = identity t) \<and>
    (if is_terminal t then w' = w
     else case fst (get_order e c (symbol t) (client_order_id t) w) of
        Inl _ \<Rightarrow> w_db w' = w_db w
      | Inr None \<Rightarrow> status t' = FAILED \<and> says_no_such_order (query_outcome e c (symbol t) (client_order_id t) w)
      | Inr (Some r) \<Rightarrow> status t' = mapped_status (r_status r) \<and> status t' \<notin> {PENDING, UNKNOWN, FAILED})"
proof -
  let ?q = "fst (get_order e c (symbol t) (client_order_id t) w)"
  note s = reconcile_trade_status [OF assms(1,2) loaded_refl assms(3)]
  have "w' = w" if "is_terminal t" using assms(3) that by (simp add: reconcile_trade_def)
  moreover have "w_db w' = w_db w" if "?q = Inl x" for x
    using assms(3)
  proof (cases rule: testnet.reconcile_trade_cases)
    case (unasked y)
    then show ?thesis using testnet.query_store by blast
  qed (use that in auto)
  ultimately show ?thesis
    using s get_order_missing [of e c "symbol t" "client_order_id t" w] mapped_status_known
    by (auto simp: loaded_def split: sum.splits option.splits)
qed

theorem reconcile_records_the_answer_witness:
  "\<exists>t' w' row. reconcile_trade (test_env missing_answer) (binance_client (test_env missing_answer) test_client)
      test_trade trade_world = (Inr t', w') \<and> select_trade 1 (w_db w') = Some row \<and> status row = FAILED"
proof -
  let ?e = "test_env missing_answer"
  have miss: "fst (get_order ?e test_client (symbol test_trade) (client_order_id test_trade) trade_world) = Inr None"
    unfolding get_order_missing query_outcome_def outcome_at_def says_no_such_order_def
    by (simp add: missing_answer_def response_error_code_def error_body_def json_get_def ORDER_DOES_NOT_EXIST_CODE_def)
  then obtain w1 where q: "get_order ?e test_client (symbol test_trade) (client_order_id test_trade) trade_world = (Inr None, w1)"
    by (metis prod.collapse)
  then have w1: "w_db w1 = trade_db" using get_order_log [OF q] by (simp add: same_store_def trade_world_def)
  have nt: "\<not> is_terminal test_trade" by (simp add: is_terminal_def test_trade_def TERMINAL_STATUSES_def)
  have sel: "select_trade (t_id test_trade) trade_db = Some test_trade"
    using select_test_trade by (simp add: test_trade_def)
  let ?new = "reconciled_object None (int (tick w1)) test_trade"
  have "\<exists>t' w'. commit_object ?e test_trade ?new (advance w1) = (Inr t', w')"
    using sel by (simp add: commit_object_def utc_now_def db_commit_def flush_trade_def w1 store_row_def)
       (simp add: test_trade_def merge_row_def dirty_def reconciled_object_def dec_opt_same_def bigint_ok_def
          varchar_ok_def numeric_opt_def numeric_28_12.simps not_found_message_def)
  then obtain t' w' where "reconcile_trade ?e (binance_client ?e test_client) test_trade trade_world = (Inr t', w')"
    using q nt by (auto simp: reconcile_trade_def utc_now_def)
  moreover have "db_ok (w_db trade_world)" "select_trade (t_id test_trade) (w_db trade_world) = Some test_trade"
    using trade_db_ok sel by (simp_all add: trade_world_def)
  ultimately show ?thesis
    using reconcile_records_the_answer [of trade_world test_trade ?e test_client t' w'] miss nt
    by (auto simp: test_trade_def)
qed

lemma find_reconcilable_set:
  assumes "find_reconcilable_trades e age limit w = (ts, w')"
  shows "w' = advance w" "length ts \<le> limit"
    "t \<in> set ts \<Longrightarrow> t \<in> set (trades (w_db w)) \<and> \<not> is_terminal t \<and> created_at t < clock e (tick w) - age * 1000000"
  using assms by (auto simp: find_reconcilable_trades_def utc_now_def reconcilable_iff dest: in_set_takeD)

text \<open>
  C13. A reconciliation run, as \<open>scripts/reconcile.py\<close> makes it, whatever the exchange answers and
  wherever a commit fails: it sends no order, keeps the tables' integrity and every row's identity, and
  leaves every settled trade and every trade younger than the age limit as it was; if it returns, it
  checked at most \<open>limit\<close> trades and its counts add up.
\<close>
theorem reconcile_run_is_safe:
  assumes "db_ok (w_db w)" "reconcile_pending_trades e (binance_client e c) age limit w = (r, w')"
  shows "order_count w' = order_count w \<and> db_ok (w_db w') \<and>
    map row_key (trades (w_db w')) = map row_key (trades (w_db w)) \<and>
    (\<forall>row \<in> set (trades (w_db w)).
       is_terminal row \<or> clock e (tick w) - age * 1000000 \<le> created_at row \<longrightarrow> row \<in> set (trades (w_db w'))) \<and>
    (case r of Inl _ \<Rightarrow> True | Inr s \<Rightarrow> checked s = changed s + unchanged s \<and> checked s \<le> limit)"
proof -
  obtain ts where ts: "find_reconcilable_trades e age limit w = (ts, advance w)"
      "reconcile_loop e (binance_client e c) ts \<lparr>checked = 0, changed = 0, unchanged = 0\<rparr> (advance w) = (r, w')"
    using assms(2) find_reconcilable_set(1) unfolding reconcile_pending_trades_def
    by (metis (no_types, lifting) case_prod_beta prod.collapse)
  note found = find_reconcilable_set(2,3) [OF ts(1)]
  note eff = testnet.reconcile_loop_effect [OF ts(2)]
  have only: "only_rows (t_id ` set ts) (w_db w) (w_db w')" using eff assms(1) by simp
  have "order_count w' = order_count w" using eff by (simp add: order_count_def)
  moreover have "row \<in> set (trades (w_db w'))"
    if row: "row \<in> set (trades (w_db w))"
      "is_terminal row \<or> clock e (tick w) - age * 1000000 \<le> created_at row" for row
  proof -
    have "t_id row \<notin> t_id ` set ts"
    proof
      assume "t_id row \<in> t_id ` set ts"
      then obtain t where t: "t \<in> set ts" "t_id t = t_id row" by auto
      then have "t = row"
        using trades_ok_inject [of "trades (w_db w)" t row] assms(1) row(1) found(2) [OF t(1)]
        by (simp add: db_ok_def)
      then show False using found(2) [OF t(1)] row(2) by auto
    qed
    then show ?thesis using only_rows_other [OF only] row(1) by blast
  qed
  moreover have "checked s = changed s + unchanged s \<and> checked s \<le> limit" if "r = Inr s" for s
    using reconcile_loop_count [of e "binance_client e c" ts _ "advance w" s w'] ts(2) that found(1) by simp
  moreover have "map row_key (trades (w_db w')) = map row_key (trades (w_db w))"
    using only by (simp add: only_rows_def)
  ultimately show ?thesis using only_rows_ok [OF only assms(1)] by (auto split: sum.split)
qed

theorem reconcile_run_is_safe_witness:
  "order_count (snd (reconcile_pending_trades (test_env filled_answer)
     (binance_client (test_env filled_answer) test_client) 60 100 trade_world)) = 0"
  using reconcile_run_is_safe [of trade_world "test_env filled_answer" test_client 60 100
    "fst (reconcile_pending_trades (test_env filled_answer)
       (binance_client (test_env filled_answer) test_client) 60 100 trade_world)"] trade_db_ok
  by (simp add: trade_world_def order_count_def)

end
