(* ===== verification/Trading.thy ===== *)
theory Trading
  imports Reconcile
begin

text \<open>
  \<open>app/services/trading_service.py\<close>: from a validated signal to a trade row and an order. The injected
  exchange client is a \<open>binance_api\<close>; the settings are a parameter. Every operation returns its result
  or the exception it raises, and the world after it.
\<close>

section \<open>Client order ids\<close>

definition build_client_order_id :: "string \<Rightarrow> string" where
  "build_client_order_id sid = ''cat-'' @ take 28 (sha256_hex sid)"

section \<open>Business validation\<close>

definition business_error :: "string \<Rightarrow> exn" where
  "business_error m = AppExn (make_error BusinessValidationError (Some m))"

definition validate_signal :: "settings \<Rightarrow> payload \<Rightarrow> (exn, unit) result" where
  "validate_signal s p =
     (if p_symbol p \<notin> allowed_symbols s then
        Inl (business_error (''Symbol '' @ p_symbol p @ '' is not enabled for trading. Allowed symbols: '' @
          py_join '', '' (sorted_strings (allowed_symbols s)) @ ''.''))
      else if dec_less (p_quantity p) (MIN_ORDER_QUANTITY s) then
        Inl (business_error (''Quantity '' @ str_decimal (p_quantity p) @
          '' is below the minimum order size of '' @ str_decimal (MIN_ORDER_QUANTITY s) @ ''.''))
      else if dec_less (MAX_ORDER_QUANTITY s) (p_quantity p) then
        Inl (business_error (''Quantity '' @ str_decimal (p_quantity p) @
          '' exceeds the maximum order size of '' @ str_decimal (MAX_ORDER_QUANTITY s) @
          ''. This is a safety limit, not a Binance limit.''))
      else Inr ())"

section \<open>The durable PENDING row\<close>

definition resolve_trade_owner_id :: "settings \<Rightarrow> world \<Rightarrow> (exn, int) result \<times> world" where
  "resolve_trade_owner_id s w =
     (case owner_cache w of
        Some i \<Rightarrow> (Inr i, w)
      | None \<Rightarrow>
          (case select_user_by_email (WEBHOOK_TRADE_OWNER_EMAIL s) (w_db w) of
             None \<Rightarrow> (Inl (AppExn (make_error ConfigurationError
                (Some ''Webhook trade owner account is not registered on this server.''))), w)
           | Some u \<Rightarrow> (Inr (u_id u), w\<lparr>owner_cache := Some (u_id u)\<rparr>)))"

definition reset_trade_owner_cache :: "world \<Rightarrow> world" where
  "reset_trade_owner_cache w = w\<lparr>owner_cache := None\<rparr>"

text \<open>The new object; the primary key is assigned by the INSERT, the two defaults read the clock.\<close>

definition new_trade :: "payload \<Rightarrow> int \<Rightarrow> int \<Rightarrow> int \<Rightarrow> trade" where
  "new_trade p owner created updated =
     \<lparr>t_id = 0, user_id = owner, signal_id = p_signal_id p,
      client_order_id = build_client_order_id (p_signal_id p), symbol = p_symbol p, side = p_action p,
      order_type = ''MARKET'', quantity = p_quantity p, status = PENDING, binance_order_id = None,
      binance_status = None, executed_quantity = None, cumulative_quote_quantity = None,
      error_code = None, error_message = None, submitted_at = None, reconciled_at = None,
      created_at = created, updated_at = updated\<rparr>"

definition create_pending_trade :: "env \<Rightarrow> payload \<Rightarrow> int \<Rightarrow> world \<Rightarrow> (exn, trade) result \<times> world" where
  "create_pending_trade e p owner w =
     (let (created, w1) = utc_now e w; (updated, w2) = utc_now e w1
      in case db_commit e (insert_trade (new_trade p owner created updated)) w2 of
           (Inr t, w3) \<Rightarrow> (Inr t, w3)
         | (Inl IntegrityError, w3) \<Rightarrow>
             (Inl (AppExn (duplicate_signal_error
                (map_option t_id (select_trade_by_signal (p_signal_id p) (w_db w3))))), w3)
         | (Inl x, w3) \<Rightarrow> (Inl (SqlExn x), w3))"

section \<open>Claiming\<close>

definition claim_stmt :: "int \<Rightarrow> int \<Rightarrow> db \<Rightarrow> (sql_error, nat) result \<times> db" where
  "claim_stmt tid now d = (let (n, d') = update_claim tid now d in (Inr n, d'))"

definition claim_for_submission :: "env \<Rightarrow> int \<Rightarrow> world \<Rightarrow> (exn, trade option) result \<times> world" where
  "claim_for_submission e tid w =
     (let (now, w1) = utc_now e w
      in case db_commit e (claim_stmt tid now) w1 of
           (Inl x, w2) \<Rightarrow> (Inl (SqlExn x), w2)
         | (Inr n, w2) \<Rightarrow> if n \<noteq> 1 then (Inr None, w2) else (Inr (select_trade tid (w_db w2)), w2))"

section \<open>Outcome handlers\<close>

definition commit_or_raise :: "env \<Rightarrow> trade \<Rightarrow> trade \<Rightarrow> world \<Rightarrow> (exn, trade) result \<times> world" where
  "commit_or_raise e old new w =
     (case commit_object e old new w of
        (Inl x, w') \<Rightarrow> (Inl (SqlExn x), w') | (Inr t, w') \<Rightarrow> (Inr t, w'))"

text \<open>
  The \<open>except\<close> clause of the handlers rolls back, names the trade in a log line - which reads the object
  again - and raises what it caught.
\<close>

definition commit_or_report :: "env \<Rightarrow> trade \<Rightarrow> trade \<Rightarrow> world \<Rightarrow> (exn, trade) result \<times> world" where
  "commit_or_report e old new w =
     (case commit_object e old new w of
        (Inl x, w') \<Rightarrow> (Inl (SqlExn (if after_failure e (tick w') = Unreadable then MissingGreenlet else x)), w')
      | (Inr t, w') \<Rightarrow> (Inr t, w'))"

definition success_object :: "order_result \<Rightarrow> trade \<Rightarrow> trade" where
  "success_object r t =
     t\<lparr>binance_order_id := r_order_id r, binance_status := Some (r_status r),
       executed_quantity := Some (r_executed_quantity r),
       cumulative_quote_quantity := Some (r_cumulative_quote_quantity r),
       status := mapped_status (r_status r), error_code := None, error_message := None\<rparr>"

definition finalise_success :: "env \<Rightarrow> trade \<Rightarrow> order_result \<Rightarrow> world \<Rightarrow> (exn, trade) result \<times> world" where
  "finalise_success e t r w = commit_or_report e t (success_object r t) w"

definition failure_object :: "trade_status \<Rightarrow> string \<Rightarrow> string \<Rightarrow> trade \<Rightarrow> trade" where
  "failure_object st code msg t =
     t\<lparr>status := st, error_code := Some (take 64 code), error_message := Some msg\<rparr>"

definition finalise_failure ::
  "env \<Rightarrow> trade \<Rightarrow> trade_status \<Rightarrow> string \<Rightarrow> string \<Rightarrow> world \<Rightarrow> (exn, trade) result \<times> world" where
  "finalise_failure e t st code msg w = commit_or_report e t (failure_object st code msg t) w"

text \<open>\<open>str(exc.code) if exc.code is not None else default\<close>.\<close>

definition code_or :: "json \<Rightarrow> string \<Rightarrow> string" where
  "code_or c d = (if c = JNull then d else py_str c)"

definition unknown_object :: "binance_error \<Rightarrow> trade \<Rightarrow> trade" where
  "unknown_object x t =
     t\<lparr>status := UNKNOWN, error_code := Some (code_or (b_code x) ''uncertain''),
       error_message := Some (b_message x)\<rparr>"

text \<open>
  The dangerous case: UNKNOWN is committed first, then one query is tried; whatever that raises is
  swallowed and logged with the id of the trade. When it was the commit of the answer that failed, the
  object may have kept the answer, been reverted, or not be readable even for the log line.
\<close>

definition reconcile_leaves :: "env \<Rightarrow> binance_api \<Rightarrow> trade \<Rightarrow> world \<Rightarrow> trade" where
  "reconcile_leaves e api t w =
     (if is_terminal t then t
      else case api_query api (symbol t) (client_order_id t) w of
             (Inl _, _) \<Rightarrow> t
           | (Inr answer, w1) \<Rightarrow> reconciled_object answer (clock e (tick w1)) t)"

definition after_swallowed :: "env \<Rightarrow> binance_api \<Rightarrow> trade \<Rightarrow> world \<Rightarrow> exn \<Rightarrow> world \<Rightarrow> (exn, trade) result" where
  "after_swallowed e api t w y w' =
     (case y of
        SqlExn _ \<Rightarrow>
          (case after_failure e (tick w') of
             Keeps_changes \<Rightarrow> Inr (reconcile_leaves e api t w)
           | Reverted \<Rightarrow> Inr t
           | Unreadable \<Rightarrow> Inl (SqlExn MissingGreenlet))
      | _ \<Rightarrow> Inr t)"

definition handle_uncertain_outcome ::
  "env \<Rightarrow> binance_api \<Rightarrow> trade \<Rightarrow> binance_error \<Rightarrow> world \<Rightarrow> (exn, trade) result \<times> world" where
  "handle_uncertain_outcome e api t x w =
     (case commit_or_raise e t (unknown_object x t) w of
        (Inl y, w1) \<Rightarrow> (Inl y, w1)
      | (Inr t1, w1) \<Rightarrow>
          (case reconcile_trade e api t1 w1 of
             (Inl y, w2) \<Rightarrow> (after_swallowed e api t1 w1 y w2, w2)
           | (Inr t2, w2) \<Rightarrow> (Inr t2, w2)))"

text \<open>The \<open>except\<close> clauses in their order; the first that matches handles the error.\<close>

definition record_outcome ::
  "env \<Rightarrow> binance_api \<Rightarrow> trade \<Rightarrow> (exn, order_result) result \<Rightarrow> world \<Rightarrow> (exn, trade) result \<times> world" where
  "record_outcome e api t outcome w =
     (case outcome of
        Inl (BinanceExn x) \<Rightarrow>
          (case x of
             RateLimit m c _ _ \<Rightarrow> finalise_failure e t REJECTED (''rate_limit:'' @ py_str c) m w
           | Rejected m c _ \<Rightarrow> finalise_failure e t REJECTED (code_or c ''rejected'') m w
           | Auth m c _ \<Rightarrow> finalise_failure e t REJECTED (code_or c ''rejected'') m w
           | Unavailable m c _ \<Rightarrow> finalise_failure e t FAILED (code_or c ''unavailable'') m w
           | Uncertain _ _ _ \<Rightarrow> handle_uncertain_outcome e api t x w)
      | Inl y \<Rightarrow> (Inl y, w)
      | Inr r \<Rightarrow> finalise_success e t r w)"

definition submit_to_binance :: "env \<Rightarrow> binance_api \<Rightarrow> trade \<Rightarrow> world \<Rightarrow> (exn, trade) result \<times> world" where
  "submit_to_binance e api t w =
     (case api_place api (symbol t) (side_value (side t)) (quantity t) (client_order_id t) w of
        (outcome, w1) \<Rightarrow> record_outcome e api t outcome w1)"

section \<open>Entry point\<close>

text \<open>
  In queued mode the id is handed to the executor's queue, in inline mode the order is placed before
  the call returns; a trade that somebody else claimed first is returned as it was created.
\<close>

definition process_signal ::
  "env \<Rightarrow> binance_api \<Rightarrow> settings \<Rightarrow> string \<Rightarrow> payload \<Rightarrow> job_queue \<Rightarrow> world \<Rightarrow>
   (exn, trade) result \<times> job_queue \<times> world" where
  "process_signal e api s request_id p q w =
     (case validate_signal s p of
        Inl x \<Rightarrow> (Inl x, q, w)
      | Inr _ \<Rightarrow>
          (case resolve_trade_owner_id s w of
             (Inl x, w1) \<Rightarrow> (Inl x, q, w1)
           | (Inr owner, w1) \<Rightarrow>
               (case create_pending_trade e p owner w1 of
                  (Inl x, w2) \<Rightarrow> (Inl x, q, w2)
                | (Inr t, w2) \<Rightarrow>
                    if WEBHOOK_ASYNC_EXECUTION s then (Inr t, snd (submit (t_id t) request_id q), w2)
                    else
                      (case claim_for_submission e (t_id t) w2 of
                         (Inl x, w3) \<Rightarrow> (Inl x, q, w3)
                       | (Inr None, w3) \<Rightarrow> (Inr t, q, w3)
                       | (Inr (Some claimed), w3) \<Rightarrow>
                           (case submit_to_binance e api claimed w3 of (r, w4) \<Rightarrow> (r, q, w4))))))"

section \<open>Queries of the authenticated endpoints\<close>

definition owned_by :: "int \<Rightarrow> trade_status option \<Rightarrow> trade \<Rightarrow> bool" where
  "owned_by uid st t = (user_id t = uid \<and> (case st of None \<Rightarrow> True | Some x \<Rightarrow> status t = x))"

text \<open>\<open>ORDER BY created_at DESC, id DESC\<close>.\<close>

definition newest_first :: "trade list \<Rightarrow> trade list" where
  "newest_first ts = sort_key (\<lambda>t. - created_at t) (sort_key (\<lambda>t. - t_id t) ts)"

text \<open>
  The driver encodes a parameter for the type it is compared with or bound to, an INTEGER for an id, a
  BIGINT for LIMIT and OFFSET, and raises where it does not fit.
\<close>

definition list_trades_for_user ::
  "int \<Rightarrow> nat \<Rightarrow> nat \<Rightarrow> trade_status option \<Rightarrow> db \<Rightarrow> (exn, trade list \<times> nat) result" where
  "list_trades_for_user uid limit offset st d =
     (if bigint_ok (Some (int limit)) \<and> bigint_ok (Some (int offset)) then
        (let matching = filter (owned_by uid st) (trades d)
         in Inr (take limit (drop offset (newest_first matching)), length matching))
      else Inl (SqlExn DataError))"

definition get_trade_for_user :: "int \<Rightarrow> int \<Rightarrow> db \<Rightarrow> (exn, trade option) result" where
  "get_trade_for_user uid tid d =
     (if int32 tid then Inr (find (\<lambda>t. t_id t = tid \<and> user_id t = uid) (trades d)) else Inl (SqlExn DataError))"

section \<open>What the handlers do to the world\<close>

text \<open>
  \<open>quiet t w w'\<close>: no order was sent, only the row of \<open>t\<close> changed, and not its identity.
\<close>

definition quiet :: "trade \<Rightarrow> world \<Rightarrow> world \<Rightarrow> bool" where
  "quiet t w w' =
     (filter is_order_request (requests w') = filter is_order_request (requests w) \<and>
      owner_cache w' = owner_cache w \<and>
      (db_ok (w_db w) \<longrightarrow> only_rows {t_id t} (w_db w) (w_db w') \<and>
         map identity (trades (w_db w')) = map identity (trades (w_db w))))"

lemma quiet_refl [simp]: "quiet t w w"
  by (simp add: quiet_def)

lemma quiet_trans:
  assumes "quiet t a b" "quiet t b c"
  shows "quiet t a c"
proof (cases "db_ok (w_db a)")
  case True
  then have "db_ok (w_db b)" using assms(1) only_rows_ok unfolding quiet_def by blast
  then show ?thesis using assms only_rows_trans unfolding quiet_def by metis
qed (use assms in \<open>simp add: quiet_def\<close>)

lemma quiet_orders:
  assumes "quiet t w w'"
  shows "orders_for c w' = orders_for c w" "order_count w' = order_count w"
proof -
  have o: "orders_for c v = length (filter (\<lambda>r. map_of (rq_params r) ''newClientOrderId'' = Some c)
      (filter is_order_request (requests v)))" for v
    by (simp add: orders_for_def conj_commute)
  show "orders_for c w' = orders_for c w" "order_count w' = order_count w"
    using assms unfolding o order_count_def quiet_def by presburger+
qed

lemma commit_or_raise_iff:
  "commit_or_raise e old new w = (Inr v, w') \<longleftrightarrow> commit_object e old new w = (Inr v, w')"
  by (simp add: commit_or_raise_def split: prod.split sum.split)

text \<open>A commit whose failure is reported fails when one whose failure escapes does.\<close>

lemma commit_or_report_raise:
  assumes "commit_or_report e old new w = (r, w')"
  obtains r' where "commit_or_raise e old new w = (r', w')"
    "\<And>v. r = Inr v \<longleftrightarrow> r' = Inr v" "\<And>y. r = Inl y \<Longrightarrow> \<exists>q q'. y = SqlExn q \<and> r' = Inl (SqlExn q')"
  using assms unfolding commit_or_report_def commit_or_raise_def
  by (auto split: prod.splits sum.splits)

lemma commit_or_raise_quiet:
  assumes "commit_or_raise e old new w = (r, w')"
  shows "quiet old w w'"
proof -
  obtain c where c: "commit_object e old new w = (c, w')"
    using assms unfolding commit_or_raise_def by (auto split: prod.splits sum.splits)
  show ?thesis
    using commit_object_rest [OF c] commit_object_only [OF _ c] by (simp add: quiet_def)
qed

lemma unknown_object_keeps [simp]:
  "t_id (unknown_object x t) = t_id t" "identity (unknown_object x t) = identity t"
  by (simp_all add: unknown_object_def identity_def row_key_def)

lemma failure_object_keeps [simp]: "identity (failure_object st c m t) = identity t"
  by (simp add: failure_object_def identity_def row_key_def)

lemma success_object_keeps [simp]: "identity (success_object r t) = identity t"
  by (simp add: success_object_def identity_def row_key_def)

context exchange_api
begin

lemma reconcile_trade_quiet:
  assumes "reconcile_trade e api t w = (r, w')"
  shows "quiet t w w'"
proof -
  have "filter is_order_request (requests w') = filter is_order_request (requests w)"
    using assms
  proof (cases rule: reconcile_trade_cases)
    case (unasked x)
    then show ?thesis using query_log [OF unasked(2)] by (auto simp: list_all_iff filter_empty_conv)
  next
    case (answered a w1 now c)
    then show ?thesis using query_log [OF answered(2)] commit_object_rest [OF answered(3)]
      by (auto simp: list_all_iff filter_empty_conv)
  qed simp
  then show ?thesis using reconcile_trade_effect [OF assms] by (simp add: quiet_def)
qed

lemma commit_or_report_quiet:
  assumes "commit_or_report e old new w = (r, w')"
  shows "quiet old w w'"
  using assms by (rule commit_or_report_raise) (rule commit_or_raise_quiet)

lemma handle_uncertain_outcome_cases:
  assumes "handle_uncertain_outcome e api t x w = (r, w')"
  obtains (lost) y where "commit_or_raise e t (unknown_object x t) w = (Inl y, w')" "r = Inl y"
  | (asked) t1 w1 q where "commit_or_raise e t (unknown_object x t) w = (Inr t1, w1)"
      "reconcile_trade e api t1 w1 = (q, w')" "r = (case q of Inl y \<Rightarrow> after_swallowed e api t1 w1 y w' | Inr t2 \<Rightarrow> Inr t2)"
  using assms unfolding handle_uncertain_outcome_def by (auto split: prod.splits sum.splits)

lemma handle_uncertain_outcome_quiet:
  assumes "handle_uncertain_outcome e api t x w = (r, w')"
  shows "quiet t w w'"
  using assms
proof (cases rule: handle_uncertain_outcome_cases)
  case (lost y)
  then show ?thesis using commit_or_raise_quiet by blast
next
  case (asked t1 w1 q)
  obtain u where "t1 = (unknown_object x t)\<lparr>updated_at := u\<rparr>"
    using commit_object_value asked(1) unfolding commit_or_raise_iff by blast
  then have "t_id t1 = t_id t" by simp
  then have "quiet t w1 w'" using reconcile_trade_quiet [OF asked(2)] by (simp add: quiet_def)
  then show ?thesis using commit_or_raise_quiet [OF asked(1)] quiet_trans by blast
qed

lemma record_outcome_quiet:
  assumes "record_outcome e api t outcome w = (r, w')"
  shows "quiet t w w'"
proof (cases outcome)
  case (Inl y)
  show ?thesis
  proof (cases y)
    case (BinanceExn x)
    with Inl assms show ?thesis
      using commit_or_report_quiet handle_uncertain_outcome_quiet
      by (cases x) (simp_all add: record_outcome_def finalise_failure_def)
  qed (use assms Inl in \<open>simp_all add: record_outcome_def\<close>)
next
  case (Inr res)
  with assms show ?thesis
    using commit_or_report_quiet by (simp add: record_outcome_def finalise_success_def)
qed

lemma submit_to_binance_effect:
  assumes "submit_to_binance e api t w = (r, w')"
  shows "orders_for (client_order_id t) w' \<le> orders_for (client_order_id t) w + 1"
    "c \<noteq> client_order_id t \<Longrightarrow> orders_for c w' = orders_for c w"
    "order_count w' \<le> order_count w + 1" "owner_cache w' = owner_cache w"
    "db_ok (w_db w) \<Longrightarrow> only_rows {t_id t} (w_db w) (w_db w')"
    "db_ok (w_db w) \<Longrightarrow> map identity (trades (w_db w')) = map identity (trades (w_db w))"
proof -
  obtain o' w1 where p: "api_place api (symbol t) (side_value (side t)) (quantity t) (client_order_id t) w = (o', w1)"
      "record_outcome e api t o' w1 = (r, w')"
    using assms unfolding submit_to_binance_def by (auto split: prod.splits)
  note pl = place_orders [OF p(1)] place_store [OF p(1)]
  have q: "quiet t w1 w'" by (rule record_outcome_quiet [OF p(2)])
  show "orders_for (client_order_id t) w' \<le> orders_for (client_order_id t) w + 1"
    "c \<noteq> client_order_id t \<Longrightarrow> orders_for c w' = orders_for c w"
    "order_count w' \<le> order_count w + 1"
    using pl quiet_orders [OF q] by simp_all
  show "owner_cache w' = owner_cache w"
    "db_ok (w_db w) \<Longrightarrow> only_rows {t_id t} (w_db w) (w_db w')"
    "db_ok (w_db w) \<Longrightarrow> map identity (trades (w_db w')) = map identity (trades (w_db w))"
    using pl q by (simp_all add: quiet_def)
qed

end

section \<open>Creating and claiming\<close>

lemma build_client_order_id_length: "length (build_client_order_id s) \<le> 32"
  by (simp add: build_client_order_id_def)

lemma build_client_order_id_nul_free: "nul_free (build_client_order_id s)"
proof -
  have "\<not> is_hex_char (CHR 0x00)" by (simp add: is_hex_char_def is_digit_def)
  then have "nul_free (sha256_hex s)" using sha256_hex_form [of s] by (auto simp: nul_free_def)
  then show ?thesis by (simp add: build_client_order_id_def nul_free_take)
qed

lemma create_pending_trade_cases:
  assumes "create_pending_trade e p owner w = (r, w')"
  obtains (created) t c u d where "insert_trade (new_trade p owner c u) (w_db w) = (Inr t, d)" "r = Inr t"
      "w_db w' = d"
  | (conflict) c u d where "insert_trade (new_trade p owner c u) (w_db w) = (Inl IntegrityError, d)"
      "r = Inl (AppExn (duplicate_signal_error (map_option t_id (select_trade_by_signal (p_signal_id p) d))))"
      "w_db w' = d"
  | (failed) x where "r = Inl (SqlExn x)" "trades (w_db w') = trades (w_db w)" "users (w_db w') = users (w_db w)"
      "x \<noteq> IntegrityError" "db_ok (w_db w) \<Longrightarrow> db_ok (w_db w')"
  | (unheard) t c u d where "insert_trade (new_trade p owner c u) (w_db w) = (Inr t, d)"
      "r = Inl (SqlExn OperationalError)" "w_db w' = d"
proof -
  let ?t = "new_trade p owner (clock e (tick w)) (clock e (tick (advance w)))"
  obtain q w3 where q: "db_commit e (insert_trade ?t) (advance (advance w)) = (q, w3)"
    by (cases "db_commit e (insert_trade ?t) (advance (advance w))") auto
  have r: "(r, w') = (case q of Inr t \<Rightarrow> (Inr t, w3)
      | Inl IntegrityError \<Rightarrow> (Inl (AppExn (duplicate_signal_error
          (map_option t_id (select_trade_by_signal (p_signal_id p) (w_db w3))))), w3)
      | Inl x \<Rightarrow> (Inl (SqlExn x), w3))"
    using assms q by (auto simp: create_pending_trade_def utc_now_def split: sum.splits sql_error.splits)
  from q show thesis
  proof (cases rule: db_commit_cases)
    case (ok v d')
    then show thesis using created r by simp
  next
    case (refused x d')
    note keep = insert_trade_refused [OF refused(1)] insert_trade_ok [OF _ refused(1)]
    show thesis
    proof (cases "x = IntegrityError")
      case True
      then show thesis using conflict refused r by simp
    next
      case False
      then show thesis using failed [of x] refused r keep by (cases x) simp_all
    qed
  next
    case (lost v d')
    have "db_ok (w_db w) \<Longrightarrow> db_ok (w_db w')"
      using r lost insert_trade_seq [OF lost(1)] by (auto intro: rolled_back_ok)
    then show thesis using failed [of OperationalError] r lost by simp
  next
    case (unheard v d')
    then show thesis using that(4) r by simp
  qed
qed

lemma create_pending_trade_rest:
  "create_pending_trade e p owner w = (r, w') \<Longrightarrow> requests w' = requests w \<and> owner_cache w' = owner_cache w"
  unfolding create_pending_trade_def utc_now_def
  by (auto split: prod.splits sum.splits sql_error.splits dest!: db_commit_rest)

lemma create_pending_trade_ok:
  assumes "create_pending_trade e p owner w = (r, w')" "db_ok (w_db w)"
  shows "db_ok (w_db w')"
  using assms(1) by (cases rule: create_pending_trade_cases) (use assms(2) insert_trade_ok in blast)+

text \<open>The row a created trade leaves, and what its INSERT found.\<close>

lemma create_pending_trade_row:
  assumes "create_pending_trade e p owner w = (Inr t, w')"
  shows "\<exists>s. trades (w_db w') = trades (w_db w) @ [s] \<and> identity s = identity t \<and> status s = PENDING \<and>
    submitted_at s = None \<and> status t = PENDING \<and> t_id t = trade_seq (w_db w) \<and> user_id t = owner \<and>
    signal_id t = p_signal_id p \<and> client_order_id t = build_client_order_id (p_signal_id p) \<and>
    symbol s = p_symbol p \<and> side s = p_action p \<and> numeric_28_12 (p_quantity p) = Some (quantity s) \<and>
    owner \<in> u_id ` set (users (w_db w)) \<and> p_signal_id p \<notin> signal_id ` set (trades (w_db w)) \<and>
    client_order_id t \<notin> client_order_id ` set (trades (w_db w)) \<and> users (w_db w') = users (w_db w)"
  using assms
proof (cases rule: create_pending_trade_cases)
  case (created t' c u d)
  then have ins: "insert_trade (new_trade p owner c u) (w_db w) = (Inr t, w_db w')" by simp
  from insert_trade_rows [OF ins] obtain s where s: "store_row t = Some s" "trades (w_db w') = trades (w_db w) @ [s]"
      "t = (new_trade p owner c u)\<lparr>t_id := trade_seq (w_db w)\<rparr>"
      "owner \<in> u_id ` set (users (w_db w))" "p_signal_id p \<notin> signal_id ` set (trades (w_db w))"
      "client_order_id t \<notin> client_order_id ` set (trades (w_db w))"
    by (auto simp: new_trade_def)
  have "users (w_db w') = users (w_db w)" by (rule insert_trade_users [OF ins])
  then show ?thesis
    using s store_row_keeps [OF s(1)] store_row_quantity [OF s(1)] identity_store_row [OF s(1)]
    by (intro exI [of _ s]) (simp add: new_trade_def)
qed simp_all

lemma claim_for_submission_cases:
  assumes "claim_for_submission e tid w = (r, w')"
  obtains (failed) x where "r = Inl (SqlExn x)" "w_db w' = w_db w"
  | (claimed) n now d where "update_claim tid now (w_db w) = (n, d)" "w_db w' = d"
      "r = Inr (if n = 1 then select_trade tid d else None)"
  | (unheard) n now d where "update_claim tid now (w_db w) = (n, d)" "w_db w' = d"
      "r = Inl (SqlExn OperationalError)"
proof -
  obtain q w2 where q: "db_commit e (claim_stmt tid (clock e (tick w))) (advance w) = (q, w2)"
    by (cases "db_commit e (claim_stmt tid (clock e (tick w))) (advance w)") auto
  have r: "(r, w') = (case q of Inl x \<Rightarrow> (Inl (SqlExn x), w2)
      | Inr n \<Rightarrow> (Inr (if n = 1 then select_trade tid (w_db w2) else None), w2))"
    using assms q by (auto simp: claim_for_submission_def utc_now_def split: sum.splits)
  obtain n d where u: "update_claim tid (clock e (tick w)) (w_db w) = (n, d)"
    by (cases "update_claim tid (clock e (tick w)) (w_db w)") auto
  from q show thesis
  proof (cases rule: db_commit_cases)
    case (ok v d')
    then show thesis using claimed [OF u] r u by (simp add: claim_stmt_def)
  next
    case (refused x d')
    then show thesis using u by (simp add: claim_stmt_def)
  next
    case (lost v d')
    then have "d' = d" using u by (simp add: claim_stmt_def)
    then have "rolled_back (w_db w) d' = w_db w" using u by (auto simp: update_claim_def intro: rolled_back_same)
    then show thesis using failed r lost by simp
  next
    case (unheard v d')
    then show thesis using that(3) [OF u] r u by (simp add: claim_stmt_def)
  qed
qed

lemma claim_for_submission_rest:
  "claim_for_submission e tid w = (r, w') \<Longrightarrow> requests w' = requests w \<and> owner_cache w' = owner_cache w"
  unfolding claim_for_submission_def utc_now_def
  by (auto split: prod.splits sum.splits if_splits dest!: db_commit_rest)

lemma claim_for_submission_only:
  assumes "claim_for_submission e tid w = (r, w')"
  shows "only_rows {tid} (w_db w) (w_db w')"
  using assms by (cases rule: claim_for_submission_cases) (auto dest: update_claim_only)

section \<open>The contract of the entry point\<close>

context exchange_api
begin

lemma process_signal_cases:
  assumes "process_signal e api s rid p q w = (r, q', w')"
  obtains (invalid) x where "validate_signal s p = Inl x" "r = Inl x" "q' = q" "w' = w"
  | (ownerless) x where "validate_signal s p = Inr ()" "resolve_trade_owner_id s w = (Inl x, w')" "r = Inl x" "q' = q"
  | (refused) x owner w1 where "validate_signal s p = Inr ()" "resolve_trade_owner_id s w = (Inr owner, w1)"
      "create_pending_trade e p owner w1 = (Inl x, w')" "r = Inl x" "q' = q"
  | (queued) owner w1 t where "validate_signal s p = Inr ()" "resolve_trade_owner_id s w = (Inr owner, w1)"
      "create_pending_trade e p owner w1 = (Inr t, w')" "WEBHOOK_ASYNC_EXECUTION s" "r = Inr t"
      "q' = snd (submit (t_id t) rid q)"
  | (inline) owner w1 t w2 c w3 where "validate_signal s p = Inr ()" "resolve_trade_owner_id s w = (Inr owner, w1)"
      "create_pending_trade e p owner w1 = (Inr t, w2)" "\<not> WEBHOOK_ASYNC_EXECUTION s" "q' = q"
      "claim_for_submission e (t_id t) w2 = (c, w3)"
      "case c of Inl x \<Rightarrow> r = Inl x \<and> w' = w3 | Inr None \<Rightarrow> r = Inr t \<and> w' = w3
       | Inr (Some claimed) \<Rightarrow> submit_to_binance e api claimed w3 = (r, w')"
proof (cases "validate_signal s p")
  case (Inl x)
  with assms invalid show thesis by (simp add: process_signal_def)
next
  case v: (Inr u)
  then have v: "validate_signal s p = Inr ()" by simp
  obtain o1 w1 where o1: "resolve_trade_owner_id s w = (o1, w1)" by (cases "resolve_trade_owner_id s w") auto
  show thesis
  proof (cases o1)
    case (Inl x)
    with assms ownerless v o1 show thesis by (simp add: process_signal_def)
  next
    case (Inr owner)
    obtain c1 w2 where c1: "create_pending_trade e p owner w1 = (c1, w2)"
      by (cases "create_pending_trade e p owner w1") auto
    show thesis
    proof (cases c1)
      case (Inl x)
      then have "r = Inl x \<and> q' = q \<and> w' = w2"
        using assms v o1 c1 \<open>o1 = Inr owner\<close> by (auto simp: process_signal_def)
      then show thesis using refused [OF v] o1 c1 \<open>o1 = Inr owner\<close> Inl by blast
    next
      case t: (Inr t)
      show thesis
      proof (cases "WEBHOOK_ASYNC_EXECUTION s")
        case True
        then have "r = Inr t \<and> q' = snd (submit (t_id t) rid q) \<and> w' = w2"
          using assms v o1 c1 \<open>o1 = Inr owner\<close> t by (auto simp: process_signal_def)
        then show thesis using queued [OF v] o1 c1 \<open>o1 = Inr owner\<close> t True by blast
      next
        case False
        obtain c w3 where c: "claim_for_submission e (t_id t) w2 = (c, w3)"
          by (cases "claim_for_submission e (t_id t) w2") auto
        have "q' = q \<and> (case c of Inl x \<Rightarrow> r = Inl x \<and> w' = w3 | Inr None \<Rightarrow> r = Inr t \<and> w' = w3
            | Inr (Some claimed) \<Rightarrow> submit_to_binance e api claimed w3 = (r, w'))"
          using assms v o1 c1 \<open>o1 = Inr owner\<close> t False c
          by (auto simp: process_signal_def split: sum.splits option.splits prod.splits)
        then show thesis using inline [OF v] o1 c1 \<open>o1 = Inr owner\<close> t False c by blast
      qed
    qed
  qed
qed

end

lemma resolve_trade_owner_id_store:
  "resolve_trade_owner_id s w = (r, w') \<Longrightarrow> w_db w' = w_db w \<and> requests w' = requests w"
  by (auto simp: resolve_trade_owner_id_def split: option.splits)

lemma validate_signal_error:
  assumes "validate_signal s p = Inl x"
  obtains m where "x = business_error m"
  using assms unfolding validate_signal_def by (auto split: if_splits)

lemma ownerless_error:
  assumes "resolve_trade_owner_id s w = (Inl x, w')"
  shows "\<exists>m. x = AppExn (make_error ConfigurationError m) \<and> w' = w"
  using assms by (auto simp: resolve_trade_owner_id_def split: option.splits)

text \<open>A signal id that is in the table already.\<close>

lemma select_by_signal_self:
  assumes "db_ok d" "t \<in> set (trades d)"
  shows "select_trade_by_signal (signal_id t) d = Some t"
  unfolding select_trade_by_signal_def
  by (rule find_unique) (use assms in \<open>auto simp: db_ok_def trades_ok_def\<close>)

lemma create_pending_trade_duplicate:
  assumes "db_ok (w_db w)" "row \<in> set (trades (w_db w))" "signal_id row = p_signal_id p"
    "create_pending_trade e p owner w = (r, w')"
  shows "trades (w_db w') = trades (w_db w) \<and>
    (r = Inl (AppExn (duplicate_signal_error (Some (t_id row)))) \<or> (\<exists>x. r = Inl (SqlExn x)))"
  using assms(4)
proof (cases rule: create_pending_trade_cases)
  case (created t c u d)
  then have "p_signal_id p \<notin> signal_id ` set (trades (w_db w))"
    using insert_trade_rows by (fastforce simp: new_trade_def)
  then show ?thesis using assms(2,3) by (metis image_eqI)
next
  case (unheard t c u d)
  then have "p_signal_id p \<notin> signal_id ` set (trades (w_db w))"
    using insert_trade_rows by (fastforce simp: new_trade_def)
  then show ?thesis using assms(2,3) by (metis image_eqI)
next
  case (conflict c u d)
  have same: "trades d = trades (w_db w)" using insert_trade_refused [OF conflict(1)] by simp
  have "db_ok d" using insert_trade_ok [OF assms(1) conflict(1)] .
  then have "select_trade_by_signal (p_signal_id p) d = Some row"
    using select_by_signal_self assms(2,3) same by metis
  then show ?thesis using conflict same by simp
qed simp

lemma db_step_keys: "db_step d d' \<Longrightarrow> db_ok d \<Longrightarrow> row_key ` set (trades d) \<subseteq> row_key ` set (trades d')"
proof (induction rule: db_step.induct)
  case (insert_trade t d r d')
  show ?case
  proof (cases r)
    case (Inl x)
    then show ?thesis using insert_trade_refused insert_trade.hyps by simp
  next
    case (Inr v)
    then show ?thesis using insert_trade_rows insert_trade.hyps by fastforce
  qed
next
  case (insert_user u d r d')
  then show ?case using insert_user_trades by simp
next
  case (claim tid now d n d')
  then have "map row_key (trades d') = map row_key (trades d)" using update_claim_only by (simp add: only_rows_def)
  then show ?case by (metis order_refl set_map)
next
  case (flush now old new d r d')
  then have "map row_key (trades d') = map row_key (trades d)"
    using flush_trade_only by (simp add: only_rows_def)
  then show ?case by (metis order_refl set_map)
qed simp

lemma db_steps_keys:
  "db_step\<^sup>*\<^sup>* d d' \<Longrightarrow> db_ok d \<Longrightarrow> db_ok d' \<and> row_key ` set (trades d) \<subseteq> row_key ` set (trades d')"
  by (induction rule: rtranclp_induct) (use db_step_ok db_step_keys in blast)+

end
