(* ===== verification/Trading_Contract.thy ===== *)
theory Trading_Contract
  imports Trading
begin

text \<open>
  What the trading service promises, over the definitions of theory Trading: business validation, one
  trade per signal, durability before submission, and statuses that say what is known of the order.
\<close>

section \<open>Validation\<close>

text \<open>
  Business validation on every branch: a signal for an enabled symbol and a quantity between the
  configured bounds passes; any other signal is refused with a \<open>BusinessValidationError\<close>, a 422,
  before anything is read, written, queued or sent.
\<close>
theorem invalid_signal_is_refused:
  "if p_symbol p \<in> allowed_symbols s \<and> \<not> dec_less (p_quantity p) (MIN_ORDER_QUANTITY s) \<and>
      \<not> dec_less (MAX_ORDER_QUANTITY s) (p_quantity p)
   then validate_signal s p = Inr ()
   else \<exists>m. process_signal e api s rid p q w =
          (Inl (AppExn (make_error BusinessValidationError (Some m))), q, w) \<and>
        er_status (handle_app_error rid (make_error BusinessValidationError (Some m))) = 422"
proof (cases "validate_signal s p")
  case (Inl x)
  then obtain m where "x = business_error m" by (rule validate_signal_error)
  moreover have "er_status (handle_app_error rid (make_error BusinessValidationError (Some m))) = 422" for m
    by (simp add: handle_app_error_def error_response_of_def make_error_def)
  ultimately show ?thesis using Inl
    by (auto simp: process_signal_def business_error_def validate_signal_def split: if_splits)
next
  case (Inr u)
  then show ?thesis by (auto simp: validate_signal_def split: if_splits)
qed

section \<open>One trade per signal\<close>

lemma claim_keeps_ok: "claim_for_submission e tid w = (r, w') \<Longrightarrow> db_ok (w_db w) \<Longrightarrow> db_ok (w_db w')"
  using claim_for_submission_only only_rows_ok by blast

lemma only_rows_last:
  assumes "only_rows {t_id s} d d'" "trades d = ts @ [s]" "\<forall>r \<in> set ts. t_id r \<noteq> t_id s"
  shows "\<exists>row. trades d' = ts @ [row] \<and> row_key row = row_key s"
proof -
  have "map row_key (trades d') = map row_key ts @ [row_key s]" using assms(1,2) by (simp add: only_rows_def)
  then obtain xs row where xs: "trades d' = xs @ [row]" "map row_key xs = map row_key ts" "row_key row = row_key s"
    by (auto simp: map_eq_append_conv)
  have "set (map t_id xs) = set (map t_id ts)" using map_row_key_keeps(1) [OF xs(2)] by simp
  then have "\<forall>r \<in> set xs. t_id r \<noteq> t_id s" using assms(3) by (metis (no_types, lifting) image_iff list.set_map)
  then have "filter (\<lambda>r. t_id r \<notin> {t_id s}) (trades d') = xs"
    using xs(1,3) by (simp add: row_key_def filter_id_conv)
  moreover have "filter (\<lambda>r. t_id r \<notin> {t_id s}) (trades d) = ts"
    using assms(2,3) by (simp add: filter_id_conv)
  ultimately show ?thesis using assms(1) xs(1,3) by (simp add: only_rows_def)
qed

lemma commit_or_raise_identity:
  assumes "commit_or_raise e old new w = (Inr v, w')"
  shows "identity v = identity new"
  using commit_object_value assms unfolding commit_or_raise_iff by fastforce

lemma reconcile_trade_identity:
  assumes "reconcile_trade e (binance_client e c) t w = (Inr v, w')"
  shows "identity v = identity t"
  using assms
proof (cases rule: testnet.reconcile_trade_cases)
  case (answered a w1 now k)
  then have "k = Inr v" by (simp split: sum.splits)
  then show ?thesis using commit_object_value [of e t _ "advance w1" v w'] answered(3) by fastforce
qed (auto split: exn.splits)

lemma commit_or_report_identity:
  assumes "commit_or_report e old new w = (Inr v, w')"
  shows "identity v = identity new"
  using assms commit_or_raise_identity by (metis commit_or_report_raise)

lemma reconcile_leaves_identity: "identity (reconcile_leaves e api t w) = identity t"
  by (simp add: reconcile_leaves_def split: prod.split sum.split)

lemma after_swallowed_cases:
  assumes "after_swallowed e api t w y w' = r"
  obtains (gone) q where "y = SqlExn q" "r = Inl (SqlExn MissingGreenlet)"
  | (returned) v where "r = Inr v" "v = t \<or> v = reconcile_leaves e api t w"
  using assms by (auto simp: after_swallowed_def split: exn.splits object_state.splits)

lemma record_outcome_identity:
  assumes "record_outcome e (binance_client e c) t o' w = (Inr v, w')"
  shows "identity v = identity t"
proof (cases o')
  case (Inl y)
  then obtain x where x: "y = BinanceExn x" using assms by (cases y) (simp_all add: record_outcome_def)
  show ?thesis
  proof (cases "\<exists>m k n. x = Uncertain m k n")
    case True
    then have "handle_uncertain_outcome e (binance_client e c) t x w = (Inr v, w')"
      using assms Inl x by (auto simp: record_outcome_def)
    then show ?thesis
    proof (cases rule: testnet.handle_uncertain_outcome_cases)
      case (asked t1 w1 q)
      have t1: "identity t1 = identity t" using commit_or_raise_identity [OF asked(1)] by simp
      show ?thesis
      proof (cases q)
        case (Inl y)
        then have "after_swallowed e (binance_client e c) t1 w1 y w' = Inr v" using asked(3) by simp
        then show ?thesis using t1 reconcile_leaves_identity
          by (cases rule: after_swallowed_cases) auto
      next
        case (Inr u)
        then show ?thesis using t1 asked(2,3) reconcile_trade_identity [of e c t1 w1] by auto
      qed
    qed simp
  next
    case False
    then show ?thesis using assms Inl x
      by (cases x) (auto simp: record_outcome_def finalise_failure_def dest: commit_or_report_identity)
  qed
next
  case (Inr res)
  then show ?thesis using assms
    by (auto simp: record_outcome_def finalise_success_def dest: commit_or_report_identity)
qed

lemma submit_to_binance_identity:
  "submit_to_binance e (binance_client e c) t w = (Inr v, w') \<Longrightarrow> identity v = identity t"
  unfolding submit_to_binance_def by (auto split: prod.splits dest: record_outcome_identity)

lemma claim_won:
  assumes "claim_for_submission e tid w = (Inr (Some t), w')" "db_ok (w_db w)"
  shows "select_trade tid (w_db w') = Some t \<and> submitted_at t \<noteq> None \<and> status t = PENDING \<and>
    \<not> submitted_in (trades (w_db w)) tid \<and>
    (\<exists>s now. s \<in> set (trades (w_db w)) \<and> claimable tid s \<and> t = mark_submitted now s)"
  using assms(1)
proof (cases rule: claim_for_submission_cases)
  case (claimed n now d)
  have n: "n = 1" "select_trade tid d = Some t" using claimed(3) by (auto split: if_splits)
  have "\<not> submitted_in (trades (w_db w)) tid"
    using pg.claim_wins [OF assms(2) claimed(1)] n(1) by simp
  moreover have "filter (claimable tid) (trades (w_db w)) \<noteq> []"
    using update_claim_law [OF claimed(1)] n(1) by auto
  then obtain s where s: "s \<in> set (trades (w_db w))" "claimable tid s"
    unfolding filter_empty_conv by blast
  moreover have "t = mark_submitted now s"
  proof -
    have "db_ok d" using update_claim_ok [OF assms(2) claimed(1)] .
    moreover have "mark_submitted now s \<in> set (trades d)"
    proof -
      have "mark_submitted now s = (if claimable tid s then mark_submitted now s else s)" using s(2) by simp
      then have "mark_submitted now s \<in>
          (\<lambda>t. if claimable tid t then mark_submitted now t else t) ` set (trades (w_db w))"
        using s(1) by (rule image_eqI)
      then show ?thesis using update_claim_law [OF claimed(1)] by (simp only: set_map)
    qed
    ultimately have "select_trade (t_id (mark_submitted now s)) d = Some (mark_submitted now s)"
      by (rule select_trade_self)
    then show ?thesis using n(2) s(2) by (simp add: claimable_def mark_submitted_def)
  qed
  moreover have "submitted_at t \<noteq> None \<and> status t = PENDING"
    using \<open>t = mark_submitted now s\<close> s(2) by (simp add: mark_submitted_def claimable_def)
  ultimately show ?thesis using n(2) claimed(2) s by blast
qed simp_all

text \<open>What accepting a signal did to the tables, however its order ended.\<close>

lemma process_signal_row:
  assumes "db_ok (w_db w)" "process_signal e (binance_client e c) s rid p q w = (Inr t, q', w')"
  shows "db_ok (w_db w') \<and> users (w_db w') = users (w_db w) \<and>
    (\<exists>row. trades (w_db w') = trades (w_db w) @ [row] \<and> row_key row = row_key t \<and>
       t_id t = trade_seq (w_db w) \<and> user_id t \<in> u_id ` set (users (w_db w)) \<and>
       signal_id t = p_signal_id p \<and> client_order_id t = build_client_order_id (p_signal_id p) \<and>
       p_signal_id p \<notin> signal_id ` set (trades (w_db w)) \<and>
       client_order_id t \<notin> client_order_id ` set (trades (w_db w)) \<and>
       (requests w' \<noteq> requests w \<longrightarrow> submitted_at row \<noteq> None))"
proof -
  have created: "\<exists>r. trades (w_db w2) = trades (w_db w) @ [r] \<and> identity r = identity t0 \<and>
      submitted_at r = None \<and> t_id t0 = trade_seq (w_db w) \<and> user_id t0 \<in> u_id ` set (users (w_db w)) \<and>
      signal_id t0 = p_signal_id p \<and> client_order_id t0 = build_client_order_id (p_signal_id p) \<and>
      p_signal_id p \<notin> signal_id ` set (trades (w_db w)) \<and>
      client_order_id t0 \<notin> client_order_id ` set (trades (w_db w)) \<and>
      users (w_db w2) = users (w_db w) \<and> db_ok (w_db w2) \<and> requests w2 = requests w"
    if "resolve_trade_owner_id s w = (Inr owner, w1)" "create_pending_trade e p owner w1 = (Inr t0, w2)"
    for owner w1 t0 w2
    using create_pending_trade_row [OF that(2)] create_pending_trade_rest [OF that(2)]
      create_pending_trade_ok [OF that(2)] resolve_trade_owner_id_store [OF that(1)] assms(1)
    by auto
  from assms(2) show ?thesis
  proof (cases rule: testnet.process_signal_cases)
    case (queued owner w1 t0)
    then show ?thesis using created [OF queued(2,3)] by (auto simp: identity_def)
  next
    case (inline owner w1 t0 w2 cl w3)
    obtain r where r: "trades (w_db w2) = trades (w_db w) @ [r]" "identity r = identity t0"
        "t_id t0 = trade_seq (w_db w)" "db_ok (w_db w2)" "requests w2 = requests w"
        "users (w_db w2) = users (w_db w)"
      using created [OF inline(2,3)] by blast
    have tr: "t_id r = t_id t0" using identity_t_id [OF r(2)] .
    have old: "\<forall>x \<in> set (trades (w_db w)). t_id x \<noteq> t_id r"
      using assms(1) r(3) tr by (auto simp: db_ok_def list_all_iff)
    have claim: "only_rows {t_id r} (w_db w2) (w_db w3)"
      using claim_for_submission_only [OF inline(6)] tr by simp
    have ok3: "db_ok (w_db w3)" using only_rows_ok [OF claim r(4)] .
    have rest3: "requests w3 = requests w" using claim_for_submission_rest [OF inline(6)] r(5) by simp
    have main: "only_rows {t_id r} (w_db w2) (w_db w') \<and> row_key t = row_key t0 \<and>
        (requests w' \<noteq> requests w \<longrightarrow> submitted_in (trades (w_db w')) (t_id r))"
    proof (cases "\<exists>v. cl = Inr (Some v)")
      case False
      then have "t = t0 \<and> w' = w3" using inline(7) by (auto split: sum.splits option.splits)
      then show ?thesis using claim rest3 by simp
    next
      case True
      then obtain v where v: "cl = Inr (Some v)" by blast
      have won: "select_trade (t_id t0) (w_db w3) = Some v" "submitted_at v \<noteq> None"
        using claim_won inline(6) r(4) unfolding v by blast+
      have sub: "submit_to_binance e (binance_client e c) v w3 = (Inr t, w')" using inline(7) v by simp
      note eff = testnet.submit_to_binance_effect(5,6) [OF sub ok3]
      have vid: "v \<in> set (trades (w_db w3))" "t_id v = t_id r" using select_trade_in [OF won(1)] tr by auto
      have "submitted_in (trades (w_db w3)) (t_id r)"
        using vid won(2) by (auto simp: submitted_in_def list_ex_iff)
      then have "submitted_in (trades (w_db w')) (t_id r)" using submitted_in_identity [OF eff(2)] by simp
      moreover have "only_rows {t_id r} (w_db w2) (w_db w')"
        using only_rows_trans [OF claim] eff(1) vid(2) by simp
      moreover have "row_key t = row_key t0"
      proof -
        obtain x where x: "trades (w_db w3) = trades (w_db w) @ [x]" "row_key x = row_key r"
          using only_rows_last [OF claim r(1) old] by blast
        have "v = x" using trades_ok_inject [of "trades (w_db w3)" v x] ok3 vid x
          by (simp add: db_ok_def row_key_def)
        then show ?thesis using submit_to_binance_identity [OF sub] x(2) r(2) by (simp add: identity_def)
      qed
      ultimately show ?thesis by simp
    qed
    obtain x where x: "trades (w_db w') = trades (w_db w) @ [x]" "row_key x = row_key r"
      using only_rows_last [OF _ r(1) old, of "w_db w'"] main by blast
    have "db_ok (w_db w')" using main only_rows_ok r(4) by blast
    moreover have "users (w_db w') = users (w_db w)" using main r(6) by (simp add: only_rows_def)
    moreover have "submitted_at x \<noteq> None" if "requests w' \<noteq> requests w"
      using main that x old by (auto simp: submitted_in_def list_ex_iff row_key_def)
    moreover have "row_key x = row_key t" using x(2) r(2) main by (simp add: identity_def)
    ultimately show ?thesis
      using created [OF inline(2,3)] x(1) main by (auto simp: row_key_def)
  qed simp_all
qed

text \<open>The orders and the queue entries of one call.\<close>

lemma process_signal_orders:
  assumes "process_signal e (binance_client e c) s rid p q w = (Inr t, q', w')"
  shows "orders_for (build_client_order_id (p_signal_id p)) w' \<le> orders_for (build_client_order_id (p_signal_id p)) w + 1 \<and>
    order_count w' \<le> order_count w + 1 \<and>
    (WEBHOOK_ASYNC_EXECUTION s \<longrightarrow> requests w' = requests w \<and>
       items q' = (if queue_full q then items q else items q @ [(t_id t, rid)]))"
  using assms
proof (cases rule: testnet.process_signal_cases)
  case (queued owner w1 t0)
  then have "requests w' = requests w"
    using create_pending_trade_rest resolve_trade_owner_id_store by metis
  then show ?thesis using queued(5,6) by (simp add: orders_for_def order_count_def submit_items)
next
  case (inline owner w1 t0 w2 cl w3)
  have r3: "requests w3 = requests w"
    using create_pending_trade_rest [OF inline(3)] resolve_trade_owner_id_store [OF inline(2)]
      claim_for_submission_rest [OF inline(6)] by simp
  then have c3: "orders_for k w3 = orders_for k w" "order_count w3 = order_count w" for k
    by (simp_all add: orders_for_def order_count_def)
  show ?thesis
  proof (cases "\<exists>v. cl = Inr (Some v)")
    case False
    then have "w' = w3" using inline(7) by (auto split: sum.splits option.splits)
    then show ?thesis using c3 inline(4) by simp
  next
    case True
    then obtain v where "submit_to_binance e (binance_client e c) v w3 = (Inr t, w')"
      using inline(7) by auto
    note eff = testnet.submit_to_binance_effect(1-3) [OF this]
    have "orders_for (build_client_order_id (p_signal_id p)) w' \<le> orders_for (build_client_order_id (p_signal_id p)) w3 + 1"
      using eff(1,2) by (cases "(build_client_order_id (p_signal_id p)) = client_order_id v") auto
    then show ?thesis using c3 eff(3) inline(4) by simp
  qed
qed simp_all

text \<open>
  C9. Accepting a signal makes it durable: the table gains exactly one row, which belongs to a
  registered user and has the signal's id and its deterministic client order id; both ids were new; and
  if a request was sent at all, the row was marked as submitted and the request is the only order for
  that client order id. In queued mode nothing is sent and the trade's id is queued if there is room.
\<close>
theorem accepted_signal_is_durable:
  assumes "db_ok (w_db w)" "process_signal e (binance_client e c) s rid p q w = (Inr t, q', w')"
  shows "db_ok (w_db w') \<and>
    (\<exists>row. trades (w_db w') = trades (w_db w) @ [row] \<and> row_key row = row_key t \<and>
       user_id row \<in> u_id ` set (users (w_db w)) \<and> signal_id row = p_signal_id p \<and>
       client_order_id row = build_client_order_id (p_signal_id p) \<and>
       p_signal_id p \<notin> signal_id ` set (trades (w_db w)) \<and>
       (requests w' \<noteq> requests w \<longrightarrow> submitted_at row \<noteq> None)) \<and>
    orders_for (build_client_order_id (p_signal_id p)) w' \<le> orders_for (build_client_order_id (p_signal_id p)) w + 1 \<and>
    order_count w' \<le> order_count w + 1 \<and>
    (WEBHOOK_ASYNC_EXECUTION s \<longrightarrow> requests w' = requests w \<and>
       items q' = (if queue_full q then items q else items q @ [(t_id t, rid)]))"
proof -
  note row = process_signal_row [OF assms]
  show ?thesis using row process_signal_orders [OF assms(2)] by (auto simp: row_key_def)
qed

text \<open>
  C3. A signal is processed once: after it has been accepted, and after any other statements of any
  session, the same signal id is never accepted again - the tables' trades, the queue and the log of
  requests are untouched, and when the answer is a \<open>DuplicateSignalError\<close> it names the trade of the
  first acceptance.
\<close>
theorem signal_processed_once:
  assumes "db_ok (w_db w)" "process_signal e (binance_client e c) s rid p q w = (Inr t, q1, w1)"
    "db_step\<^sup>*\<^sup>* (w_db w1) (w_db w2)" "p_signal_id p' = p_signal_id p"
    "process_signal e' (binance_client e' c') s' rid' p' q2 w2 = (r, q3, w3)"
  shows "trades (w_db w3) = trades (w_db w2) \<and> requests w3 = requests w2 \<and> q3 = q2 \<and>
    (case r of
       Inl (AppExn x) \<Rightarrow> ae_class x = DuplicateSignalError \<longrightarrow> existing_trade_id x = Some (t_id t)
     | Inl (SqlExn x) \<Rightarrow> True
     | _ \<Rightarrow> False)"
proof -
  obtain row where row: "db_ok (w_db w1)" "trades (w_db w1) = trades (w_db w) @ [row]"
      "row_key row = row_key t" "signal_id t = p_signal_id p"
    using process_signal_row [OF assms(1,2)] by blast
  have "row \<in> set (trades (w_db w1))" by (simp only: row(2) set_append list.set) simp
  note first = row(1) this row(3,4)
  from db_steps_keys [OF assms(3) first(1)] have later: "db_ok (w_db w2)"
      "row_key t \<in> row_key ` set (trades (w_db w2))" using first(2,3) by (auto, metis image_eqI subsetD)
  then obtain row2 where row2: "row2 \<in> set (trades (w_db w2))" "row_key row2 = row_key t" by auto
  then have sig: "signal_id row2 = p_signal_id p'" "t_id row2 = t_id t"
    using first(4) assms(4) by (simp_all add: row_key_def)
  have dup: "trades (w_db v') = trades (w_db w2) \<and> requests v' = requests w2 \<and>
      (x = Inl (AppExn (duplicate_signal_error (Some (t_id t)))) \<or> (\<exists>y. x = Inl (SqlExn y)))"
    if "resolve_trade_owner_id s' w2 = (Inr owner, v)" "create_pending_trade e' p' owner v = (x, v')"
    for owner v x v'
    using create_pending_trade_duplicate [OF _ _ sig(1) that(2)] resolve_trade_owner_id_store [OF that(1)]
      create_pending_trade_rest [OF that(2)] later(1) row2(1) sig(2) by simp
  from assms(5) show ?thesis
  proof (cases rule: testnet.process_signal_cases)
    case (invalid x)
    then obtain m where "x = business_error m" by (metis validate_signal_error)
    then show ?thesis using invalid by (simp add: business_error_def make_error_def)
  next
    case (ownerless x)
    then show ?thesis using ownerless_error by (fastforce simp: make_error_def)
  next
    case (refused x owner v)
    then show ?thesis using dup [OF refused(2,3)] by (auto simp: duplicate_signal_error_def make_error_def)
  next
    case (queued owner v t0)
    then show ?thesis using dup [OF queued(2,3)] by simp
  next
    case (inline owner v t0 v2 cl v3)
    then show ?thesis using dup [OF inline(2,3)] by simp
  qed
qed

section \<open>The example of the test suite\<close>

definition queued_settings :: settings where
  "queued_settings = test_settings\<lparr>WEBHOOK_ASYNC_EXECUTION := True\<rparr>"

lemma test_signal_valid: "validate_signal queued_settings test_payload = Inr ()"
proof -
  have "allowed_symbols queued_settings = {''BTCUSDT'', ''ETHUSDT''}"
    unfolding allowed_symbols_def queued_settings_def test_settings_def by code_simp
  moreover have "\<not> dec_less (Fin False 1 (- 3)) (Fin False 1 (- 5))"
    "\<not> dec_less (Fin False 10 (- 1)) (Fin False 1 (- 3))" by code_simp+
  ultimately show ?thesis
    by (simp add: validate_signal_def test_payload_def) (simp add: queued_settings_def test_settings_def)
qed

lemma test_quantity_stored: "numeric_28_12 (Fin False (Suc 0) (- 3)) = Some (Fin False 1000000000 (- 12))"
  by (simp add: numeric_28_12.simps)

lemma test_trade_created:
  "\<exists>t w'. create_pending_trade (test_env out) test_payload 1 (test_world\<lparr>owner_cache := Some 1\<rparr>) = (Inr t, w')"
proof -
  have cid: "length (build_client_order_id ''sig-1'') \<le> 36"
    using build_client_order_id_length [of "''sig-1''"] by simp
  have row: "store_row ((new_trade test_payload 1 a b)\<lparr>t_id := 1\<rparr>) \<noteq> None" for a b
    using cid build_client_order_id_nul_free by (simp add: store_row_def new_trade_def test_payload_def bigint_ok_def varchar_ok_def
        numeric_opt_def test_quantity_stored)
  then obtain r where "store_row ((new_trade test_payload 1 (int 0) (int 1))\<lparr>t_id := 1\<rparr>) = Some r" by blast
  then have "\<exists>t d. insert_trade (new_trade test_payload 1 (int 0) (int 1)) test_db = (Inr t, d)"
    by (simp add: insert_trade_def test_db_def Let_def) (simp add: new_trade_def test_owner_def)
  then show ?thesis
    by (auto simp: create_pending_trade_def utc_now_def db_commit_def test_world_def advance_def)
qed

lemma test_signal_accepted:
  "\<exists>t q' w'. process_signal (test_env out) api queued_settings rid test_payload q test_world = (Inr t, q', w')"
proof -
  have "select_user_by_email (WEBHOOK_TRADE_OWNER_EMAIL queued_settings) (w_db test_world) = Some test_owner"
    by (simp add: select_user_by_email_def queued_settings_def test_settings_def test_world_def test_db_def test_owner_def)
  then have "resolve_trade_owner_id queued_settings test_world = (Inr 1, test_world\<lparr>owner_cache := Some 1\<rparr>)"
    by (simp add: resolve_trade_owner_id_def) (simp add: test_world_def test_owner_def)
  then show ?thesis
    using test_signal_valid test_trade_created [of out]
    by (auto simp: process_signal_def queued_settings_def)
qed

theorem accepted_signal_is_durable_witness:
  "\<exists>t q' w' row. process_signal (test_env filled_answer) (binance_client (test_env filled_answer) test_client)
      queued_settings ''rid'' test_payload (new_queue 10) test_world = (Inr t, q', w') \<and>
     trades (w_db w') = [row] \<and> signal_id row = ''sig-1'' \<and> items q' = [(t_id t, ''rid'')]"
proof -
  obtain t q' w' where p: "process_signal (test_env filled_answer)
      (binance_client (test_env filled_answer) test_client)
      queued_settings ''rid'' test_payload (new_queue 10) test_world = (Inr t, q', w')"
    using test_signal_accepted by blast
  have "db_ok (w_db test_world)" using test_db_ok by (simp add: test_world_def)
  from accepted_signal_is_durable [OF this p] p show ?thesis
    by (auto simp: test_world_def test_db_def test_payload_def queued_settings_def new_queue_def queue_full_def)
qed

theorem signal_processed_once_witness:
  "\<exists>t q1 w1 r q3 w3.
     process_signal (test_env filled_answer) (binance_client (test_env filled_answer) test_client)
       queued_settings ''rid'' test_payload (new_queue 10) test_world = (Inr t, q1, w1) \<and>
     process_signal (test_env filled_answer) (binance_client (test_env filled_answer) test_client)
       queued_settings ''rid'' test_payload q1 w1 = (r, q3, w3) \<and>
     trades (w_db w3) = trades (w_db w1) \<and> q3 = q1 \<and> (\<forall>v. r \<noteq> Inr v)"
proof -
  let ?api = "binance_client (test_env filled_answer) test_client"
  obtain t q1 w1 where p: "process_signal (test_env filled_answer) ?api
      queued_settings ''rid'' test_payload (new_queue 10) test_world = (Inr t, q1, w1)"
    using test_signal_accepted by blast
  obtain r q3 w3 where again: "process_signal (test_env filled_answer) ?api
      queued_settings ''rid'' test_payload q1 w1 = (r, q3, w3)"
    using prod_cases3 by blast
  have "db_ok (w_db test_world)" using test_db_ok by (simp add: test_world_def)
  from signal_processed_once [OF this p rtranclp.rtrancl_refl refl again] p again show ?thesis
    by (auto split: sum.splits)
qed

section \<open>Commits of one object\<close>

lemma commit_or_raise_lost:
  assumes "commit_or_raise e old new w = (Inl y, w')"
  shows "w_db w' = w_db w \<or> y = SqlExn OperationalError \<and> (\<exists>v. commit_or_raise (heard e) old new w = (Inr v, w'))"
proof -
  obtain x where "commit_object e old new w = (Inl x, w')" "y = SqlExn x"
    using assms unfolding commit_or_raise_def by (auto split: prod.splits sum.splits)
  then show ?thesis using commit_object_lost by (fastforce simp: commit_or_raise_def)
qed

lemma commit_or_raise_tick: "commit_or_raise e old new w = (Inr v, w') \<Longrightarrow> tick w' = tick w + 2"
  unfolding commit_or_raise_iff commit_object_def utc_now_def db_commit_def
  by (auto simp: advance_def split: prod.splits sum.splits if_splits)

lemma commit_or_raise_fresh:
  assumes "db_ok (w_db w)" "commit_or_raise e t new w = (Inr v, w')" "identity new = identity t"
    "select_trade (t_id t) (w_db w) = Some row" "loaded t row"
  shows "\<exists>s. select_trade (t_id t) (w_db w') = Some s \<and> loaded v s \<and> status v = status new \<and>
    identity v = identity t"
  using commit_object_fresh [of w e t new v w' row] assms unfolding commit_or_raise_iff
  by (auto simp: loaded_def)

lemma test_quantity_text: "format_decimal (Fin False 1000000000 (- 12)) = Inr ''0.001''"
proof -
  have a: "format_decimal (Fin False 1 (- 3)) = Inr ''0.001''" by code_simp
  have "format_decimal (Fin False 1000000000 (- 12)) = format_decimal (Fin False 1 (- 3))"
    using stored_quantity [of 1 "- 3" "Fin False 1000000000 (- 12)"] test_quantity_stored
    by (simp add: e_top_def)
  then show ?thesis using a by simp
qed

end
