(* ===== verification/Executor.thy ===== *)
theory Executor
  imports Trading_Contract
begin

text \<open>
  \<open>app/services/execution_queue.py\<close>: the executor with its queue, its workers and its lazily made client
  (startup and shutdown, which drive it, are in theory Lifespan). A worker's turn is
  one definition: take a job, execute it, swallow whatever it raises, mark the job done. Workers
  running side by side are the subject of theory Interleaving.

  The lemmas show that a turn leaves the job's trade claimed when its COMMIT goes through, and that
  resuming and draining after a restart leaves no unsubmitted trade that there was room for.
\<close>

section \<open>The executor\<close>

record executor =
  worker_count :: int
  ex_queue :: job_queue
  live_workers :: nat
  ex_binance :: "client option"
  ex_running :: bool

text \<open>\<open>value or default\<close> for an optional integer.\<close>

definition or_int :: "int option \<Rightarrow> int \<Rightarrow> int" where
  "or_int x d = (case x of None \<Rightarrow> d | Some i \<Rightarrow> if i = 0 then d else i)"

definition make_executor :: "settings \<Rightarrow> int option \<Rightarrow> int option \<Rightarrow> executor" where
  "make_executor s workers queue_size =
     \<lparr>worker_count = or_int workers (EXECUTOR_WORKERS s),
      ex_queue = new_queue (or_int queue_size (EXECUTOR_QUEUE_SIZE s)),
      live_workers = 0, ex_binance = None, ex_running = False\<rparr>"

definition start :: "executor \<Rightarrow> executor" where
  "start x = (if ex_running x then x else x\<lparr>ex_running := True, live_workers := nat (worker_count x)\<rparr>)"

text \<open>
  The state change of \<open>stop\<close>, once the queue was joined or the timeout hit: the workers are cancelled
  and the client is dropped. Jobs still queued then die with the process.
\<close>

definition stop :: "executor \<Rightarrow> executor" where
  "stop x = (if \<not> ex_running x then x
     else x\<lparr>ex_running := False, live_workers := 0, ex_binance := None\<rparr>)"

definition executor_submit :: "int \<Rightarrow> string \<Rightarrow> executor \<Rightarrow> bool \<times> executor" where
  "executor_submit tid rid x = (let (b, q) = submit tid rid (ex_queue x) in (b, x\<lparr>ex_queue := q\<rparr>))"

text \<open>The query of \<open>resume_pending\<close>, in the order of the ids, and its loop.\<close>

definition unsubmitted :: "trade \<Rightarrow> bool" where
  "unsubmitted t = (status t = PENDING \<and> submitted_at t = None)"

definition unsubmitted_ids :: "nat \<Rightarrow> db \<Rightarrow> int list" where
  "unsubmitted_ids limit d = take limit (sort (map t_id (filter unsubmitted (trades d))))"

definition resume_pending :: "db \<Rightarrow> string \<Rightarrow> job_queue \<Rightarrow> nat \<times> job_queue" where
  "resume_pending d rid q =
     (let ids = unsubmitted_ids (nat (maxsize q)) d in (length ids, submit_all ids rid q))"

definition get_binance :: "(unit \<Rightarrow> (exn, client) result) \<Rightarrow> executor \<Rightarrow> (exn, client) result \<times> executor" where
  "get_binance factory x =
     (case ex_binance x of
        Some c \<Rightarrow> (Inr c, x)
      | None \<Rightarrow> (case factory () of Inl y \<Rightarrow> (Inl y, x) | Inr c \<Rightarrow> (Inr c, x\<lparr>ex_binance := Some c\<rparr>)))"

section \<open>Consuming\<close>

definition execute :: "env \<Rightarrow> binance_api \<Rightarrow> int \<Rightarrow> world \<Rightarrow> (exn, unit) result \<times> world" where
  "execute e api tid w =
     (case claim_for_submission e tid w of
        (Inl x, w1) \<Rightarrow> (Inl x, w1)
      | (Inr None, w1) \<Rightarrow> (Inr (), w1)
      | (Inr (Some t), w1) \<Rightarrow>
          (case submit_to_binance e api t w1 of (Inl x, w2) \<Rightarrow> (Inl x, w2) | (Inr _, w2) \<Rightarrow> (Inr (), w2)))"

text \<open>
  One turn of \<open>_worker\<close>: None while the queue is empty; the flag says whether the worker lives on, which
  only an unbalanced \<open>task_done\<close> could end.
\<close>

definition worker_turn :: "env \<Rightarrow> binance_api \<Rightarrow> job_queue \<Rightarrow> world \<Rightarrow> (bool \<times> job_queue \<times> world) option" where
  "worker_turn e api q w =
     (case queue_get q of
        None \<Rightarrow> None
      | Some ((tid, rid), q1) \<Rightarrow>
          (let w1 = snd (execute e api tid w)
           in case task_done q1 of None \<Rightarrow> Some (False, q1, w1) | Some q2 \<Rightarrow> Some (True, q2, w1)))"

text \<open>A worker left to itself, for as many turns as the fuel allows.\<close>

fun run_worker :: "nat \<Rightarrow> env \<Rightarrow> binance_api \<Rightarrow> job_queue \<Rightarrow> world \<Rightarrow> job_queue \<times> world" where
  "run_worker 0 e api q w = (q, w)"
| "run_worker (Suc n) e api q w =
     (case worker_turn e api q w of
        None \<Rightarrow> (q, w)
      | Some (True, q1, w1) \<Rightarrow> run_worker n e api q1 w1
      | Some (False, q1, w1) \<Rightarrow> (q1, w1))"

section \<open>Lemmas\<close>

lemma start_idempotent: "start (start x) = start x"
  by (simp add: start_def)

lemma task_done_ok: "queue_ok q \<Longrightarrow> queue_get q = Some (x, q1) \<Longrightarrow> \<exists>q2. task_done q1 = Some q2 \<and> queue_ok q2 \<and> items q2 = items q1"
  by (auto simp: queue_ok_def queue_get_def task_done_def jobs.within_def queue_bound_def split: list.splits)

text \<open>The ids a worker may still claim.\<close>

definition claimable_ids :: "db \<Rightarrow> int set" where
  "claimable_ids d = t_id ` set (filter unsubmitted (trades d))"

lemma claimable_unsubmitted: "claimable tid t \<longleftrightarrow> t_id t = tid \<and> unsubmitted t"
  by (simp add: claimable_def unsubmitted_def)

lemma claimable_ids_empty: "filter (claimable tid) (trades d) = [] \<longleftrightarrow> tid \<notin> claimable_ids d"
  by (auto simp: claimable_ids_def filter_empty_conv claimable_unsubmitted)

lemma update_claim_ids:
  assumes "update_claim tid now d = (n, d')"
  shows "claimable_ids d' = claimable_ids d - {tid}"
proof -
  have t: "trades d' = map (\<lambda>t. if claimable tid t then mark_submitted now t else t) (trades d)"
    using update_claim_law [OF assms] by simp
  have "set (filter unsubmitted (trades d')) = set (filter (\<lambda>t. t_id t \<noteq> tid) (filter unsubmitted (trades d)))"
    unfolding t by (auto simp: claimable_unsubmitted unsubmitted_def mark_submitted_def)
  then show ?thesis by (auto simp: claimable_ids_def)
qed

lemma only_rows_claimable:
  assumes "only_rows {tid} d d'" "tid \<notin> claimable_ids d'" "tid \<notin> claimable_ids d"
  shows "claimable_ids d' = claimable_ids d"
proof -
  have "set (filter unsubmitted (trades d')) \<subseteq> {r. t_id r \<noteq> tid}" "set (filter unsubmitted (trades d)) \<subseteq> {r. t_id r \<noteq> tid}"
    using assms(2,3) by (auto simp: claimable_ids_def)
  then have "r \<in> set (filter unsubmitted (trades d')) \<longleftrightarrow> r \<in> set (filter unsubmitted (trades d))" for r
    using only_rows_other [OF assms(1), of r] by auto
  then have "set (filter unsubmitted (trades d')) = set (filter unsubmitted (trades d))" by blast
  then show ?thesis by (simp only: claimable_ids_def)
qed

lemma submitted_not_claimable:
  assumes "db_ok d" "submitted_in (trades d) tid"
  shows "tid \<notin> claimable_ids d"
proof
  assume "tid \<in> claimable_ids d"
  then obtain r where r: "r \<in> set (trades d)" "t_id r = tid" "submitted_at r = None"
    by (auto simp: claimable_ids_def unsubmitted_def)
  obtain s where s: "s \<in> set (trades d)" "t_id s = tid" "submitted_at s \<noteq> None"
    using assms(2) by (auto simp: submitted_in_def list_ex_iff)
  have "r = s" using trades_ok_inject [of "trades d" r s] assms(1) r s by (simp add: db_ok_def)
  then show False using r s by simp
qed

lemma execute_effect:
  assumes "db_ok (w_db w)" "execute e (binance_client e c) tid w = (r, w')"
  shows "db_ok (w_db w')" "claimable_ids (w_db w') \<subseteq> claimable_ids (w_db w)"
    "(\<And>n. commit_ok e n) \<Longrightarrow> claimable_ids (w_db w') = claimable_ids (w_db w) - {tid}"
    "tid \<notin> claimable_ids (w_db w) \<Longrightarrow> requests w' = requests w \<and> trades (w_db w') = trades (w_db w)"
proof -
  obtain cl w1 where cl: "claim_for_submission e tid w = (cl, w1)" by (cases "claim_for_submission e tid w") auto
  have ok1: "db_ok (w_db w1)" using claim_keeps_ok [OF cl assms(1)] .
  have ids1: "w_db w1 = w_db w \<and> (\<exists>n. \<not> commit_ok e n) \<or> claimable_ids (w_db w1) = claimable_ids (w_db w) - {tid}"
    using cl
  proof (cases rule: claim_for_submission_cases)
    case (failed x)
    have "\<exists>n. \<not> commit_ok e n"
      using cl failed(1) unfolding claim_for_submission_def db_commit_def claim_stmt_def utc_now_def
      by (auto split: prod.splits sum.splits if_splits)
    then show ?thesis using failed by simp
  next
    case (claimed n now d)
    then show ?thesis using update_claim_ids by simp
  next
    case (unheard n now d)
    then show ?thesis using update_claim_ids by simp
  qed
  have "db_ok (w_db w') \<and> claimable_ids (w_db w') = claimable_ids (w_db w1) \<and>
    ((\<exists>t. cl = Inr (Some t)) \<or> w' = w1)"
  proof (cases "\<exists>t. cl = Inr (Some t)")
    case False
    then have "w' = w1" using assms(2) cl by (auto simp: execute_def split: sum.splits option.splits)
    then show ?thesis using ok1 by simp
  next
    case True
    then obtain t where t: "cl = Inr (Some t)" by blast
    obtain x where s: "submit_to_binance e (binance_client e c) t w1 = (x, w')"
      using assms(2) cl t by (auto simp: execute_def split: sum.splits prod.splits)
    note eff = testnet.submit_to_binance_effect(5,6) [OF s ok1]
    have won: "select_trade tid (w_db w1) = Some t" "submitted_at t \<noteq> None"
      using claim_won assms(1) cl unfolding t by blast+
    have tid: "t \<in> set (trades (w_db w1))" "t_id t = tid" using select_trade_in [OF won(1)] by auto
    have ok2: "db_ok (w_db w')" using only_rows_ok [OF eff(1) ok1] .
    have sub: "submitted_in (trades (w_db w1)) tid"
      using tid won(2) by (auto simp: submitted_in_def list_ex_iff)
    then have "submitted_in (trades (w_db w')) tid" using submitted_in_identity [OF eff(2)] by simp
    then have "claimable_ids (w_db w') = claimable_ids (w_db w1)"
      using only_rows_claimable [of tid "w_db w1" "w_db w'"] eff(1) tid(2)
        submitted_not_claimable [OF ok2] submitted_not_claimable [OF ok1 sub] by simp
    then show ?thesis using ok2 True by simp
  qed
  note main = this
  show "db_ok (w_db w')" using main by blast
  show "claimable_ids (w_db w') \<subseteq> claimable_ids (w_db w)" using main ids1 by auto
  show "claimable_ids (w_db w') = claimable_ids (w_db w) - {tid}" if "\<And>n. commit_ok e n"
    using main ids1 that by auto
  show "requests w' = requests w \<and> trades (w_db w') = trades (w_db w)" if none: "tid \<notin> claimable_ids (w_db w)"
  proof -
    have "trades (w_db w1) = trades (w_db w) \<and> (\<forall>t. cl \<noteq> Inr (Some t))"
      using cl
    proof (cases rule: claim_for_submission_cases)
      case (claimed n now d)
      have "filter (claimable tid) (trades (w_db w)) = []" using none claimable_ids_empty by blast
      then have "n = 0 \<and> trades d = trades (w_db w)"
        using update_claim_law [OF claimed(1)] by (auto simp: filter_empty_conv intro: map_idI)
      then show ?thesis using claimed by simp
    next
      case (unheard n now d)
      have "filter (claimable tid) (trades (w_db w)) = []" using none claimable_ids_empty by blast
      then have "trades d = trades (w_db w)"
        using update_claim_law [OF unheard(1)] by (auto simp: filter_empty_conv intro: map_idI)
      then show ?thesis using unheard by simp
    qed simp
    then show ?thesis using main claim_for_submission_rest [OF cl] by auto
  qed
qed

section \<open>The contract of the executor\<close>

text \<open>
  C22. A worker never dies and never skips: on a sound queue each turn takes the oldest job, survives
  whatever the execution raises, balances \<open>task_done\<close>, and keeps the queue within its bound and the
  tables' integrity; a turn for a trade somebody else claimed sends nothing and writes nothing.
\<close>
theorem worker_turn_is_safe:
  assumes "queue_ok q" "db_ok (w_db w)" "worker_turn e (binance_client e c) q w = Some (alive, q', w')"
  shows "alive \<and> queue_ok q' \<and> db_ok (w_db w') \<and>
    (\<exists>tid rid. items q = (tid, rid) # items q' \<and>
       (tid \<notin> claimable_ids (w_db w) \<longrightarrow> requests w' = requests w \<and> trades (w_db w') = trades (w_db w)))"
proof -
  obtain tid rid q1 where q1: "queue_get q = Some ((tid, rid), q1)"
    using assms(3) by (auto simp: worker_turn_def split: option.splits)
  obtain r w1 where x: "execute e (binance_client e c) tid w = (r, w1)"
    by (cases "execute e (binance_client e c) tid w") auto
  obtain q2 where q2: "task_done q1 = Some q2" "queue_ok q2" "items q2 = items q1"
    using task_done_ok [OF assms(1) q1] by blast
  have "alive \<and> q' = q2 \<and> w' = w1" using assms(3) q1 x q2(1) by (auto simp: worker_turn_def)
  then show ?thesis
    using q2 jobs.get_first [OF q1] execute_effect(1,4) [OF assms(2) x] by auto
qed

theorem worker_turn_is_safe_witness:
  "\<exists>q' w'. worker_turn (test_env TimedOut) (binance_client (test_env TimedOut) test_client)
      (snd (submit 9 ''rid'' (new_queue 10))) trade_world = Some (True, q', w') \<and>
    items q' = [] \<and> requests w' = []"
proof -
  let ?q = "snd (submit 9 ''rid'' (new_queue 10))"
  let ?t = "worker_turn (test_env TimedOut) (binance_client (test_env TimedOut) test_client) ?q trade_world"
  have ok: "queue_ok ?q" using submit_ok [OF new_queue_ok] by (metis prod.collapse)
  have items: "items ?q = [(9, ''rid'')]" by (simp add: submit_items new_queue_def queue_full_def)
  then have "?t \<noteq> None"
    by (cases "task_done (?q\<lparr>items := []\<rparr>)") (simp_all add: worker_turn_def queue_get_def Let_def)
  then obtain z where "?t = Some z" by blast
  then obtain a q' w' where t: "?t = Some (a, q', w')" by (cases z) auto
  have "9 \<notin> claimable_ids (w_db trade_world)"
    by (simp add: claimable_ids_def trade_world_def trade_db_def test_trade_def)
  then show ?thesis
    using worker_turn_is_safe [OF ok _ t] trade_db_ok items t by (auto simp: trade_world_def)
qed

lemma run_worker_drains:
  assumes "\<And>n. commit_ok e n"
  shows "queue_ok q \<Longrightarrow> db_ok (w_db w) \<Longrightarrow> length (items q) \<le> n \<Longrightarrow>
    run_worker n e (binance_client e c) q w = (q', w') \<Longrightarrow>
    items q' = [] \<and> db_ok (w_db w') \<and> claimable_ids (w_db w') = claimable_ids (w_db w) - fst ` set (items q)"
proof (induction n arbitrary: q w)
  case 0
  then show ?case by simp
next
  case (Suc n)
  show ?case
  proof (cases "items q")
    case Nil
    then have "worker_turn e (binance_client e c) q w = None" by (simp add: worker_turn_def queue_get_def)
    then show ?thesis using Suc.prems Nil by simp
  next
    case (Cons j js)
    obtain tid rid where j: "j = (tid, rid)" by (cases j) auto
    obtain q1 where q1: "queue_get q = Some ((tid, rid), q1)" using Cons j by (simp add: queue_get_def)
    obtain q2 where q2: "task_done q1 = Some q2" "queue_ok q2" "items q2 = items q1"
      using task_done_ok [OF Suc.prems(1) q1] by blast
    obtain r w1 where x: "execute e (binance_client e c) tid w = (r, w1)"
      by (cases "execute e (binance_client e c) tid w") auto
    have js: "items q1 = js" using jobs.get_first [OF q1] Cons by simp
    have "run_worker n e (binance_client e c) q2 w1 = (q', w')"
      using Suc.prems(4) q1 q2(1) x by (simp add: worker_turn_def)
    from Suc.IH [OF q2(2) _ _ this] Suc.prems(3)
    have "items q' = [] \<and> db_ok (w_db w') \<and> claimable_ids (w_db w') = claimable_ids (w_db w1) - fst ` set js"
      using execute_effect(1) [OF Suc.prems(2) x] q2(3) js Cons by simp
    then show ?thesis using execute_effect(3) [OF Suc.prems(2) x assms] Cons j by auto
  qed
qed

lemma unsubmitted_ids_set: "set (unsubmitted_ids n d) \<subseteq> claimable_ids d"
  by (auto simp: unsubmitted_ids_def claimable_ids_def dest: in_set_takeD)

lemma unsubmitted_ids_all: "length (filter unsubmitted (trades d)) \<le> n \<Longrightarrow> set (unsubmitted_ids n d) = claimable_ids d"
  by (simp add: unsubmitted_ids_def claimable_ids_def)

lemma resume_items:
  assumes "0 < m" "resume_pending d rid (new_queue m) = (k, q)"
  shows "items q = map (\<lambda>i. (i, rid)) (unsubmitted_ids (nat m) d)" "k = length (unsubmitted_ids (nat m) d)"
    "queue_ok q" "k \<le> nat m"
proof -
  have q: "q = submit_all (unsubmitted_ids (nat m) d) rid (new_queue m)" "k = length (unsubmitted_ids (nat m) d)"
    using assms(2) by (simp_all add: resume_pending_def new_queue_def Let_def)
  have len: "length (unsubmitted_ids (nat m) d) \<le> nat m" by (simp add: unsubmitted_ids_def)
  show "items q = map (\<lambda>i. (i, rid)) (unsubmitted_ids (nat m) d)"
    using submit_all_items [of "new_queue m" "unsubmitted_ids (nat m) d" rid] assms(1) len
    by (simp add: q(1) new_queue_def)
  show "k = length (unsubmitted_ids (nat m) d)" "k \<le> nat m" using q(2) len by simp_all
  show "queue_ok q" unfolding q(1) by (rule submit_all_ok [OF new_queue_ok])
qed

text \<open>
  Recovery: after a restart, \<open>resume_pending\<close> queues the trades that were committed and never
  submitted, oldest id first and as many as the queue holds, and reports their number; when the COMMITs
  go through, one worker taking as many turns empties the queue and leaves none of these trades
  unsubmitted, whatever the exchange answers - and if the queue could hold them all, none at all.
\<close>
lemma resumed_trades_submitted:
  assumes "db_ok (w_db w)" "\<And>n. commit_ok e n" "0 < m"
    "resume_pending (w_db w) rid (new_queue m) = (k, q)"
    "run_worker (nat m) e (binance_client e c) q w = (q', w')"
  shows "map fst (items q) = unsubmitted_ids (nat m) (w_db w) \<and> k = length (items q) \<and> items q' = [] \<and>
    db_ok (w_db w') \<and>
    claimable_ids (w_db w') = claimable_ids (w_db w) - set (unsubmitted_ids (nat m) (w_db w)) \<and>
    (length (filter unsubmitted (trades (w_db w))) \<le> nat m \<longrightarrow> claimable_ids (w_db w') = {})"
proof -
  note r = resume_items [OF assms(3,4)]
  have ids: "map fst (items q) = unsubmitted_ids (nat m) (w_db w)" by (simp add: r(1) o_def)
  have d: "items q' = [] \<and> db_ok (w_db w') \<and> claimable_ids (w_db w') = claimable_ids (w_db w) - fst ` set (items q)"
    using run_worker_drains [OF assms(2) r(3) assms(1) _ assms(5)] r(1,2,4) by simp
  have "fst ` set (items q) = set (unsubmitted_ids (nat m) (w_db w))" using ids by (metis list.set_map)
  then show ?thesis using d ids r(1,2) unsubmitted_ids_all [of "w_db w" "nat m"] by auto
qed

end
