(* ===== verification/Interleaving.thy ===== *)
theory Interleaving
  imports Executor
begin

text \<open>
  The running system: requests, executor workers and reconciliation side by side on one event loop,
  together with any other process on the same database (\<open>scripts/reconcile.py\<close>). Control changes hands at
  the \<open>await\<close> of an HTTP call or a COMMIT, so each handler is cut into the phases between them; a task
  is what a handler still has to do. The phases are shown to compose to the handlers of the earlier
  theories. Everything in memory - queue, tasks, the cached owner - may be lost at any moment.

  The invariant: for each client order id, the orders sent plus the orders about to be sent are at
  most one, and none without a committed row that is marked as submitted.
\<close>

section \<open>Phases\<close>

datatype task =
  Claim int
| Place trade
| Record trade "(exn, order_result) result"
| Ask trade
| Note trade "order_result option"

fun is_uncertain :: "(exn, order_result) result \<Rightarrow> bool" where
  "is_uncertain (Inl (BinanceExn (Uncertain _ _ _))) = True"
| "is_uncertain _ = False"

definition uncertain_error :: "(exn, order_result) result \<Rightarrow> binance_error" where
  "uncertain_error x = (case x of Inl (BinanceExn y) \<Rightarrow> y | _ \<Rightarrow> Uncertain [] JNull None)"

text \<open>One phase: what is left to do after it, and the world.\<close>

fun run_task :: "env \<Rightarrow> binance_api \<Rightarrow> task \<Rightarrow> world \<Rightarrow> task list \<times> world" where
  "run_task e api (Claim tid) w =
     (case claim_for_submission e tid w of
        (Inr (Some t), w1) \<Rightarrow> ([Place t], w1)
      | (_, w1) \<Rightarrow> ([], w1))"
| "run_task e api (Place t) w =
     (let (x, w1) = api_place api (symbol t) (side_value (side t)) (quantity t) (client_order_id t) w
      in ([Record t x], w1))"
| "run_task e api (Record t x) w =
     (if is_uncertain x then
        (case commit_or_raise e t (unknown_object (uncertain_error x) t) w of
           (Inl _, w1) \<Rightarrow> ([], w1) | (Inr t1, w1) \<Rightarrow> ([Ask t1], w1))
      else ([], snd (record_outcome e api t x w)))"
| "run_task e api (Ask t) w =
     (if is_terminal t then ([], w)
      else case api_query api (symbol t) (client_order_id t) w of
             (Inl _, w1) \<Rightarrow> ([], w1) | (Inr a, w1) \<Rightarrow> ([Note t a], w1))"
| "run_task e api (Note t a) w =
     (let (now, w1) = utc_now e w in ([], snd (commit_object e t (reconciled_object a now t) w1)))"

text \<open>A handler on its own: its phases one after the other.\<close>

fun run_phases :: "nat \<Rightarrow> env \<Rightarrow> binance_api \<Rightarrow> task list \<Rightarrow> world \<Rightarrow> world" where
  "run_phases (Suc n) e api (k # ks) w =
     (let (new, w1) = run_task e api k w in run_phases n e api (new @ ks) w1)"
| "run_phases _ e api _ w = w"

section \<open>The system\<close>

record system =
  world :: world
  jobs :: job_queue
  tasks :: "task list"

text \<open>What \<open>process_signal\<close> does before the order: everything up to the durable row.\<close>

definition accept_signal :: "env \<Rightarrow> settings \<Rightarrow> payload \<Rightarrow> world \<Rightarrow> (exn, trade) result \<times> world" where
  "accept_signal e s p w =
     (case validate_signal s p of
        Inl x \<Rightarrow> (Inl x, w)
      | Inr _ \<Rightarrow>
          (case resolve_trade_owner_id s w of
             (Inl x, w1) \<Rightarrow> (Inl x, w1)
           | (Inr owner, w1) \<Rightarrow> create_pending_trade e p owner w1))"

definition receive :: "env \<Rightarrow> settings \<Rightarrow> string \<Rightarrow> payload \<Rightarrow> system \<Rightarrow> system" where
  "receive e s rid p S =
     (case accept_signal e s p (world S) of
        (Inl _, w1) \<Rightarrow> S\<lparr>world := w1\<rparr>
      | (Inr t, w1) \<Rightarrow>
          if WEBHOOK_ASYNC_EXECUTION s then S\<lparr>world := w1, jobs := snd (submit (t_id t) rid (jobs S))\<rparr>
          else S\<lparr>world := w1, tasks := tasks S @ [Claim (t_id t)]\<rparr>)"

text \<open>
  The steps. \<open>load\<close> is a reconciliation that has just read a trade, by the endpoint or by a run;
  \<open>crash\<close> loses the queue, any of the tasks and the cache.
\<close>

inductive sys_step :: "env \<Rightarrow> binance_api \<Rightarrow> settings \<Rightarrow> system \<Rightarrow> system \<Rightarrow> bool"
  for e :: env and api :: binance_api and s :: settings where
  receive: "sys_step e api s S (receive e s rid p S)"
| dequeue: "queue_get (jobs S) = Some ((tid, rid), q) \<Longrightarrow>
    sys_step e api s S (S\<lparr>jobs := q, tasks := tasks S @ [Claim tid]\<rparr>)"
| phase: "tasks S = xs @ k # ys \<Longrightarrow> run_task e api k (world S) = (new, w) \<Longrightarrow>
    sys_step e api s S (S\<lparr>world := w, tasks := xs @ new @ ys\<rparr>)"
| load: "t \<in> set (trades (w_db (world S))) \<Longrightarrow> sys_step e api s S (S\<lparr>tasks := tasks S @ [Ask t]\<rparr>)"
| register: "db_commit e (insert_user u) (world S) = (r, w) \<Longrightarrow> sys_step e api s S (S\<lparr>world := w\<rparr>)"
| resume: "resume_pending (w_db (world S)) rid (jobs S) = (n, q) \<Longrightarrow> sys_step e api s S (S\<lparr>jobs := q\<rparr>)"
| crash: "sys_step e api s S
    (S\<lparr>world := (world S)\<lparr>owner_cache := None\<rparr>, jobs := new_queue n, tasks := filter keep (tasks S)\<rparr>)"

inductive_cases sys_stepE: "sys_step e api s S S'"

section \<open>The phases are the handlers\<close>

lemma run_phases_Nil [simp]: "run_phases n e api [] w = w"
  by (cases n) simp_all

lemma record_outcome_uncertain:
  "is_uncertain x \<Longrightarrow> record_outcome e api t x w = handle_uncertain_outcome e api t (uncertain_error x) w"
  by (cases x rule: is_uncertain.cases) (simp_all add: record_outcome_def uncertain_error_def)

lemma run_phases_ask: "run_phases (Suc (Suc n)) e api [Ask t] w = snd (reconcile_trade e api t w)"
proof (cases "is_terminal t")
  case True
  then show ?thesis by (simp add: reconcile_trade_def)
next
  case nt: False
  obtain q w1 where q: "api_query api (symbol t) (client_order_id t) w = (q, w1)"
    by (cases "api_query api (symbol t) (client_order_id t) w") auto
  show ?thesis
  proof (cases q)
    case (Inl x)
    then show ?thesis using nt q by (cases x) (simp_all add: reconcile_trade_def)
  next
    case (Inr a)
    then show ?thesis using nt q
      by (cases "commit_object e t (reconciled_object a (clock e (tick w1)) t) (advance w1)")
         (simp add: reconcile_trade_def utc_now_def split: sum.split)
  qed
qed

lemma run_phases_record: "run_phases (Suc (Suc (Suc n))) e api [Record t x] w = snd (record_outcome e api t x w)"
proof (cases "is_uncertain x")
  case False
  then show ?thesis by simp
next
  case True
  obtain r w1 where r: "commit_or_raise e t (unknown_object (uncertain_error x) t) w = (r, w1)"
    by (cases "commit_or_raise e t (unknown_object (uncertain_error x) t) w") auto
  show ?thesis
  proof (cases r)
    case (Inl y)
    then show ?thesis using True r by (simp add: record_outcome_uncertain handle_uncertain_outcome_def)
  next
    case (Inr t1)
    have "run_phases (Suc (Suc (Suc n))) e api [Record t x] w = run_phases (Suc (Suc n)) e api [Ask t1] w1"
      using True r Inr by (simp del: run_phases.simps add: run_phases.simps(1) [of "Suc (Suc n)" e api "Record t x" "[]"])
    also have "\<dots> = snd (reconcile_trade e api t1 w1)" by (rule run_phases_ask)
    also have "\<dots> = snd (record_outcome e api t x w)"
      using True r Inr
      by (simp add: record_outcome_uncertain handle_uncertain_outcome_def split: prod.split sum.split)
    finally show ?thesis .
  qed
qed

lemma run_phases_claim: "run_phases (Suc (Suc (Suc (Suc (Suc n))))) e api [Claim tid] w = snd (execute e api tid w)"
proof -
  obtain cl w1 where cl: "claim_for_submission e tid w = (cl, w1)" by (cases "claim_for_submission e tid w") auto
  show ?thesis
  proof (cases "\<exists>t. cl = Inr (Some t)")
    case False
    then show ?thesis using cl by (auto simp: execute_def split: sum.split option.split)
  next
    case True
    then obtain t where t: "cl = Inr (Some t)" by blast
    obtain x w2 where x: "api_place api (symbol t) (side_value (side t)) (quantity t) (client_order_id t) w1 = (x, w2)"
      by (cases "api_place api (symbol t) (side_value (side t)) (quantity t) (client_order_id t) w1") auto
    have "run_phases (Suc (Suc (Suc (Suc (Suc n))))) e api [Claim tid] w =
        run_phases (Suc (Suc (Suc n))) e api [Record t x] w2"
      using cl t x by (simp del: run_phases.simps add: run_phases.simps(1) [of "Suc (Suc (Suc (Suc n)))"]
          run_phases.simps(1) [of "Suc (Suc (Suc n))"])
    also have "\<dots> = snd (record_outcome e api t x w2)" by (rule run_phases_record)
    also have "\<dots> = snd (execute e api tid w)"
      using cl t x by (simp add: execute_def submit_to_binance_def split: prod.split sum.split)
    finally show ?thesis .
  qed
qed

lemma accept_process:
  "process_signal e api s rid p q w =
     (case accept_signal e s p w of
        (Inl x, w1) \<Rightarrow> (Inl x, q, w1)
      | (Inr t, w1) \<Rightarrow>
          if WEBHOOK_ASYNC_EXECUTION s then (Inr t, snd (submit (t_id t) rid q), w1)
          else
            (case claim_for_submission e (t_id t) w1 of
               (Inl x, w3) \<Rightarrow> (Inl x, q, w3)
             | (Inr None, w3) \<Rightarrow> (Inr t, q, w3)
             | (Inr (Some claimed), w3) \<Rightarrow>
                 (case submit_to_binance e api claimed w3 of (r, w4) \<Rightarrow> (r, q, w4))))"
  by (simp add: process_signal_def accept_signal_def split: sum.split prod.split)

text \<open>
  The phases refine nothing away: run one after the other, the phases of a claimed job are the
  executor's \<open>_execute\<close>, those of a loaded trade are \<open>reconcile_trade\<close>, and receiving a signal followed
  by the phases it leaves behind is \<open>process_signal\<close>, world and queue included.
\<close>
lemma phases_compose_to_handlers:
  "run_phases 5 e api [Claim tid] w = snd (execute e api tid w) \<and>
   run_phases 2 e api [Ask t] w = snd (reconcile_trade e api t w) \<and>
   (let S = receive e s rid p \<lparr>world = w, jobs = q, tasks = []\<rparr>
    in snd (process_signal e api s rid p q w) = (jobs S, run_phases 5 e api (tasks S) (world S)))"
proof -
  have five: "run_phases 5 e api [Claim i] v = snd (execute e api i v)" for i v
    using run_phases_claim [of 0 e api i v] by (simp only: eval_nat_numeral One_nat_def BitM.simps)
  have two: "run_phases 2 e api [Ask t] w = snd (reconcile_trade e api t w)"
    using run_phases_ask [of 0 e api t w] by (simp only: eval_nat_numeral One_nat_def BitM.simps)
  obtain x w1 where x: "accept_signal e s p w = (x, w1)" by (cases "accept_signal e s p w") auto
  have "let S = receive e s rid p \<lparr>world = w, jobs = q, tasks = []\<rparr>
    in snd (process_signal e api s rid p q w) = (jobs S, run_phases 5 e api (tasks S) (world S))"
  proof (cases x)
    case (Inl y)
    then show ?thesis using x by (simp add: receive_def accept_process)
  next
    case (Inr t0)
    then show ?thesis using x
      by (cases "WEBHOOK_ASYNC_EXECUTION s")
         (auto simp: receive_def accept_process five execute_def split: prod.split sum.split option.split)
  qed
  then show ?thesis using five two by blast
qed

section \<open>The invariant\<close>

definition submitted_cid :: "string \<Rightarrow> db \<Rightarrow> bool" where
  "submitted_cid cid d = list_ex (\<lambda>r. client_order_id r = cid \<and> submitted_at r \<noteq> None) (trades d)"

fun places :: "string \<Rightarrow> task \<Rightarrow> bool" where
  "places cid (Place t) = (client_order_id t = cid)"
| "places cid _ = False"

definition placing :: "string \<Rightarrow> task list \<Rightarrow> nat" where
  "placing cid ks = length (filter (places cid) ks)"

definition orders_backed :: "world \<Rightarrow> task list \<Rightarrow> bool" where
  "orders_backed w ks =
     (\<forall>cid. orders_for cid w + placing cid ks \<le> (if submitted_cid cid (w_db w) then 1 else 0))"

definition sys_ok :: "system \<Rightarrow> bool" where
  "sys_ok S = (db_ok (w_db (world S)) \<and> queue_ok (jobs S) \<and> orders_backed (world S) (tasks S))"

lemma placing_simps [simp]:
  "placing cid [] = 0" "placing cid (k # ks) = (if places cid k then 1 else 0) + placing cid ks"
  "placing cid (xs @ ys) = placing cid xs + placing cid ys"
  by (simp_all add: placing_def)

lemma placing_filter: "placing cid (filter keep ks) \<le> placing cid ks"
  by (induction ks) auto

lemma submitted_cid_identity:
  assumes "map identity (trades d') = map identity (trades d)"
  shows "submitted_cid cid d' = submitted_cid cid d"
proof -
  have "submitted_cid cid d = list_ex (\<lambda>i. snd (snd (snd (fst i))) = cid \<and> snd i \<noteq> None) (map identity (trades d))" for d
    by (simp add: submitted_cid_def identity_def row_key_def list_ex_iff)
  then show ?thesis using assms by presburger
qed

lemma submitted_cid_key:
  assumes "submitted_in (trades d) (t_id t)" "t \<in> set (trades d)" "db_ok d"
  shows "submitted_cid (client_order_id t) d"
proof -
  obtain r where r: "r \<in> set (trades d)" "t_id r = t_id t" "submitted_at r \<noteq> None"
    using assms(1) by (auto simp: submitted_in_def list_ex_iff)
  have "r = t" using trades_ok_inject [of "trades d" r t] assms(2,3) r by (simp add: db_ok_def)
  then show ?thesis using r by (auto simp: submitted_cid_def list_ex_iff)
qed

lemma update_claim_cid:
  assumes "update_claim tid now d = (n, d')" "submitted_cid cid d"
  shows "submitted_cid cid d'"
proof -
  obtain r where r: "r \<in> set (trades d)" "client_order_id r = cid" "submitted_at r \<noteq> None"
    using assms(2) by (auto simp: submitted_cid_def list_ex_iff)
  let ?f = "\<lambda>t. if claimable tid t then mark_submitted now t else t"
  have "r = ?f r" using r(3) by (auto simp: claimable_def)
  then have "r \<in> ?f ` set (trades d)" using r(1) by (rule image_eqI)
  then have "r \<in> set (trades d')" using update_claim_law [OF assms(1)] by (simp only: set_map)
  then show ?thesis using r by (auto simp: submitted_cid_def list_ex_iff)
qed

text \<open>A step that sends no order and takes no submission back keeps the orders backed.\<close>

lemma orders_backed_quiet:
  assumes "orders_backed w ks" "\<And>cid. orders_for cid w' = orders_for cid w"
    "\<And>cid. submitted_cid cid (w_db w) \<Longrightarrow> submitted_cid cid (w_db w')"
    "\<And>cid. placing cid ks' \<le> placing cid ks"
  shows "orders_backed w' ks'"
  unfolding orders_backed_def
proof
  fix cid
  have "orders_for cid w + placing cid ks \<le> (if submitted_cid cid (w_db w) then 1 else 0)"
    using assms(1) by (simp add: orders_backed_def)
  then show "orders_for cid w' + placing cid ks' \<le> (if submitted_cid cid (w_db w') then 1 else 0)"
    using assms(2-4) [of cid] by (auto split: if_splits)
qed

lemma orders_for_requests: "requests w' = requests w \<Longrightarrow> orders_for cid w' = orders_for cid w"
  by (simp add: orders_for_def)

lemma quiet_backed:
  assumes "quiet t w w'" "db_ok (w_db w)" "orders_backed w ks" "\<And>cid. placing cid ks' \<le> placing cid ks"
  shows "db_ok (w_db w') \<and> orders_backed w' ks'"
proof
  have q: "only_rows {t_id t} (w_db w) (w_db w')" "map identity (trades (w_db w')) = map identity (trades (w_db w))"
    using assms(1,2) by (simp_all add: quiet_def)
  show "db_ok (w_db w')" by (rule only_rows_ok [OF q(1) assms(2)])
  show "orders_backed w' ks'"
    by (rule orders_backed_quiet [OF assms(3) quiet_orders(1) [OF assms(1)] _ assms(4)])
       (simp only: submitted_cid_identity [OF q(2)])
qed

text \<open>A claim, won or lost.\<close>

lemma claim_backed:
  assumes "claim_for_submission e tid w = (r, w')" "db_ok (w_db w)" "orders_backed w ks"
  shows "db_ok (w_db w') \<and>
    orders_backed w' ((case r of Inr (Some t) \<Rightarrow> [Place t] | _ \<Rightarrow> []) @ ks)"
proof
  show ok': "db_ok (w_db w')" by (rule claim_keeps_ok [OF assms(1,2)])
  note req = claim_for_submission_rest [OF assms(1)]
  have keep: "submitted_cid cid (w_db w')" if "submitted_cid cid (w_db w)" for cid
    using assms(1)
  proof (cases rule: claim_for_submission_cases)
    case (claimed n now d)
    then show ?thesis using update_claim_cid [OF claimed(1) that] by simp
  next
    case (unheard n now d)
    then show ?thesis using update_claim_cid [OF unheard(1) that] by simp
  qed (simp add: that)
  show "orders_backed w' ((case r of Inr (Some t) \<Rightarrow> [Place t] | _ \<Rightarrow> []) @ ks)"
  proof (cases "\<exists>t. r = Inr (Some t)")
    case False
    then have "(case r of Inr (Some t) \<Rightarrow> [Place t] | _ \<Rightarrow> []) = []" by (auto split: sum.split option.split)
    then show ?thesis
      using orders_backed_quiet [OF assms(3) orders_for_requests, of w' ks] keep req by simp
  next
    case True
    then obtain t where t: "r = Inr (Some t)" by blast
    from claim_won [OF assms(1) [unfolded t] assms(2)]
    have won: "select_trade tid (w_db w') = Some t" "submitted_at t \<noteq> None"
      "\<not> submitted_in (trades (w_db w)) tid" and
      "\<exists>x now. x \<in> set (trades (w_db w)) \<and> claimable tid x \<and> t = mark_submitted now x" by auto
    then obtain x now where x: "x \<in> set (trades (w_db w))" "claimable tid x" "t = mark_submitted now x" by blast
    have cid: "client_order_id x = client_order_id t" "t_id x = tid"
      using x by (simp_all add: mark_submitted_def claimable_def)
    have before: "\<not> submitted_cid (client_order_id t) (w_db w)"
    proof
      assume "submitted_cid (client_order_id t) (w_db w)"
      then obtain y where y: "y \<in> set (trades (w_db w))" "client_order_id y = client_order_id t" "submitted_at y \<noteq> None"
        by (auto simp: submitted_cid_def list_ex_iff)
      have "y = x" using trades_ok_inject [of "trades (w_db w)" y x] assms(2) x(1) y cid by (simp add: db_ok_def)
      then show False using y(1,3) cid won(3) by (auto simp: submitted_in_def list_ex_iff)
    qed
    have after: "submitted_cid (client_order_id t) (w_db w')"
      using select_trade_in [OF won(1)] won(2) by (auto simp: submitted_cid_def list_ex_iff)
    show ?thesis unfolding orders_backed_def
    proof
      fix k
      have "orders_for k w + placing k ks \<le> (if submitted_cid k (w_db w) then 1 else 0)"
        using assms(3) by (simp add: orders_backed_def)
      then show "orders_for k w' + placing k ((case r of Inr (Some t) \<Rightarrow> [Place t] | _ \<Rightarrow> []) @ ks) \<le>
          (if submitted_cid k (w_db w') then 1 else 0)"
        using before after keep [of k] orders_for_requests [of w' w k] req t by (auto split: if_splits)
    qed
  qed
qed

context exchange_api
begin

lemma run_task_backed:
  assumes "run_task e api k w = (new, w')" "db_ok (w_db w)" "orders_backed w (xs @ k # ys)"
  shows "db_ok (w_db w') \<and> orders_backed w' (xs @ new @ ys)"
proof (cases k)
  case (Claim tid)
  have "orders_backed w (xs @ ys)"
    using assms(3) unfolding orders_backed_def Claim by simp
  obtain cl w1 where cl: "claim_for_submission e tid w = (cl, w1)" by (cases "claim_for_submission e tid w") auto
  have n: "w1 = w' \<and> new = (case cl of Inr (Some t) \<Rightarrow> [Place t] | _ \<Rightarrow> [])"
    using assms(1) cl Claim by (auto split: sum.splits option.splits)
  have "db_ok (w_db w1) \<and> orders_backed w1 (new @ xs @ ys)"
    using claim_backed [OF cl assms(2) \<open>orders_backed w (xs @ ys)\<close>] n by simp
  then show ?thesis using n by (simp add: orders_backed_def add.left_commute add.assoc)
next
  case (Place t)
  obtain x where x: "api_place api (symbol t) (side_value (side t)) (quantity t) (client_order_id t) w = (x, w')"
      "new = [Record t x]"
    using assms(1) Place by (auto split: prod.splits)
  note pl = place_store [OF x(1)]
  have "orders_backed w' (xs @ new @ ys)" unfolding orders_backed_def
  proof
    fix cid
    have "orders_for cid w + placing cid (xs @ k # ys) \<le> (if submitted_cid cid (w_db w) then 1 else 0)"
      using assms(3) by (simp add: orders_backed_def)
    then show "orders_for cid w' + placing cid (xs @ new @ ys) \<le> (if submitted_cid cid (w_db w') then 1 else 0)"
      using place_orders [OF x(1), of cid] pl Place x(2) by (auto split: if_splits)
  qed
  then show ?thesis using pl assms(2) by simp
next
  case (Record t x)
  have "quiet t w w' \<and> (\<forall>cid. placing cid new = 0)"
  proof (cases "is_uncertain x")
    case True
    then show ?thesis
      using assms(1) Record commit_or_raise_quiet [of e t _ w]
      by (auto split: prod.splits sum.splits)
  next
    case False
    then show ?thesis
      using assms(1) Record record_outcome_quiet [of e t x w "fst (record_outcome e api t x w)"]
      by auto
  qed
  then have q: "quiet t w w'" "placing cid (xs @ new @ ys) \<le> placing cid (xs @ k # ys)" for cid by auto
  show ?thesis by (rule quiet_backed [OF q(1) assms(2,3) q(2)])
next
  case (Ask t)
  show ?thesis
  proof (cases "is_terminal t")
    case True
    then show ?thesis using assms Ask by (auto simp: orders_backed_def)
  next
    case False
    obtain a where a: "api_query api (symbol t) (client_order_id t) w = (a, w')" "\<forall>cid. placing cid new = 0"
      using assms(1) Ask False by (auto split: prod.splits sum.splits)
    note q = query_orders [OF a(1)] query_store [OF a(1)]
    have "orders_backed w' (xs @ new @ ys)"
      by (rule orders_backed_quiet [OF assms(3)]) (use q a(2) in auto)
    then show ?thesis using q assms(2) by simp
  qed
next
  case (Note t a)
  have w': "w' = snd (commit_object e t (reconciled_object a (clock e (tick w)) t) (advance w))" "new = []"
    using assms(1) Note by (auto simp: utc_now_def)
  then obtain r where r: "commit_object e t (reconciled_object a (clock e (tick w)) t) (advance w) = (r, w')"
    by (metis prod.collapse)
  have "quiet t w w'"
    using commit_object_rest [OF r] commit_object_only [OF _ r] by (simp add: quiet_def)
  moreover have "placing cid (xs @ new @ ys) \<le> placing cid (xs @ k # ys)" for cid using w'(2) by simp
  ultimately show ?thesis by (rule quiet_backed [OF _ assms(2,3)])
qed

lemma accept_signal_backed:
  assumes "accept_signal e s p w = (r, w')" "db_ok (w_db w)" "orders_backed w ks"
  shows "db_ok (w_db w') \<and> orders_backed w' ks"
proof -
  have "db_ok (w_db w') \<and> requests w' = requests w \<and>
    (\<forall>cid. submitted_cid cid (w_db w) \<longrightarrow> submitted_cid cid (w_db w'))"
  proof (cases "validate_signal s p")
    case (Inl x)
    then show ?thesis using assms(1,2) by (auto simp: accept_signal_def)
  next
    case v: (Inr u)
    obtain o1 w1 where o1: "resolve_trade_owner_id s w = (o1, w1)" by (cases "resolve_trade_owner_id s w") auto
    note st = resolve_trade_owner_id_store [OF o1]
    show ?thesis
    proof (cases o1)
      case (Inl x)
      then show ?thesis using assms(1,2) v o1 st by (auto simp: accept_signal_def)
    next
      case (Inr owner)
      have c: "create_pending_trade e p owner w1 = (r, w')" using assms(1) v o1 Inr by (simp add: accept_signal_def)
      have "submitted_cid cid (w_db w')" if "submitted_cid cid (w_db w)" for cid
      proof (cases r)
        case (Inr t)
        then show ?thesis using create_pending_trade_row [of e p owner w1 t w'] c that st
          by (auto simp: submitted_cid_def)
      next
        case (Inl x)
        have "\<exists>new. trades (w_db w') = trades (w_db w1) @ new"
          using c
        proof (cases rule: create_pending_trade_cases)
          case (conflict cr u d)
          then show ?thesis using insert_trade_refused [OF conflict(1)] by simp
        next
          case (unheard t cr u d)
          then show ?thesis using insert_trade_rows [OF unheard(1)] by auto
        qed (use Inl in simp_all)
        then show ?thesis using that st by (auto simp: submitted_cid_def)
      qed
      then show ?thesis
        using create_pending_trade_ok [OF c] create_pending_trade_rest [OF c] assms(2) st by auto
    qed
  qed
  then show ?thesis
    using orders_backed_quiet [OF assms(3) orders_for_requests, of w' ks] by simp
qed

lemma sys_step_ok: "sys_step e api s S S' \<Longrightarrow> sys_ok S \<Longrightarrow> sys_ok S'"
proof (induction rule: sys_step.induct)
  case (receive S rid p)
  obtain x w1 where x: "accept_signal e s p (world S) = (x, w1)"
    by (cases "accept_signal e s p (world S)") auto
  have w1: "db_ok (w_db w1) \<and> orders_backed w1 (tasks S)"
    by (rule accept_signal_backed [OF x]) (use receive in \<open>simp_all add: sys_ok_def\<close>)
  have q: "queue_ok (snd (submit i rid (jobs S)))" for i
    using submit_ok receive by (metis prod.collapse sys_ok_def)
  show ?case using w1 q receive x
    by (cases x) (auto simp: receive_def sys_ok_def orders_backed_def)
next
  case (dequeue S tid rid q)
  then show ?case using queue_get_ok by (auto simp: sys_ok_def orders_backed_def)
next
  case (phase S xs k ys new w)
  then show ?case using run_task_backed [of e k "world S" new w xs ys] by (simp add: sys_ok_def)
next
  case (load t S)
  then show ?case by (simp add: sys_ok_def orders_backed_def)
next
  case (register u S r w)
  have r: "requests w = requests (world S)" using db_commit_rest [OF register.hyps] by simp
  have d: "db_ok (w_db w) \<and> trades (w_db w) = trades (w_db (world S))"
    using register.hyps by (cases rule: db_commit_cases)
      (use register.prems insert_user_ok insert_user_trades in
        \<open>auto simp: sys_ok_def intro!: rolled_back_ok dest: insert_user_seq\<close>)
  then have "submitted_cid cid (w_db w) = submitted_cid cid (w_db (world S))" for cid
    by (simp add: submitted_cid_def)
  then have "orders_backed w (tasks S)"
    using orders_backed_quiet [OF _ orders_for_requests [OF r], of "tasks S" "tasks S"] register.prems
    by (simp add: sys_ok_def)
  then show ?case using d register.prems by (simp add: sys_ok_def)
next
  case (resume S rid n q)
  then show ?case using submit_all_ok by (auto simp: sys_ok_def resume_pending_def Let_def)
next
  case (crash S keep n)
  have "orders_backed ((world S)\<lparr>owner_cache := None\<rparr>) (filter keep (tasks S))"
    by (rule orders_backed_quiet [of "world S" "tasks S"])
       (use crash placing_filter in \<open>auto simp: sys_ok_def orders_for_def\<close>)
  then show ?case using crash new_queue_ok by (simp add: sys_ok_def)
qed

lemma reachable_ok: "(sys_step e api s)\<^sup>*\<^sup>* S S' \<Longrightarrow> sys_ok S \<Longrightarrow> sys_ok S'"
  by (induction rule: rtranclp_induct) (use sys_step_ok in blast)+

end

section \<open>One order per signal\<close>

text \<open>A system that has just started: nothing in memory, nothing sent.\<close>

definition fresh_start :: "db \<Rightarrow> int \<Rightarrow> system" where
  "fresh_start d n =
     \<lparr>world = \<lparr>w_db = d, requests = [], tick = 0, owner_cache = None\<rparr>, jobs = new_queue n, tasks = []\<rparr>"

lemma fresh_start_ok: "db_ok d \<Longrightarrow> sys_ok (fresh_start d n)"
  by (simp add: sys_ok_def fresh_start_def new_queue_ok orders_backed_def orders_for_def)

context exchange_api
begin

lemma one_order:
  assumes "db_ok d" "(sys_step e api s)\<^sup>*\<^sup>* (fresh_start d n) S"
  shows "orders_for cid (world S) \<le> 1 \<and>
    (orders_for cid (world S) = 1 \<longrightarrow>
       (\<exists>row \<in> set (trades (w_db (world S))). client_order_id row = cid \<and> submitted_at row \<noteq> None)) \<and>
    db_ok (w_db (world S)) \<and> queue_ok (jobs S)"
proof -
  have ok: "sys_ok S" by (rule reachable_ok [OF assms(2) fresh_start_ok [OF assms(1)]])
  then have b: "orders_for cid (world S) + placing cid (tasks S) \<le> (if submitted_cid cid (w_db (world S)) then 1 else 0)"
    by (simp add: sys_ok_def orders_backed_def)
  have "orders_for cid (world S) \<le> 1" using b by (simp split: if_splits)
  moreover have "submitted_cid cid (w_db (world S))" if "orders_for cid (world S) = 1"
    using b that by (simp split: if_splits)
  ultimately show ?thesis using ok by (auto simp: sys_ok_def submitted_cid_def list_ex_iff)
qed

end

text \<open>
  C1. At most one order per signal, in every interleaving: from a start with sound tables, after any
  steps of requests, workers, reconciliations, registrations, restarts and crashes, whatever the
  exchange answers and whichever COMMITs fail, the log of requests holds at most one order for each
  client order id, and for each that was sent there is a committed row marked as submitted.
\<close>
theorem one_order_per_signal:
  assumes "db_ok d" "(sys_step e (binance_client e c) s)\<^sup>*\<^sup>* (fresh_start d n) S"
  shows "orders_for cid (world S) \<le> 1 \<and>
    (orders_for cid (world S) = 1 \<longrightarrow>
       (\<exists>row \<in> set (trades (w_db (world S))). client_order_id row = cid \<and> submitted_at row \<noteq> None)) \<and>
    db_ok (w_db (world S)) \<and> queue_ok (jobs S)"
  by (rule testnet.one_order [OF assms])

end
