(* ===== verification/Race.thy ===== *)
theory Race
  imports Interleaving
begin

text \<open>
  One run of the system, step by step: a reconciliation loads a trade that no worker has claimed yet and
  asks for its order; a worker then claims, places and records it; the reconciliation, still holding
  the object it loaded and the answer it got, writes last. It shows that the interleavings of theory
  Interleaving really place orders, and what the last write does to a filled trade.
\<close>

section \<open>The environment\<close>

text \<open>The exchange knows no order until one is placed, and fills it at once.\<close>

definition race_env :: env where
  "race_env = (test_env TimedOut)\<lparr>exchange := \<lambda>_ r. if rq_method r = GET then missing_answer else filled_answer\<rparr>"

abbreviation race_api :: binance_api where
  "race_api \<equiv> binance_client race_env test_client"

lemma race_env_simps [simp]:
  "clock race_env n = int n" "commit_ok race_env n" "url_host race_env = url_host (test_env TimedOut)"
  "exchange race_env n r = (if rq_method r = GET then missing_answer else filled_answer)"
  by (simp_all add: race_env_def)

lemma race_host: "client_host race_env (c_base_url test_client) \<in> ALLOWED_BINANCE_HOSTS"
  using test_client_host [of TimedOut] by (simp add: client_host_def)

section \<open>The rows\<close>

definition claimed_trade :: trade where
  "claimed_trade = mark_submitted 2 test_trade"

definition filled_row :: trade where
  "filled_row = claimed_trade\<lparr>binance_order_id := Some 7, binance_status := Some ''FILLED'',
     executed_quantity := Some (Fin False 1000000000 (- 12)),
     cumulative_quote_quantity := Some (Fin False 45000000000000 (- 12)), status := FILLED, updated_at := 6\<rparr>"

definition failed_row :: trade where
  "failed_row = filled_row\<lparr>status := FAILED, error_code := Some ''order_not_found'',
     error_message := Some not_found_message, reconciled_at := Some 8, updated_at := 9\<rparr>"

definition db_with :: "trade \<Rightarrow> db" where
  "db_with r = trade_db\<lparr>trades := [r]\<rparr>"

lemma rows_id: "t_id test_trade = 1" "t_id claimed_trade = 1" "t_id filled_row = 1" "t_id failed_row = 1"
  by (simp_all add: failed_row_def filled_row_def claimed_trade_def mark_submitted_def test_trade_def)

lemma select_with: "t_id r = 1 \<Longrightarrow> select_trade 1 (db_with r) = Some r"
  by (simp add: select_trade_def db_with_def)

section \<open>The phases\<close>

lemma ask_phase:
  "\<exists>q. rq_method q = GET \<and> run_task race_env race_api (Ask test_trade) w =
     ([Note test_trade None], w\<lparr>requests := requests w @ [q], tick := tick w + 2\<rparr>)"
proof -
  let ?q = "signed_request race_env test_client GET ''/api/v3/order'' (query_params (symbol test_trade) (client_order_id test_trade)) w"
  let ?d = "do_request race_env test_client GET ''/api/v3/order'' (query_params (symbol test_trade) (client_order_id test_trade)) True w"
  have q: "rq_method ?q = GET" by (simp add: signed_request_def)
  have "snd ?d = w\<lparr>requests := requests w @ [?q], tick := tick w + 2\<rparr>" by (simp add: do_request_signed)
  moreover have "snd (get_order race_env test_client (symbol test_trade) (client_order_id test_trade) w) = snd ?d"
    by (simp add: get_order_def query_params_def split: prod.split sum.split exn.split)
  moreover have "fst (get_order race_env test_client (symbol test_trade) (client_order_id test_trade) w) = Inr None"
    unfolding get_order_missing query_outcome_def outcome_at_def says_no_such_order_def
    by (simp add: signed_request_def missing_answer_def response_error_code_def error_body_def json_get_def
        ORDER_DOES_NOT_EXIST_CODE_def)
  ultimately have "get_order race_env test_client (symbol test_trade) (client_order_id test_trade) w =
      (Inr None, w\<lparr>requests := requests w @ [?q], tick := tick w + 2\<rparr>)"
    by (metis prod.collapse)
  moreover have "\<not> is_terminal test_trade" by (simp add: is_terminal_def test_trade_def TERMINAL_STATUSES_def)
  ultimately show ?thesis using q by (intro exI [of _ ?q]) simp
qed

lemma claim_phase:
  assumes "w_db w = trade_db" "tick w = 2"
  shows "run_task race_env race_api (Claim 1) w =
    ([Place claimed_trade], w\<lparr>w_db := db_with claimed_trade, tick := 4\<rparr>)"
proof -
  have "update_claim 1 2 trade_db = (1, db_with claimed_trade)"
    by (simp add: update_claim_def trade_db_def db_with_def claimed_trade_def)
       (simp add: claimable_def test_trade_def)
  then have "claim_for_submission race_env 1 w =
      (Inr (Some claimed_trade), w\<lparr>w_db := db_with claimed_trade, tick := 4\<rparr>)"
    using assms select_with [OF rows_id(2)]
    by (simp add: claim_for_submission_def utc_now_def db_commit_def claim_stmt_def advance_def)
  then show ?thesis by simp
qed

lemma place_phase:
  "\<exists>q. is_order_request q \<and> map_of (rq_params q) ''newClientOrderId'' = Some ''cat-1'' \<and>
     run_task race_env race_api (Place claimed_trade) w =
       ([Record claimed_trade (Inr filled_result)], w\<lparr>requests := requests w @ [q], tick := tick w + 2\<rparr>)"
proof -
  let ?q = "place_request race_env test_client (symbol claimed_trade) (side_value (side claimed_trade)) ''0.001''
    (client_order_id claimed_trade) w"
  have fields: "quantity claimed_trade = Fin False 1000000000 (- 12)" "client_order_id claimed_trade = ''cat-1''"
    by (simp_all add: claimed_trade_def mark_submitted_def test_trade_def)
  have q: "is_order_request ?q" "map_of (rq_params ?q) ''newClientOrderId'' = Some ''cat-1''"
    by (simp_all add: place_request_def signed_request_def is_order_request_def order_path_def test_client_def
        order_params_cid fields)
  have out: "outcome_at race_env ?q w = filled_answer"
    by (simp add: outcome_at_def place_request_def signed_request_def)
  have body: "handle_response \<lparr>rs_status = 200, rs_retry_after = None, rs_body = Some (JObj filled_payload)\<rparr> = Inr filled_payload"
    by (simp add: handle_response_def)
  have "do_request race_env test_client POST (order_path test_client)
      (order_params (symbol claimed_trade) (side_value (side claimed_trade)) ''0.001'' (client_order_id claimed_trade)) True w =
      (Inr filled_payload, w\<lparr>requests := requests w @ [?q], tick := tick w + 2\<rparr>)"
    using out body unfolding do_request_signed place_request_def filled_answer_def filled_payload_def by simp
  moreover have "assert_testnet race_env (c_base_url test_client) = Inr ()"
    using race_host by (simp add: assert_testnet_def)
  moreover have "format_decimal (quantity claimed_trade) = Inr ''0.001''" using test_quantity_text fields by simp
  ultimately have "place_market_order race_env test_client (symbol claimed_trade) (side_value (side claimed_trade))
      (quantity claimed_trade) (client_order_id claimed_trade) w =
      (Inr filled_result, w\<lparr>requests := requests w @ [?q], tick := tick w + 2\<rparr>)"
    by (simp add: place_sends from_filled test_client_def)
  then show ?thesis using q by (intro exI [of _ ?q]) simp
qed

lemma numeric_45: "numeric_28_12 (Fin False 45 0) = Some (Fin False 45000000000000 (- 12))"
  by (simp add: numeric_28_12.simps)

lemma record_phase:
  assumes "w_db w = db_with claimed_trade" "tick w = 6"
  shows "run_task race_env race_api (Record claimed_trade (Inr filled_result)) w =
    ([], w\<lparr>w_db := db_with filled_row, tick := 8\<rparr>)"
proof -
  let ?new = "success_object filled_result claimed_trade"
  have st: "status ?new = FILLED"
    by (simp add: success_object_def filled_result_def mapped_status_def BINANCE_STATUS_MAP_def)
  have "store_row ((merge_row claimed_trade ?new claimed_trade)\<lparr>updated_at := 6\<rparr>) = Some filled_row"
    using test_quantity_stored numeric_45
    by (simp add: store_row_def success_object_def filled_result_def mapped_status_def BINANCE_STATUS_MAP_def
        merge_row_def filled_row_def claimed_trade_def mark_submitted_def test_trade_def dec_opt_same_def
        bigint_ok_def varchar_ok_def numeric_opt_def numeric_28_12.simps)
  moreover have "dirty claimed_trade ?new" using st
    by (simp add: dirty_def) (simp add: claimed_trade_def mark_submitted_def test_trade_def)
  moreover have "replace_row filled_row (db_with claimed_trade) = db_with filled_row"
    using rows_id by (simp add: replace_row_def db_with_def)
  ultimately have "flush_trade 6 claimed_trade ?new (db_with claimed_trade) =
      (Inr (?new\<lparr>updated_at := 6\<rparr>), db_with filled_row)"
    using rows_id select_with by (simp add: flush_trade_def)
  then show ?thesis using assms
    by (simp add: record_outcome_def finalise_success_def commit_or_report_def commit_object_def utc_now_def
        db_commit_def advance_def)
qed

lemma note_phase:
  assumes "w_db w = db_with filled_row" "tick w = 8"
  shows "run_task race_env race_api (Note test_trade None) w =
    ([], w\<lparr>w_db := db_with failed_row, tick := 11\<rparr>)"
proof -
  let ?new = "reconciled_object None 8 test_trade"
  have "store_row ((merge_row test_trade ?new filled_row)\<lparr>updated_at := 9\<rparr>) = Some failed_row"
    by (simp add: store_row_def reconciled_object_def not_found_message_def merge_row_def failed_row_def filled_row_def claimed_trade_def
        mark_submitted_def test_trade_def dec_opt_same_def bigint_ok_def varchar_ok_def numeric_opt_def
        numeric_28_12.simps)
  moreover have "dirty test_trade ?new" by (simp add: dirty_def reconciled_object_def test_trade_def)
  moreover have "replace_row failed_row (db_with filled_row) = db_with failed_row"
    using rows_id by (simp add: replace_row_def db_with_def)
  ultimately have "flush_trade 9 test_trade ?new (db_with filled_row) =
      (Inr (?new\<lparr>updated_at := 9\<rparr>), db_with failed_row)"
    using rows_id select_with by (simp add: flush_trade_def)
  then show ?thesis using assms
    by (simp add: commit_object_def utc_now_def db_commit_def advance_def)
qed

section \<open>The run\<close>

lemma phase_only:
  "tasks S = xs @ k # ys \<Longrightarrow> run_task e api k (world S) = (new, w) \<Longrightarrow>
     sys_step e api s S \<lparr>world = w, jobs = jobs S, tasks = xs @ new @ ys\<rparr>"
  using sys_step.phase [of S xs k ys e api new w s] by (cases S) simp

lemma race_run:
  "\<exists>S r1 r2. (sys_step race_env race_api s)\<^sup>*\<^sup>* (fresh_start trade_db 10) S \<and> tasks S = [] \<and>
     w_db (world S) = db_with failed_row \<and> requests (world S) = [r1, r2] \<and> rq_method r1 = GET \<and>
     is_order_request r2 \<and> map_of (rq_params r2) ''newClientOrderId'' = Some ''cat-1''"
proof -
  let ?step = "sys_step race_env race_api s"
  let ?S = "\<lambda>w q ts. \<lparr>world = w, jobs = q, tasks = ts\<rparr>"
  let ?W = "\<lambda>d rs n. \<lparr>w_db = d, requests = rs, tick = n, owner_cache = None\<rparr>"
  let ?q0 = "new_queue 10"
  let ?N = "Note test_trade None"
  note go = converse_rtranclp_into_rtranclp [where r = ?step]
  obtain r1 where r1: "rq_method r1 = GET" "run_task race_env race_api (Ask test_trade) (?W trade_db [] 0) =
      ([?N], ?W trade_db [r1] 2)"
    using ask_phase [of "?W trade_db [] 0"] by auto
  obtain r2 where r2: "is_order_request r2" "map_of (rq_params r2) ''newClientOrderId'' = Some ''cat-1''"
      "run_task race_env race_api (Place claimed_trade) (?W (db_with claimed_trade) [r1] 4) =
        ([Record claimed_trade (Inr filled_result)], ?W (db_with claimed_trade) [r1, r2] 6)"
    using place_phase [of "?W (db_with claimed_trade) [r1] 4"] by auto
  obtain n q1 where q1: "resume_pending trade_db ''rid'' ?q0 = (n, q1)" by (cases "resume_pending trade_db ''rid'' ?q0") auto
  have "unsubmitted_ids 10 trade_db = [1]"
    by (simp add: unsubmitted_ids_def trade_db_def unsubmitted_def test_trade_def)
  then have "items q1 = [(1, ''rid'')]" using resume_items(1) [OF _ q1] by simp
  then obtain q2 where q2: "queue_get q1 = Some ((1, ''rid''), q2)" by (simp add: queue_get_def)
  have s1: "?step (fresh_start trade_db 10) (?S (?W trade_db [] 0) ?q0 [Ask test_trade])"
    using sys_step.load [of test_trade "fresh_start trade_db 10" race_env race_api s]
    by (simp add: fresh_start_def trade_db_def)
  have s2: "?step (?S (?W trade_db [] 0) ?q0 [Ask test_trade]) (?S (?W trade_db [r1] 2) ?q0 [?N])"
    using phase_only [of "?S (?W trade_db [] 0) ?q0 [Ask test_trade]" "[]"] r1(2) by simp
  have s3: "?step (?S (?W trade_db [r1] 2) ?q0 [?N]) (?S (?W trade_db [r1] 2) q1 [?N])"
    using sys_step.resume [of "?S (?W trade_db [r1] 2) ?q0 [?N]" "''rid''" n q1] q1 by simp
  have s4: "?step (?S (?W trade_db [r1] 2) q1 [?N]) (?S (?W trade_db [r1] 2) q2 [?N, Claim 1])"
    using sys_step.dequeue [of "?S (?W trade_db [r1] 2) q1 [?N]" 1 "''rid''" q2] q2 by simp
  have s5: "?step (?S (?W trade_db [r1] 2) q2 [?N, Claim 1]) (?S (?W (db_with claimed_trade) [r1] 4) q2 [?N, Place claimed_trade])"
    using phase_only [of "?S (?W trade_db [r1] 2) q2 [?N, Claim 1]" "[?N]" "Claim 1" "[]"]
      claim_phase [of "?W trade_db [r1] 2"] by (simp del: run_task.simps)
  have s6: "?step (?S (?W (db_with claimed_trade) [r1] 4) q2 [?N, Place claimed_trade])
      (?S (?W (db_with claimed_trade) [r1, r2] 6) q2 [?N, Record claimed_trade (Inr filled_result)])"
    using phase_only [of "?S (?W (db_with claimed_trade) [r1] 4) q2 [?N, Place claimed_trade]" "[?N]" "Place claimed_trade" "[]"]
      r2(3) by (simp del: run_task.simps)
  have s7: "?step (?S (?W (db_with claimed_trade) [r1, r2] 6) q2 [?N, Record claimed_trade (Inr filled_result)])
      (?S (?W (db_with filled_row) [r1, r2] 8) q2 [?N])"
    using phase_only [of "?S (?W (db_with claimed_trade) [r1, r2] 6) q2 [?N, Record claimed_trade (Inr filled_result)]"
        "[?N]" "Record claimed_trade (Inr filled_result)" "[]"]
      record_phase [of "?W (db_with claimed_trade) [r1, r2] 6"] by (simp del: run_task.simps)
  have s8: "?step (?S (?W (db_with filled_row) [r1, r2] 8) q2 [?N]) (?S (?W (db_with failed_row) [r1, r2] 11) q2 [])"
    using phase_only [of "?S (?W (db_with filled_row) [r1, r2] 8) q2 [?N]" "[]" ?N "[]"]
      note_phase [of "?W (db_with filled_row) [r1, r2] 8"] by (simp del: run_task.simps)
  have "?step\<^sup>*\<^sup>* (fresh_start trade_db 10) (?S (?W (db_with failed_row) [r1, r2] 11) q2 [])"
    by (intro go [OF s1] go [OF s2] go [OF s3] go [OF s4] go [OF s5] go [OF s6] go [OF s7] go [OF s8]
        rtranclp.rtrancl_refl)
  then show ?thesis using r1(1) r2(1,2)
    by (intro exI [of _ "?S (?W (db_with failed_row) [r1, r2] 11) q2 []"] exI [of _ r1] exI [of _ r2]) simp
qed

theorem one_order_per_signal_witness:
  "\<exists>S. (sys_step race_env race_api test_settings)\<^sup>*\<^sup>* (fresh_start trade_db 10) S \<and>
     orders_for ''cat-1'' (world S) = 1 \<and>
     (\<exists>row \<in> set (trades (w_db (world S))). client_order_id row = ''cat-1'' \<and> submitted_at row \<noteq> None)"
proof -
  obtain S r1 r2 where run: "(sys_step race_env race_api test_settings)\<^sup>*\<^sup>* (fresh_start trade_db 10) S"
      "requests (world S) = [r1, r2]" "rq_method r1 = GET" "is_order_request r2"
      "map_of (rq_params r2) ''newClientOrderId'' = Some ''cat-1''"
    using race_run [of test_settings] by blast
  then have "orders_for ''cat-1'' (world S) = 1" by (simp add: orders_for_def is_order_request_def)
  then show ?thesis using one_order_per_signal [OF trade_db_ok run(1), of "''cat-1''"] run(1) by blast
qed

text \<open>
  C36. A reconciliation that loaded a trade before a worker claimed it can have the last word: there is a
  run in which the exchange filled the order, the worker recorded FILLED, and the reconciliation then
  writes FAILED with the error code order_not_found. The row keeps the exchange's order id, is terminal,
  and no later reconciliation changes it.
\<close>
theorem stale_reconciliation_overwrites_a_fill:
  "\<exists>S row. (sys_step race_env race_api s)\<^sup>*\<^sup>* (fresh_start trade_db 10) S \<and>
     orders_for ''cat-1'' (world S) = 1 \<and> trades (w_db (world S)) = [row] \<and>
     status row = FAILED \<and> error_code row = Some ''order_not_found'' \<and>
     binance_order_id row = Some 7 \<and> binance_status row = Some ''FILLED'' \<and>
     (\<forall>e api w. reconcile_trade e api row w = (Inr row, w))"
proof -
  obtain S r1 r2 where run: "(sys_step race_env race_api s)\<^sup>*\<^sup>* (fresh_start trade_db 10) S"
      "w_db (world S) = db_with failed_row"
      "requests (world S) = [r1, r2]" "rq_method r1 = GET" "is_order_request r2"
      "map_of (rq_params r2) ''newClientOrderId'' = Some ''cat-1''"
    using race_run [of s] by blast
  have "orders_for ''cat-1'' (world S) = 1" using run(3-6) by (simp add: orders_for_def is_order_request_def)
  moreover have "is_terminal failed_row" by (simp add: is_terminal_def failed_row_def TERMINAL_STATUSES_def)
  then have "\<forall>e api w. reconcile_trade e api failed_row w = (Inr failed_row, w)"
    by (simp add: reconcile_trade_def)
  ultimately show ?thesis using run(1,2)
    by (intro exI [of _ S] exI [of _ failed_row]) (simp add: db_with_def failed_row_def filled_row_def)
qed

end
