(* ===== verification/Divergences.thy ===== *)
theory Divergences
  imports Race
begin

text \<open>
  Places where the code does something other than what it says. Each is a theorem over the model.
\<close>

section \<open>A trade that was never submitted\<close>



section \<open>A webhook owner that is gone\<close>

text \<open>
  C38. An owner id that is cached but no longer in the users table makes every new signal a "duplicate":
  the foreign key refuses the row with the same IntegrityError as the unique index, and the caller is
  told 409 with no existing trade, although the signal was never seen and no trade was created.
\<close>
theorem missing_owner_is_reported_as_duplicate:
  assumes "validate_signal s p = Inr ()" "payload_ok p" "numeric_28_12 (p_quantity p) \<noteq> None"
    "owner_cache w = Some i" "int32 i" "i \<notin> u_id ` set (users (w_db w))"
    "p_signal_id p \<notin> signal_id ` set (trades (w_db w))"
  shows "\<exists>w'. process_signal e api s rid p q w = (Inl (AppExn (duplicate_signal_error None)), q, w') \<and>
    trades (w_db w') = trades (w_db w) \<and>
    status_code (ae_class (duplicate_signal_error None)) = 409"
proof -
  have cid: "length (build_client_order_id (p_signal_id p)) \<le> 36"
    using build_client_order_id_length [of "p_signal_id p"] by simp
  have nul: "nul_free (build_client_order_id (p_signal_id p))" "nul_free (p_signal_id p)" "nul_free (p_symbol p)"
    using assms(2) payload_texts build_client_order_id_nul_free by blast+
  obtain n where n: "numeric_28_12 (p_quantity p) = Some n" using assms(3) by blast
  let ?t = "new_trade p i (clock e (tick w)) (clock e (tick (advance w)))"
  obtain r where r: "store_row (?t\<lparr>t_id := trade_seq (w_db w)\<rparr>) = Some r"
    using cid nul assms(2) n
    by (simp add: store_row_def new_trade_def payload_ok_def SIGNAL_ID_PATTERN_def SYMBOL_PATTERN_def bigint_ok_def
        varchar_ok_def numeric_opt_def)
  have ins: "insert_trade ?t (w_db w) = (Inl IntegrityError, (w_db w)\<lparr>trade_seq := trade_seq (w_db w) + 1\<rparr>)"
    using r assms(6) by (simp add: insert_trade_def Let_def) (simp add: new_trade_def)
  have "find (\<lambda>t. signal_id t = p_signal_id p) (trades (w_db w)) = None"
    using assms(7) unfolding find_None_iff by (metis image_eqI)
  then have "\<exists>w'. create_pending_trade e p i w = (Inl (AppExn (duplicate_signal_error None)), w') \<and>
      trades (w_db w') = trades (w_db w)"
    using ins by (simp add: create_pending_trade_def utc_now_def db_commit_def select_trade_by_signal_def)
  then obtain w' where c: "create_pending_trade e p i w = (Inl (AppExn (duplicate_signal_error None)), w')"
      "trades (w_db w') = trades (w_db w)" by blast
  have "process_signal e api s rid p q w = (Inl (AppExn (duplicate_signal_error None)), q, w')"
    using assms(1,4) c(1) by (simp add: process_signal_def resolve_trade_owner_id_def)
  then show ?thesis using c(2) by (simp add: duplicate_signal_error_def make_error_def)
qed

theorem missing_owner_is_reported_as_duplicate_witness:
  "\<exists>w'. process_signal race_env race_api queued_settings ''rid'' test_payload (new_queue 10)
      (test_world\<lparr>owner_cache := Some 99\<rparr>) = (Inl (AppExn (duplicate_signal_error None)), new_queue 10, w') \<and>
     trades (w_db w') = []"
proof -
  have "payload_ok test_payload"
    by (simp add: payload_ok_def test_payload_def SIGNAL_ID_PATTERN_def SYMBOL_PATTERN_def signal_char_def
        symbol_char_def is_lower_def is_upper_def is_digit_def)
  moreover have "numeric_28_12 (p_quantity test_payload) \<noteq> None"
    using test_quantity_stored by (simp add: test_payload_def)
  ultimately show ?thesis
    using missing_owner_is_reported_as_duplicate [OF test_signal_valid, of "test_world\<lparr>owner_cache := Some 99\<rparr>" 99
      race_env race_api "''rid''" "new_queue 10"]
    by (auto simp: test_world_def test_db_def test_owner_def int32_def)
qed

end
