(* ===== verification/Payload_Contract.thy ===== *)
theory Payload_Contract
  imports Trading_Contract
begin

text \<open>
  What validation of a webhook payload guarantees to the code after it: identifiers that fit their
  columns and their alphabets, and a quantity that the database keeps exactly and the exchange is sent
  unchanged.
\<close>

lemma client_order_id_form:
  "length (build_client_order_id sid) = 32 \<and> starts_with ''cat-'' (build_client_order_id sid) \<and>
   (\<forall>c \<in> set (drop 4 (build_client_order_id sid)). is_hex_char c)"
  using sha256_hex_form [of sid] by (auto simp: build_client_order_id_def starts_with_def dest: in_set_takeD)

lemma stored_coefficient:
  assumes "numeric_28_12 (Fin False c e) = Some d" "0 < c" "- 12 \<le> e"
  shows "c < 10 ^ 28 \<and> e \<le> e_top"
proof -
  have q: "c * 10 ^ nat (e + 12) < 10 ^ 28"
    using assms(1,3) by (simp add: numeric_28_12.simps Let_def split: if_splits)
  have "c \<le> c * 10 ^ nat (e + 12)" by simp
  then have c: "c < 10 ^ 28" using q by linarith
  have "(10 :: nat) ^ nat (e + 12) \<le> c * 10 ^ nat (e + 12)" using assms(2) by simp
  then have "(10 :: nat) ^ nat (e + 12) < 10 ^ 28" using q by linarith
  then have "nat (e + 12) < 28" by (rule power_less_imp_less_exp [rotated]) simp
  then show ?thesis using c assms(3) by (simp add: e_top_def)
qed

lemma scaled_coefficient:
  assumes "- 12 \<le> e"
  shows "dec_value (Fin False c e) = of_nat (c * 10 ^ nat (e + 12)) / 10 ^ 12"
proof -
  have "dec_value (Fin False c e) = of_int (Numbers.signed False c * 10 ^ nat (e - (- 12))) * 10 powi (- 12)"
    by (rule dec_value_scaled [OF assms])
  then show ?thesis by (simp add: Numbers.signed_def power_int_minus divide_simps)
qed

lemma refused_quantity_is_large:
  assumes "numeric_28_12 (Fin False c e) = None" "- 12 \<le> e"
  shows "10 ^ 16 \<le> dec_value (Fin False c e)"
proof -
  have "10 ^ 28 \<le> c * 10 ^ nat (e + 12)" using assms by (simp add: numeric_28_12.simps Let_def split: if_splits)
  then have "(10 :: rat) ^ 28 \<le> of_nat (c * 10 ^ nat (e + 12))" by (metis of_nat_le_iff of_nat_numeral of_nat_power)
  then show ?thesis unfolding scaled_coefficient [OF assms(2)] by simp
qed

text \<open>
  C24. An accepted payload fits what comes after it: signal id and symbol are within their lengths and
  alphabets; the client order id has 32 characters, ''cat-'' and hexadecimal digits, within the 36 that
  Binance and the column allow; and the quantity, when the column takes it at all, is positive, below
  10^16, stored without rounding, and printed for the exchange exactly as the submitted value prints.
\<close>
theorem accepted_payload_fits:
  assumes "validate_payload raw = Inr p"
  shows "1 \<le> length (p_signal_id p) \<and> length (p_signal_id p) \<le> 64 \<and> list_all signal_char (p_signal_id p) \<and>
    5 \<le> length (p_symbol p) \<and> length (p_symbol p) \<le> 20 \<and> list_all symbol_char (p_symbol p) \<and>
    length (build_client_order_id (p_signal_id p)) = 32 \<and>
    starts_with ''cat-'' (build_client_order_id (p_signal_id p)) \<and>
    (\<forall>c \<in> set (drop 4 (build_client_order_id (p_signal_id p))). is_hex_char c) \<and>
    p_quantity p = rp_quantity raw \<and> 0 < dec_value (p_quantity p) \<and>
    (case numeric_28_12 (p_quantity p) of
       None \<Rightarrow> 10 ^ 16 \<le> dec_value (p_quantity p)
     | Some d \<Rightarrow> dec_value d = dec_value (rp_quantity raw) \<and> dec_value d < 10 ^ 16 \<and>
         format_decimal d = format_decimal (rp_quantity raw))"
proof -
  have ok: "payload_ok p" by (rule validate_payload_ok [OF assms])
  then obtain c e where q: "p_quantity p = Fin False c e" "0 < c" "- 12 \<le> e" by (auto simp: payload_ok_def)
  have same: "p_quantity p = rp_quantity raw"
    using assms by (auto simp: validate_payload_def validate_quantity_def split: option.splits if_splits)
  have pos: "0 < dec_value (p_quantity p)" using q by (simp add: Numbers.signed_def)
  have "case numeric_28_12 (Fin False c e) of
       None \<Rightarrow> 10 ^ 16 \<le> dec_value (Fin False c e)
     | Some d \<Rightarrow> dec_value d = dec_value (Fin False c e) \<and> dec_value d < 10 ^ 16 \<and>
         format_decimal d = format_decimal (Fin False c e)"
  proof (cases "numeric_28_12 (Fin False c e)")
    case None
    then show ?thesis using refused_quantity_is_large q(3) by simp
  next
    case (Some d)
    then have "c * 10 ^ nat (e + 12) < 10 ^ 28" using q(3) by (simp add: numeric_28_12.simps Let_def split: if_splits)
    then have "of_nat (c * 10 ^ nat (e + 12)) < (10 :: rat) ^ 28" by (metis of_nat_less_iff of_nat_numeral of_nat_power)
    then have "dec_value (Fin False c e) < 10 ^ 16" unfolding scaled_coefficient [OF q(3)] by simp
    then show ?thesis
      using Some stored_quantity [OF Some q(2,3)] stored_coefficient [OF Some q(2,3)] by simp
  qed
  then show ?thesis
    using ok client_order_id_form [of "p_signal_id p"] pos
    by (simp only: same [symmetric] q(1)) (simp add: payload_ok_def SIGNAL_ID_PATTERN_def SYMBOL_PATTERN_def)
qed

theorem accepted_payload_fits_witness:
  "\<exists>p d. validate_payload \<lparr>rp_signal_id = ''sig-1'', rp_symbol = '' btcusdt'', rp_action = ''buy '',
      rp_quantity = Fin False 100 (- 5), rp_secret = None\<rparr> = Inr p \<and>
    numeric_28_12 (p_quantity p) = Some d \<and> dec_value d = 1 / 1000 \<and>
    format_decimal d = format_decimal (Fin False 100 (- 5))"
proof -
  let ?raw = "\<lparr>rp_signal_id = ''sig-1'', rp_symbol = '' btcusdt'', rp_action = ''buy '',
      rp_quantity = Fin False 100 (- 5), rp_secret = None\<rparr>"
  have "validate_signal_id ''sig-1'' = Some ''sig-1''" "validate_symbol '' btcusdt'' = Some ''BTCUSDT''"
    "normalise_action ''buy '' = Some BUY" "validate_quantity (Fin False 100 (- 5)) = Some (Fin False 100 (- 5))"
    by code_simp+
  then obtain p where p: "validate_payload ?raw = Inr p" "p_quantity p = Fin False 100 (- 5)"
    by (simp add: validate_payload_def)
  have d: "numeric_28_12 (Fin False 100 (- 5)) = Some (Fin False 1000000000 (- 12))"
    by (simp add: numeric_28_12.simps)
  have "dec_value (Fin False 100 (- 5)) = 1 / 1000"
    by (simp add: Numbers.signed_def power_int_minus)
  then show ?thesis using accepted_payload_fits [OF p(1)] p d by simp
qed

end
