(* ===== verification/Submission.thy ===== *)
theory Submission
  imports Payload_Contract
begin

text \<open>
  What a submission records: for every way the exchange can answer the order, and the query that follows
  an uncertain one, the status of the row and of the object returned, and the only reasons why a
  submission raises. Everything the trading service writes fits the columns, but for an answer of the
  exchange that does not.
\<close>

section \<open>What fits the columns\<close>

text \<open>The columns a handler may set, and the answers of the exchange they take.\<close>

definition object_fits :: "trade \<Rightarrow> bool" where
  "object_fits t =
     (bigint_ok (binance_order_id t) \<and> varchar_ok 32 (binance_status t) \<and> varchar_ok 64 (error_code t) \<and>
      text_ok (error_message t) \<and> numeric_opt (executed_quantity t) \<noteq> None \<and> numeric_opt (cumulative_quote_quantity t) \<noteq> None)"

definition answer_fits :: "order_result option \<Rightarrow> bool" where
  "answer_fits a =
     (case a of
        None \<Rightarrow> True
      | Some r \<Rightarrow>
          bigint_ok (r_order_id r) \<and> varchar_ok 32 (Some (r_status r)) \<and> numeric_28_12 (r_executed_quantity r) \<noteq> None \<and>
          numeric_28_12 (r_cumulative_quote_quantity r) \<noteq> None)"

lemma stored_object_fits: "store_row t = Some r \<Longrightarrow> object_fits t"
  using store_row_accepts [of t] by (simp add: object_fits_def)

lemma object_fits_updated [simp]: "object_fits (t\<lparr>updated_at := u\<rparr>) = object_fits t"
  by (simp add: object_fits_def)

lemma numeric_opt_Some [simp]: "numeric_opt (Some d) = map_option Some (numeric_28_12 d)"
  by (simp add: numeric_opt_def)

text \<open>
  The cut in \<open>_finalise_failure\<close> makes an error code of any length fit, so that a rejection is refused for a
  NUL in its texts alone; the others fit as their parts do.
\<close>

definition error_texts_ok :: "binance_error \<Rightarrow> bool" where
  "error_texts_ok x = (nul_free (py_str (b_code x)) \<and> nul_free (b_message x))"

lemma failure_object_fits:
  "object_fits t \<Longrightarrow> object_fits (failure_object st c m t) \<longleftrightarrow> nul_free (take 64 c) \<and> nul_free m"
  by (simp add: object_fits_def failure_object_def varchar_ok_def)

lemma unknown_object_fits:
  "object_fits t \<Longrightarrow> object_fits (unknown_object x t) \<longleftrightarrow>
    varchar_ok 64 (Some (code_or (b_code x) ''uncertain'')) \<and> nul_free (b_message x)"
  by (simp add: object_fits_def unknown_object_def)

lemma success_object_fits: "object_fits t \<Longrightarrow> object_fits (success_object r t) \<longleftrightarrow> answer_fits (Some r)"
  by (auto simp: object_fits_def success_object_def answer_fits_def varchar_ok_def)

lemma reconciled_object_fits:
  assumes "object_fits t"
  shows "object_fits (reconciled_object a now t) \<longleftrightarrow> answer_fits a"
proof (cases a)
  case None
  then show ?thesis using assms
    by (simp add: object_fits_def reconciled_object_def answer_fits_def varchar_ok_def not_found_message_def)
next
  case (Some r)
  then show ?thesis using assms
    by (auto simp: object_fits_def reconciled_object_def answer_fits_def varchar_ok_def Let_def)
qed

lemma merged_row_fits:
  assumes "store_row row \<noteq> None" "object_fits new"
  shows "store_row ((merge_row old new row)\<lparr>updated_at := u\<rparr>) \<noteq> None"
  using assms unfolding store_row_accepts object_fits_def by (simp add: merge_row_def)

text \<open>So a commit of one loaded object fails for one reason only.\<close>

lemma commit_object_fails:
  assumes "commit_object e old new w = (Inl x, w')" "select_trade (t_id old) (w_db w) = Some row"
    "store_row row \<noteq> None" "object_fits new"
  shows "\<not> commit_ok e (tick w + 1)"
proof
  assume ok: "commit_ok e (tick w + 1)"
  obtain s where "store_row ((merge_row old new row)\<lparr>updated_at := clock e (tick w)\<rparr>) = Some s"
    using merged_row_fits [OF assms(3,4)] by blast
  then have "\<exists>v d. flush_trade (clock e (tick w)) old new (w_db w) = (Inr v, d)"
    using assms(2) by (simp add: flush_trade_def)
  then show False using assms(1) ok
    by (auto simp: commit_object_def utc_now_def db_commit_def advance_def)
qed

lemma commit_or_raise_fails:
  assumes "commit_or_raise e old new w = (Inl x, w')" "select_trade (t_id old) (w_db w) = Some row"
    "store_row row \<noteq> None" "object_fits new"
  shows "\<not> commit_ok e (tick w + 1)"
proof -
  obtain y where "commit_object e old new w = (Inl y, w')"
    using assms(1) by (auto simp: commit_or_raise_def split: prod.splits sum.splits)
  then show ?thesis using assms(2-4) by (rule commit_object_fails)
qed

lemma commit_object_stored:
  assumes "db_ok (w_db w)" "commit_object e old new w = (Inr v, w')"
    "select_trade (t_id old) (w_db w) = Some row" "store_row row \<noteq> None"
    "select_trade (t_id old) (w_db w') = Some s"
  shows "store_row s \<noteq> None"
proof (cases "dirty old new")
  case True
  then show ?thesis using commit_object_row [OF assms(1,2) True] assms(5) store_row_idem
    by (metis option.distinct(1) option.inject)
next
  case False
  then have "w_db w' = w_db w" using assms(2) by (auto elim!: commit_object_cases flush_trade_cases)
  then show ?thesis using assms(3-5) by simp
qed

text \<open>The exchange client gives its uncertain errors short codes of its own.\<close>

definition code_fits :: "binance_error \<Rightarrow> bool" where
  "code_fits x = (varchar_ok 64 (Some (code_or (b_code x) ''uncertain'')) \<and> nul_free (b_message x))"

lemma handle_response_code: "handle_response r = Inl (BinanceExn (Uncertain m k n)) \<Longrightarrow> code_fits (Uncertain m k n)"
  by (auto simp: handle_response_def Let_def code_fits_def code_or_def varchar_ok_def split: if_splits option.splits json.splits)

lemma place_code_fits:
  assumes "place_market_order e c sy sd qty cid w = (Inl (BinanceExn x), w')" "error_fate x = May_exist"
  shows "code_fits x"
proof -
  obtain q where q: "do_request e c POST (order_path c) (order_params sy sd q cid) True w = (Inl (BinanceExn x), w')"
    using assms(1) from_payload_raises unfolding place_market_order_def
    by (fastforce simp: assert_testnet_def split: sum.splits number_error.splits prod.splits if_splits)
  obtain m k n where "x = Uncertain m k n" using assms(2) by (cases x) auto
  then show ?thesis
    using q unfolding do_request_signed
    by (cases "outcome_at e (signed_request e c POST (order_path c) (order_params sy sd q cid) w) w")
       (auto dest: handle_response_code, auto simp: code_fits_def code_or_def varchar_ok_def)
qed

lemma place_texts_ok:
  assumes "place_market_order e c sy sd qty cid w = (Inl (BinanceExn x), w')" "error_fate x = Never_sent"
  shows "error_texts_ok x"
proof -
  obtain q where q: "do_request e c POST (order_path c) (order_params sy sd q cid) True w = (Inl (BinanceExn x), w')"
    using assms(1) from_payload_raises unfolding place_market_order_def
    by (fastforce simp: assert_testnet_def split: sum.splits number_error.splits prod.splits if_splits)
  obtain m k n where "x = Unavailable m k n" using assms(2) by (cases x) auto
  then show ?thesis
    using q unfolding do_request_signed
    by (cases "outcome_at e (signed_request e c POST (order_path c) (order_params sy sd q cid) w) w")
       (auto simp: error_texts_ok_def handle_response_def Let_def split: if_splits option.splits json.splits)
qed

lemma place_exn: "place_market_order e c sy sd qty cid w = (Inl y, w') \<Longrightarrow> y \<noteq> SqlExn x"
  using from_payload_raises unfolding place_market_order_def do_request_signed
  by (fastforce simp: assert_testnet_def handle_response_def Let_def
      split: sum.splits number_error.splits http_outcome.splits option.splits json.splits if_splits)

section \<open>Statuses that say what is known\<close>

text \<open>The row a worker holds after each way the exchange can answer.\<close>

definition holds_row :: "trade \<Rightarrow> trade \<Rightarrow> world \<Rightarrow> bool" where
  "holds_row t v w =
     (\<exists>s. select_trade (t_id t) (w_db w) = Some s \<and> loaded v s \<and> identity v = identity t)"

text \<open>
  What the row of a submitted trade may end in. A submission that returned holds a record \<open>P\<close> accepts, and
  so does its row; one that raised wrote nothing, or a record \<open>Q\<close> accepts and raised a database error,
  its COMMIT unheard or its object unreadable. \<open>why\<close> is what must have happened for it to raise at all.
\<close>

definition fate_written ::
  "(trade \<Rightarrow> bool) \<Rightarrow> (trade \<Rightarrow> bool) \<Rightarrow> bool \<Rightarrow> trade \<Rightarrow> world \<Rightarrow> (exn, trade) result \<Rightarrow> world \<Rightarrow> bool" where
  "fate_written P Q why t w r w' =
     (case r of
        Inl x \<Rightarrow> why \<and> (w_db w' = w_db w \<or> (\<exists>q. x = SqlExn q) \<and> (\<exists>v. holds_row t v w' \<and> Q v))
      | Inr v \<Rightarrow> P v \<and> (\<exists>v'. holds_row t v' w' \<and> P v'))"

lemma commit_fate_written:
  assumes "db_ok (w_db w)" "commit_or_raise e t new w = (r, w')" "identity new = identity t"
    "select_trade (t_id t) (w_db w) = Some row" "loaded t row" "store_row row \<noteq> None"
    "\<And>v. status v = status new \<Longrightarrow> P v \<and> Q v" "\<not> object_fits new \<Longrightarrow> why" "\<not> commit_ok e (tick w + 1) \<Longrightarrow> why"
  shows "fate_written P Q why t w r w'"
proof -
  have keep: "holds_row t v w' \<and> P v \<and> Q v" if "commit_or_raise e' t new w = (Inr v, w')" for e' v
    using commit_or_raise_fresh [OF assms(1) that assms(3-5)] assms(7) by (auto simp: holds_row_def)
  show ?thesis
  proof (cases r)
    case (Inl y)
    have why using commit_or_raise_fails [OF assms(2) [unfolded Inl] assms(4,6)] assms(8,9) by blast
    moreover from assms(2) [unfolded Inl] have "w_db w' = w_db w \<or>
        y = SqlExn OperationalError \<and> (\<exists>v. commit_or_raise (heard e) t new w = (Inr v, w'))"
      by (rule commit_or_raise_lost)
    ultimately show ?thesis using keep Inl by (auto simp: fate_written_def)
  next
    case (Inr v)
    then show ?thesis using keep assms(2) by (auto simp: fate_written_def)
  qed
qed

lemma report_fate_written:
  assumes "db_ok (w_db w)" "commit_or_report e t new w = (r, w')" "identity new = identity t"
    "select_trade (t_id t) (w_db w) = Some row" "loaded t row" "store_row row \<noteq> None"
    "\<And>v. status v = status new \<Longrightarrow> P v \<and> Q v" "\<not> object_fits new \<Longrightarrow> why" "\<not> commit_ok e (tick w + 1) \<Longrightarrow> why"
  shows "fate_written P Q why t w r w'"
proof -
  obtain r' where r': "commit_or_raise e t new w = (r', w')" "\<And>v. r = Inr v \<longleftrightarrow> r' = Inr v"
      "\<And>y. r = Inl y \<Longrightarrow> \<exists>q q'. y = SqlExn q \<and> r' = Inl (SqlExn q')"
    using commit_or_report_raise [OF assms(2)] by metis
  have "fate_written P Q why t w r' w'" by (rule commit_fate_written [OF assms(1) r'(1) assms(3-9)])
  then show ?thesis using r'(2,3) by (cases r) (fastforce simp: fate_written_def)+
qed

text \<open>
  The query after an uncertain submission: the status its answer stands for, and the one way to lose an
  answer - the COMMIT at tick \<open>k\<close> fails, or the table does not take it.
\<close>

definition answered_status :: "(exn, order_result option) result \<Rightarrow> trade_status" where
  "answered_status a =
     (case a of Inl _ \<Rightarrow> UNKNOWN | Inr None \<Rightarrow> FAILED | Inr (Some r) \<Rightarrow> mapped_status (r_status r))"

definition answer_lost :: "env \<Rightarrow> nat \<Rightarrow> (exn, order_result option) result \<Rightarrow> bool" where
  "answer_lost e k a = (case a of Inl _ \<Rightarrow> False | Inr x \<Rightarrow> \<not> commit_ok e k \<or> \<not> answer_fits x)"

definition recorded_as :: "(exn, order_result option) result \<Rightarrow> bool \<Rightarrow> trade \<Rightarrow> bool" where
  "recorded_as a lost v = (status v = answered_status a \<or> lost \<and> status v = UNKNOWN)"

definition asked_at :: "env \<Rightarrow> client \<Rightarrow> trade \<Rightarrow> nat \<Rightarrow> world \<Rightarrow> (exn, order_result option) result" where
  "asked_at e c t n w = fst (get_order e c (symbol t) (client_order_id t) (w\<lparr>tick := n\<rparr>))"

lemma get_order_tick:
  "tick v = tick w \<Longrightarrow> fst (get_order e c sy cid v) = fst (get_order e c sy cid w)"
  unfolding get_order_fst do_request_signed by (simp add: signed_request_def outcome_at_def)

lemma asked_here: "tick v = n \<Longrightarrow> fst (get_order e c (symbol t) (client_order_id t) v) = asked_at e c t n w"
  unfolding asked_at_def by (rule get_order_tick) simp

lemma get_order_ticks: "get_order e c sy cid w = (r, w') \<Longrightarrow> tick w' = tick w + 2"
  unfolding get_order_def do_request_signed by (auto split: sum.splits exn.splits if_splits)

lemma get_order_exn: "fst (get_order e c sy cid w) = Inl y \<Longrightarrow> (\<exists>x. y = BinanceExn x) \<or> (\<exists>n. y = PyExn n)"
  using get_order_raises [of e c sy cid w] from_payload_raises by (cases y) auto

text \<open>A reconciliation of an unknown trade that returned, one that raised, and what it leaves in the object.\<close>

lemma reconcile_trade_asked:
  assumes "db_ok (w_db w)" "select_trade (t_id t) (w_db w) = Some row" "loaded t row" "status t = UNKNOWN"
    "reconcile_trade e' (binance_client e c) t w = (Inr v, w')"
  shows "status v = answered_status (asked_at e c t (tick w) w0) \<and> holds_row t v w'"
proof -
  have "\<not> is_terminal t" using assms(4) by (simp add: is_terminal_def TERMINAL_STATUSES_def)
  then show ?thesis
    using reconcile_trade_status [OF assms(1-3,5)] assms(4) asked_here [of w "tick w" e c t w0]
    by (auto simp: holds_row_def answered_status_def split: sum.splits option.splits)
qed

lemma reconcile_leaves_asked:
  assumes "status t = UNKNOWN"
  shows "status (reconcile_leaves e' (binance_client e c) t w) = answered_status (asked_at e c t (tick w) w0)"
  using assms asked_here [of w "tick w" e c t w0]
  by (auto simp: reconcile_leaves_def is_terminal_def TERMINAL_STATUSES_def reconciled_status answered_status_def
      split: prod.split sum.split option.split)

lemma reconcile_trade_raises:
  assumes "select_trade (t_id t) (w_db w) = Some row" "store_row row \<noteq> None" "object_fits t"
    "reconcile_trade e (binance_client e c) t w = (Inl y, w')"
  shows "if \<exists>q. y = SqlExn q then answer_lost e (tick w + 4) (asked_at e c t (tick w) w0)
    else asked_at e c t (tick w) w0 = Inl y"
  using assms(4)
proof (cases rule: testnet.reconcile_trade_cases)
  case (unasked x)
  then have a: "asked_at e c t (tick w) w0 = Inl x" "y = x"
    using asked_here [of w "tick w" e c t w0] by (auto split: exn.splits)
  moreover have "x \<noteq> SqlExn q" for q using get_order_exn [of e c "symbol t" "client_order_id t" w x] unasked(2) by auto
  ultimately show ?thesis by simp
next
  case (answered a w1 now k)
  obtain z where z: "k = Inl z" "y = SqlExn z" using answered(4) by (simp split: sum.splits)
  have w1: "w_db (advance w1) = w_db w" "tick (advance w1) + 1 = tick w + 4"
    using testnet.query_store [OF answered(2)] get_order_ticks answered(2) by (auto simp: advance_def)
  have "asked_at e c t (tick w) w0 = Inr a" using asked_here [of w "tick w" e c t w0] answered(2) by simp
  moreover have "\<not> commit_ok e (tick w + 4)" if "answer_fits a"
  proof -
    have "object_fits (reconciled_object a now t)" using that reconciled_object_fits [OF assms(3)] by simp
    then show ?thesis
      using commit_object_fails [of e t _ "advance w1" z w' row] answered(3) assms(1,2) z(1) w1 by metis
  qed
  ultimately show ?thesis using z(2) by (auto simp: answer_lost_def)
qed simp

section \<open>The dangerous case\<close>

lemma uncertain_code_fits:
  "code_fits x \<Longrightarrow> object_fits t \<Longrightarrow> object_fits (unknown_object x t)"
  by (simp add: unknown_object_fits code_fits_def)

lemma handle_uncertain_outcome_status:
  fixes e c t w
  defines "a \<equiv> asked_at e c t (tick w + 2) w" and "lost \<equiv> answer_lost e (tick w + 6) (asked_at e c t (tick w + 2) w)"
  assumes "db_ok (w_db w)" "select_trade (t_id t) (w_db w) = Some row" "loaded t row" "store_row row \<noteq> None"
    "object_fits t" "code_fits x" "handle_uncertain_outcome e (binance_client e c) t x w = (r, w')"
  shows "fate_written (recorded_as a lost) (recorded_as a True) (\<not> commit_ok e (tick w + 1) \<or> lost) t w r w'"
    (is "fate_written ?P ?Q ?why t w r w'")
  using assms(9)
proof (cases rule: testnet.handle_uncertain_outcome_cases)
  case (lost y)
  have "fate_written ?Q ?Q ?why t w (Inl y) w'"
    by (rule commit_fate_written [OF assms(3) lost(1) _ assms(4,5,6)])
       (use uncertain_code_fits [OF assms(8,7)] in
         \<open>simp_all add: unknown_object_def identity_def row_key_def recorded_as_def\<close>)
  then show ?thesis using lost(2) by (simp add: fate_written_def)
next
  case (asked t1 w1 q)
  obtain u where u: "t1 = (unknown_object x t)\<lparr>updated_at := u\<rparr>"
    using commit_object_value asked(1) unfolding commit_or_raise_iff by blast
  have same: "symbol t1 = symbol t" "client_order_id t1 = client_order_id t" "t_id t1 = t_id t"
    "identity t1 = identity t" "status t1 = UNKNOWN"
    unfolding u by (simp_all add: unknown_object_def identity_def row_key_def)
  have fits1: "object_fits t1" using uncertain_code_fits [OF assms(8,7)] by (simp add: u)
  obtain s1 where s1: "select_trade (t_id t1) (w_db w1) = Some s1" "loaded t1 s1"
    using commit_or_raise_fresh [OF assms(3) asked(1) _ assms(4,5)] same by auto
  have stored1: "store_row s1 \<noteq> None"
    using commit_object_stored [OF assms(3) _ assms(4,6)] asked(1) s1(1) same(3) unfolding commit_or_raise_iff by metis
  have ok1: "db_ok (w_db w1)"
    using commit_or_raise_quiet [OF asked(1)] assms(3) only_rows_ok by (auto simp: quiet_def)
  have tick1: "tick w1 = tick w + 2" "tick w1 + 4 = tick w + 6" using commit_or_raise_tick [OF asked(1)] by simp_all
  have same_answer: "asked_at e' c' t1 (tick w1) w = asked_at e' c' t (tick w + 2) w" for e' c'
    by (simp add: asked_at_def same tick1)
  have rec: "?P v \<and> holds_row t v w'" if "reconcile_trade e' (binance_client e c) t1 w1 = (Inr v, w')" for e' v
    using reconcile_trade_asked [OF ok1 s1 same(5) that, of w] same
    by (simp add: same_answer holds_row_def recorded_as_def a_def)
  show ?thesis
  proof (cases q)
    case (Inr v)
    then have "?P v \<and> holds_row t v w'" using rec asked(2) by blast
    then show ?thesis using asked(3) Inr by (auto simp: fate_written_def)
  next
    case (Inl y)
    have raises: "if \<exists>q. y = SqlExn q then lost else a = Inl y"
      using reconcile_trade_raises [OF s1(1) stored1 fits1 asked(2) [unfolded Inl], of w]
      unfolding same_answer tick1(2) lost_def a_def .
    have unknown: "?P t1" using raises same(5) by (auto simp: recorded_as_def answered_status_def split: if_splits)
    have leaves: "?P (reconcile_leaves e (binance_client e c) t1 w1)"
      using reconcile_leaves_asked [OF same(5), of e e c w1 w] by (simp add: same_answer recorded_as_def a_def)
    have swallowed: "after_swallowed e (binance_client e c) t1 w1 y w' = r" using asked(3) Inl by simp
    have kept: "lost \<and> (\<exists>q. r = Inl (SqlExn q)) \<or> (\<exists>v. r = Inr v \<and> ?P v)"
      using swallowed
    proof (cases rule: after_swallowed_cases)
      case (gone q)
      then show ?thesis using raises by auto
    next
      case (returned v)
      then show ?thesis using unknown leaves by blast
    qed
    have "\<exists>v. holds_row t v w' \<and> ?P v"
      using testnet.reconcile_trade_lost [OF asked(2) [unfolded Inl]]
    proof
      assume "w_db w' = w_db w1"
      then have "holds_row t t1 w'" using s1 same by (auto simp: holds_row_def)
      then show ?thesis using unknown by blast
    next
      assume "y = SqlExn OperationalError \<and> (\<exists>v. reconcile_trade (heard e) (binance_client e c) t1 w1 = (Inr v, w'))"
      then show ?thesis using rec by blast
    qed
    moreover have "?Q v" if "?P v" for v using that by (auto simp: recorded_as_def)
    ultimately show ?thesis using kept unfolding fate_written_def by fastforce
  qed
qed

section \<open>The whole submission\<close>

lemma place_log_client:
  assumes "place_market_order e c sy sd qty cid w = (r, w')" "format_decimal qty = Inr q"
    "client_host e (c_base_url c) \<in> ALLOWED_BINANCE_HOSTS"
  shows "requests w' = requests w @ [place_request e c sy sd q cid w] \<and> tick w' = tick w + 2 \<and> w_db w' = w_db w"
proof -
  have ok: "assert_testnet e (c_base_url c) = Inr ()" using assms(3) by (simp add: assert_testnet_def)
  show ?thesis
    using assms(1) unfolding place_sends [OF assms(2) ok] do_request_signed place_request_def
    by (auto split: sum.splits if_splits)
qed

text \<open>
  The record a submission owes its order, by the fate of the request sent in world \<open>w\<close>: after an uncertain
  one the query leaves at the fourth tick and its answer is committed at the eighth, or is \<open>lost\<close>.
\<close>

definition fate_recorded :: "env \<Rightarrow> client \<Rightarrow> trade \<Rightarrow> string \<Rightarrow> world \<Rightarrow> bool \<Rightarrow> trade \<Rightarrow> bool" where
  "fate_recorded e c t q w lost v =
     (case fate_of (outcome_at e (place_request e c (symbol t) (side_value (side t)) q (client_order_id t) w) w) of
        Never_sent \<Rightarrow> status v = FAILED
      | Refused \<Rightarrow> status v = REJECTED
      | Confirmed \<Rightarrow> \<exists>res. status v = mapped_status (r_status res) \<and>
          fst (place_market_order e c (symbol t) (side_value (side t)) (quantity t) (client_order_id t) w) = Inr res
      | May_exist \<Rightarrow> recorded_as (asked_at e c t (tick w + 4) w) lost v)"

text \<open>The reasons a submission has for raising.\<close>

definition cannot_record :: "env \<Rightarrow> client \<Rightarrow> trade \<Rightarrow> world \<Rightarrow> bool" where
  "cannot_record e c t w =
     (\<not> commit_ok e (tick w + 3) \<or>
      (case fst (place_market_order e c (symbol t) (side_value (side t)) (quantity t) (client_order_id t) w) of
         Inr res \<Rightarrow> \<not> answer_fits (Some res)
       | Inl (BinanceExn x) \<Rightarrow>
           (case error_fate x of
              May_exist \<Rightarrow> answer_lost e (tick w + 8) (asked_at e c t (tick w + 4) w)
            | Refused \<Rightarrow> \<not> error_texts_ok x
            | _ \<Rightarrow> False)
       | Inl _ \<Rightarrow> True))"

lemma asked_at_world: "asked_at e c t n w = asked_at e c t n w'"
  unfolding asked_at_def by (rule get_order_tick) simp

lemma record_outcome_fate:
  assumes "db_ok (w_db w1)" "select_trade (t_id t) (w_db w1) = Some t" "store_row t = Some t"
    "record_outcome e (binance_client e c) t (Inl (BinanceExn x)) w1 = (r, w')" "error_fate x = May_exist \<Longrightarrow> code_fits x"
    "error_fate x = Never_sent \<Longrightarrow> error_texts_ok x"
  shows "fate_written
    (\<lambda>v. case error_fate x of Never_sent \<Rightarrow> status v = FAILED | Refused \<Rightarrow> status v = REJECTED | Confirmed \<Rightarrow> False
       | May_exist \<Rightarrow> recorded_as (asked_at e c t (tick w1 + 2) w1)
           (answer_lost e (tick w1 + 6) (asked_at e c t (tick w1 + 2) w1)) v)
    (\<lambda>v. case error_fate x of Never_sent \<Rightarrow> status v = FAILED | Refused \<Rightarrow> status v = REJECTED | Confirmed \<Rightarrow> False
       | May_exist \<Rightarrow> recorded_as (asked_at e c t (tick w1 + 2) w1) True v)
    (\<not> commit_ok e (tick w1 + 1) \<or>
      (case error_fate x of
         May_exist \<Rightarrow> answer_lost e (tick w1 + 6) (asked_at e c t (tick w1 + 2) w1)
       | Refused \<Rightarrow> \<not> error_texts_ok x
       | _ \<Rightarrow> False)) t w1 r w'"
    (is "fate_written ?P ?Q ?why t w1 r w'")
proof -
  have fits: "object_fits t" "store_row t \<noteq> None" using stored_object_fits [OF assms(3)] assms(3) by simp_all
  have failure: "fate_written ?P ?Q ?why t w1 r w'" if "commit_or_report e t (failure_object st k m t) w1 = (r, w')"
      "error_fate x = Never_sent \<and> st = FAILED \<or> error_fate x = Refused \<and> st = REJECTED"
      "error_texts_ok x \<Longrightarrow> nul_free k \<and> nul_free m" for st k m
    by (rule report_fate_written [OF assms(1) that(1) failure_object_keeps assms(2) loaded_refl fits(2)])
       (use that(2,3) assms(6) failure_object_fits [OF fits(1)] nul_free_take in \<open>auto simp: failure_object_def\<close>)
  show ?thesis
  proof (cases "\<exists>m k n. x = Uncertain m k n")
    case True
    then have u: "error_fate x = May_exist" "handle_uncertain_outcome e (binance_client e c) t x w1 = (r, w')"
      using assms(4) by (auto simp: record_outcome_def)
    then show ?thesis
      using handle_uncertain_outcome_status [OF assms(1,2) loaded_refl fits(2,1) assms(5) u(2)] by simp
  next
    case False
    then show ?thesis using assms(4) failure
      by (cases x) (simp_all add: record_outcome_def finalise_failure_def error_texts_ok_def code_or_def)
  qed
qed

text \<open>
  C2. A submission records the fate of its order, for every outcome of the request, of the query that may
  follow, and of the commits. The stored trade becomes FAILED when no connection was made, REJECTED for a
  4xx answer, the mapped status of a confirmed order. After a timeout, a transport error, a 5xx or an
  unreadable answer the exchange is asked about the order: the trade becomes FAILED when the answer is
  -2013, the mapped status when the answer is an order, and is UNKNOWN when the query failed - or when its
  answer could not be committed. The trade returned and its row both hold such a record. A submission
  raises only when a COMMIT failed, an answer does not fit its columns - by a number out of range or a NUL in
  a text, never by a length of an error - or has no readable order id; then the row is untouched, or the error is the database's and the row holds such a record.
\<close>
theorem submission_records_the_fate:
  assumes "db_ok (w_db w)" "select_trade (t_id t) (w_db w) = Some t" "store_row t = Some t"
    "format_decimal (quantity t) = Inr q" "client_host e (c_base_url c) \<in> ALLOWED_BINANCE_HOSTS"
    "submit_to_binance e (binance_client e c) t w = (r, w')"
  shows "case r of
      Inl x \<Rightarrow> cannot_record e c t w \<and> (w_db w' = w_db w \<or>
        (\<exists>y. x = SqlExn y) \<and> (\<exists>v. holds_row t v w' \<and> fate_recorded e c t q w True v))
    | Inr v \<Rightarrow>
        (let lost = answer_lost e (tick w + 8) (asked_at e c t (tick w + 4) w)
         in fate_recorded e c t q w lost v \<and> (\<exists>v'. holds_row t v' w' \<and> fate_recorded e c t q w lost v'))"
proof -
  let ?lost = "answer_lost e (tick w + 8) (asked_at e c t (tick w + 4) w)"
  let ?P = "fate_recorded e c t q w ?lost"
  let ?Q = "fate_recorded e c t q w True"
  obtain o' w1 where p: "place_market_order e c (symbol t) (side_value (side t)) (quantity t) (client_order_id t) w = (o', w1)"
      "record_outcome e (binance_client e c) t o' w1 = (r, w')"
    using assms(6) unfolding submit_to_binance_def by (auto split: prod.splits)
  note fate = place_fate [OF p(1) assms(4,5)]
  have w1: "w_db w1 = w_db w" "tick w1 = tick w + 2" using place_log_client [OF p(1) assms(4,5)] by simp_all
  have ticks: "tick w1 + 1 = tick w + 3" "tick w1 + 2 = tick w + 4" "tick w1 + 6 = tick w + 8" using w1(2) by simp_all
  have ok1: "db_ok (w_db w1)" "select_trade (t_id t) (w_db w1) = Some t" using assms(1,2) w1 by simp_all
  have fits: "object_fits t" "store_row t \<noteq> None" using stored_object_fits [OF assms(3)] assms(3) by simp_all
  have "fate_written ?P ?Q (cannot_record e c t w) t w1 r w'"
  proof (cases o')
    case (Inr res)
    then have c: "commit_or_report e t (success_object res t) w1 = (r, w')"
      using p(2) by (simp add: record_outcome_def finalise_success_def)
    have why: "\<not> object_fits (success_object res t) \<Longrightarrow> cannot_record e c t w"
      "\<not> commit_ok e (tick w1 + 1) \<Longrightarrow> cannot_record e c t w"
      using p(1) Inr success_object_fits [OF fits(1)] unfolding cannot_record_def ticks(1) by simp_all
    show ?thesis
      by (rule report_fate_written [OF ok1(1) c success_object_keeps ok1(2) loaded_refl fits(2) _ why])
         (use fate p(1) Inr in \<open>simp_all add: fate_recorded_def success_object_def\<close>)
  next
    case (Inl y)
    show ?thesis
    proof (cases "\<exists>x. y = BinanceExn x")
      case False
      then have "r = Inl y \<and> w' = w1" using p(2) Inl by (cases y) (simp_all add: record_outcome_def)
      moreover have "cannot_record e c t w" using False p(1) Inl by (cases y) (simp_all add: cannot_record_def)
      ultimately show ?thesis by (simp add: fate_written_def)
    next
      case True
      then obtain x where x: "y = BinanceExn x" by blast
      have f: "error_fate x = fate_of (outcome_at e
          (place_request e c (symbol t) (side_value (side t)) q (client_order_id t) w) w)"
        using fate Inl x by simp
      have fit: "error_fate x = May_exist \<Longrightarrow> code_fits x" "error_fate x = Never_sent \<Longrightarrow> error_texts_ok x"
        using place_code_fits place_texts_ok p(1) Inl x by blast+
      have "error_fate x \<noteq> Confirmed" by (cases x) simp_all
      then show ?thesis
        using record_outcome_fate [OF ok1 assms(3) p(2) [unfolded Inl x] fit] p(1) Inl x
        unfolding fate_written_def fate_recorded_def cannot_record_def f ticks asked_at_world [of e c t "tick w + 4" w1 w]
        by (cases r; cases "fate_of (outcome_at e
          (place_request e c (symbol t) (side_value (side t)) q (client_order_id t) w) w)") (simp_all add: f)
    qed
  qed
  then show ?thesis using w1(1) by (simp add: fate_written_def Let_def split: sum.splits)
qed

text \<open>
  An order that is answered by a timeout and was filled all the same, as the query then says: the trade is
  recorded as FILLED; and one for which no connection was made: FAILED. The database works, so neither raises.
\<close>

definition late_env :: env where
  "late_env = (test_env TimedOut)\<lparr>exchange := \<lambda>_ r. if rq_method r = GET then filled_answer else TimedOut\<rparr>"

lemma late_env_simps [simp]:
  "commit_ok late_env n" "exchange late_env n r = (if rq_method r = GET then filled_answer else TimedOut)"
  by (simp_all add: late_env_def)

lemma late_answer: "asked_at late_env test_client t n w = Inr (Some filled_result)"
  unfolding asked_at_def get_order_some query_outcome_def outcome_at_def
  using from_filled
  by (simp add: signed_request_def filled_answer_def payload_of_def filled_payload_def)

lemma filled_answer_fits: "answer_fits (Some filled_result)"
  by (simp add: answer_fits_def filled_result_def bigint_ok_def varchar_ok_def numeric_28_12.simps)

theorem submission_records_the_fate_witness:
  "(\<exists>v w' row. submit_to_binance late_env (binance_client late_env test_client) test_trade trade_world = (Inr v, w') \<and>
      status v = FILLED \<and> select_trade 1 (w_db w') = Some row \<and> status row = FILLED) \<and>
   (\<exists>v w' row. submit_to_binance (test_env ConnectFailed) (binance_client (test_env ConnectFailed) test_client)
      test_trade trade_world = (Inr v, w') \<and> status v = FAILED \<and>
      select_trade 1 (w_db w') = Some row \<and> status row = FAILED)"
proof -
  have q: "format_decimal (quantity test_trade) = Inr ''0.001''"
    using test_quantity_text by (simp add: test_trade_def)
  have hyps: "db_ok (w_db trade_world)" "select_trade (t_id test_trade) (w_db trade_world) = Some test_trade"
    "store_row test_trade = Some test_trade"
    using trade_db_ok select_test_trade by (simp_all add: trade_world_def test_trade_def store_row_fixed
        numeric_28_12.simps numeric_opt_def bigint_ok_def varchar_ok_def)
  have hosts: "client_host late_env (c_base_url test_client) \<in> ALLOWED_BINANCE_HOSTS"
    "client_host (test_env ConnectFailed) (c_base_url test_client) \<in> ALLOWED_BINANCE_HOSTS"
    using test_client_host [of TimedOut] test_client_host by (simp_all add: client_host_def late_env_def)
  let ?place = "\<lambda>e. place_market_order e test_client (symbol test_trade) (side_value (side test_trade))
    (quantity test_trade) (client_order_id test_trade) trade_world"
  have fates: "fate_of (outcome_at late_env (place_request late_env test_client (symbol test_trade)
      (side_value (side test_trade)) ''0.001'' (client_order_id test_trade) trade_world) trade_world) = May_exist"
    "fate_of (outcome_at (test_env ConnectFailed) (place_request (test_env ConnectFailed) test_client (symbol test_trade)
      (side_value (side test_trade)) ''0.001'' (client_order_id test_trade) trade_world) trade_world) = Never_sent"
    by (simp_all add: outcome_at_def place_request_def signed_request_def)
  have late: "\<not> cannot_record late_env test_client test_trade trade_world"
    using place_fate [OF _ q hosts(1), of "symbol test_trade" "side_value (side test_trade)"
        "client_order_id test_trade" trade_world "fst (?place late_env)" "snd (?place late_env)"] fates(1) filled_answer_fits
    by (simp add: cannot_record_def answer_lost_def late_answer split: sum.splits exn.splits)
  have early: "\<not> cannot_record (test_env ConnectFailed) test_client test_trade trade_world"
    using place_fate [OF _ q hosts(2), of "symbol test_trade" "side_value (side test_trade)"
        "client_order_id test_trade" trade_world "fst (?place (test_env ConnectFailed))"
        "snd (?place (test_env ConnectFailed))"] fates(2)
    by (simp add: cannot_record_def split: sum.splits exn.splits)
  obtain r1 w1 where r1: "submit_to_binance late_env (binance_client late_env test_client) test_trade trade_world = (r1, w1)"
    by (metis prod.collapse)
  obtain r2 w2 where r2: "submit_to_binance (test_env ConnectFailed)
      (binance_client (test_env ConnectFailed) test_client) test_trade trade_world = (r2, w2)"
    by (metis prod.collapse)
  have "t_id test_trade = 1" by (simp add: test_trade_def)
  moreover have "answered_status (Inr (Some filled_result)) = FILLED"
    by (simp add: answered_status_def filled_result_def mapped_status_def BINANCE_STATUS_MAP_def)
  moreover have "\<not> answer_lost late_env (tick trade_world + 8) (Inr (Some filled_result))"
    using filled_answer_fits by (simp add: answer_lost_def)
  ultimately show ?thesis
    using submission_records_the_fate [OF hyps q hosts(1) r1] submission_records_the_fate [OF hyps q hosts(2) r2]
      late early r1 r2 fates
    by (cases r1; cases r2)
       (auto simp: fate_recorded_def recorded_as_def late_answer holds_row_def loaded_def)
qed

section \<open>Values a column refuses\<close>

lemma commit_object_error:
  assumes "commit_object e old new w = (Inl x, w')" "select_trade (t_id old) (w_db w) = Some row"
    "store_row row \<noteq> None" "object_fits new"
  shows "x = OperationalError"
proof -
  obtain s where "store_row ((merge_row old new row)\<lparr>updated_at := clock e (tick w)\<rparr>) = Some s"
    using merged_row_fits [OF assms(3,4)] by blast
  then have "\<exists>v d. flush_trade (clock e (tick w)) old new (w_db w) = (Inr v, d)"
    using assms(2) by (simp add: flush_trade_def)
  then show ?thesis using assms(1)
    by (auto simp: commit_object_def utc_now_def db_commit_def split: if_splits)
qed

lemma commit_or_report_data_error:
  assumes "commit_or_report e old new w = (Inl (SqlExn DataError), w')" "select_trade (t_id old) (w_db w) = Some row"
    "store_row row \<noteq> None"
  shows "\<not> object_fits new"
proof
  assume "object_fits new"
  moreover have "commit_object e old new w = (Inl DataError, w')"
    using assms(1) by (auto simp: commit_or_report_def split: prod.splits sum.splits if_splits)
  ultimately show False using commit_object_error assms(2,3) by blast
qed

lemma handle_uncertain_outcome_no_data_error:
  assumes "select_trade (t_id t) (w_db w) = Some row" "store_row row \<noteq> None" "object_fits t" "code_fits x"
  shows "fst (handle_uncertain_outcome e (binance_client e c) t x w) \<noteq> Inl (SqlExn DataError)"
proof
  obtain r w' where h: "handle_uncertain_outcome e (binance_client e c) t x w = (r, w')" by (metis prod.collapse)
  assume "fst (handle_uncertain_outcome e (binance_client e c) t x w) = Inl (SqlExn DataError)"
  then have r: "r = Inl (SqlExn DataError)" using h by simp
  from h show False
  proof (cases rule: testnet.handle_uncertain_outcome_cases)
    case (lost y)
    then have "commit_object e t (unknown_object x t) w = (Inl DataError, w')"
      using r by (auto simp: commit_or_raise_def split: prod.splits sum.splits)
    then show False
      using commit_object_error [OF _ _ assms(2) uncertain_code_fits [OF assms(4,3)]] assms(1) by fastforce
  next
    case (asked t1 w1 q)
    then show False using r by (auto simp: after_swallowed_def split: sum.splits exn.splits object_state.splits)
  qed
qed

lemma create_pending_trade_data_error:
  assumes "create_pending_trade e p owner w = (Inl (SqlExn DataError), w')" "payload_ok p"
  shows "numeric_28_12 (p_quantity p) = None"
proof -
  let ?t = "new_trade p owner (clock e (tick w)) (clock e (tick (advance w)))"
  have "fst (insert_trade ?t (w_db w)) = Inl DataError"
    using assms(1)
    by (auto simp: create_pending_trade_def utc_now_def db_commit_def split: prod.splits sum.splits sql_error.splits if_splits)
  then have "store_row (?t\<lparr>t_id := trade_seq (w_db w)\<rparr>) = None"
    by (auto simp: insert_trade_def Let_def split: option.splits if_splits)
  then show ?thesis
    using assms(2) store_row_accepts [of "?t\<lparr>t_id := trade_seq (w_db w)\<rparr>"]
      payload_texts [OF assms(2)] build_client_order_id_nul_free [of "p_signal_id p"]
    by (auto simp: new_trade_def payload_ok_def SIGNAL_ID_PATTERN_def SYMBOL_PATTERN_def client_order_id_form
        bigint_ok_def varchar_ok_def numeric_opt_def)
qed

text \<open>
  C18. No text of the service overflows a column: creating the trade of an accepted payload meets a
  DataError only when the quantity is 10^16 or more; submitting a stored trade, only when the exchange
  confirmed the order with an id, a status or an amount its columns do not take, or put a NUL into the
  texts of an error - never because of the length of an error code or message, nor of an uncertain outcome;
  and reconciling one, only when the exchange's answer to the query is such an order.
\<close>
theorem columns_refuse_the_exchange_only:
  assumes "validate_payload raw = Inr p" "select_trade (t_id t) (w_db w) = Some t" "store_row t = Some t"
  shows "(fst (create_pending_trade e p owner v) = Inl (SqlExn DataError) \<longrightarrow> 10 ^ 16 \<le> dec_value (rp_quantity raw)) \<and>
    (fst (submit_to_binance e (binance_client e c) t w) = Inl (SqlExn DataError) \<longrightarrow>
      (case fst (place_market_order e c (symbol t) (side_value (side t)) (quantity t) (client_order_id t) w) of
         Inr res \<Rightarrow> \<not> answer_fits (Some res)
       | Inl (BinanceExn x) \<Rightarrow> error_fate x = Refused \<and> \<not> error_texts_ok x
       | Inl _ \<Rightarrow> False)) \<and>
    (fst (reconcile_trade e (binance_client e c) t w) = Inl (SqlExn DataError) \<longrightarrow>
      (\<exists>res. fst (get_order e c (symbol t) (client_order_id t) w) = Inr (Some res) \<and> \<not> answer_fits (Some res)))"
proof (intro conjI impI)
  have fits: "object_fits t" "store_row t \<noteq> None" using stored_object_fits [OF assms(3)] assms(3) by simp_all
  {
    assume a: "fst (create_pending_trade e p owner v) = Inl (SqlExn DataError)"
    have ok: "payload_ok p" by (rule validate_payload_ok [OF assms(1)])
    then obtain k n where q: "p_quantity p = Fin False k n" "- 12 \<le> n" by (auto simp: payload_ok_def)
    have "p_quantity p = rp_quantity raw"
      using assms(1) by (auto simp: validate_payload_def validate_quantity_def split: option.splits if_splits)
    moreover have "numeric_28_12 (p_quantity p) = None"
      using a create_pending_trade_data_error [OF _ ok, of e owner v] by (metis prod.collapse)
    ultimately show "10 ^ 16 \<le> dec_value (rp_quantity raw)" using q refused_quantity_is_large by metis
  next
    assume a: "fst (submit_to_binance e (binance_client e c) t w) = Inl (SqlExn DataError)"
    obtain o' w1 where p: "place_market_order e c (symbol t) (side_value (side t)) (quantity t) (client_order_id t) w = (o', w1)"
      by (metis prod.collapse)
    have db: "w_db w1 = w_db w" using place_market_order_log [OF p] by (simp add: same_store_def)
    have r: "fst (record_outcome e (binance_client e c) t o' w1) = Inl (SqlExn DataError)"
      using a p by (simp add: submit_to_binance_def split: prod.splits)
    have unfit: "\<not> object_fits new" if "fst (commit_or_report e t new w1) = Inl (SqlExn DataError)" for new
      using commit_or_report_data_error [of e t new w1 _ t] that assms(2) db fits(2) by (metis prod.collapse)
    show "case fst (place_market_order e c (symbol t) (side_value (side t)) (quantity t) (client_order_id t) w) of
         Inr res \<Rightarrow> \<not> answer_fits (Some res)
       | Inl (BinanceExn x) \<Rightarrow> error_fate x = Refused \<and> \<not> error_texts_ok x
       | Inl _ \<Rightarrow> False"
    proof (cases o')
      case (Inr res)
      then show ?thesis using r unfit [of "success_object res t"] success_object_fits [OF fits(1)] p
        by (simp add: record_outcome_def finalise_success_def)
    next
      case (Inl y)
      show ?thesis
      proof (cases y)
        case (BinanceExn x)
        show ?thesis
        proof (cases "\<exists>m k n. x = Uncertain m k n")
          case True
          then have "error_fate x = May_exist" by auto
          then have "code_fits x" using place_code_fits p Inl BinanceExn by blast
          then have False
            using handle_uncertain_outcome_no_data_error [of t w1 t x e c] assms(2) db fits r Inl BinanceExn True
            by (auto simp: record_outcome_def)
          then show ?thesis ..
        next
          case False
          have failed: "\<not> (nul_free code \<and> nul_free msg)"
            if "fst (finalise_failure e t st code msg w1) = Inl (SqlExn DataError)" for st code msg
            using unfit [of "failure_object st code msg t"] failure_object_fits [OF fits(1)] that nul_free_take
            by (auto simp: finalise_failure_def)
          show ?thesis using False r Inl BinanceExn p place_texts_ok
            by (cases x) (fastforce simp: record_outcome_def error_texts_ok_def code_or_def dest: failed)+
        qed
      next
        case (SqlExn x)
        then show ?thesis using place_exn p Inl by fastforce
      qed (use r Inl in \<open>simp_all add: record_outcome_def\<close>)
    qed
  next
    assume a: "fst (reconcile_trade e (binance_client e c) t w) = Inl (SqlExn DataError)"
    obtain r w' where r: "reconcile_trade e (binance_client e c) t w = (r, w')" by (metis prod.collapse)
    then have d: "r = Inl (SqlExn DataError)" using a by simp
    from r show "\<exists>res. fst (get_order e c (symbol t) (client_order_id t) w) = Inr (Some res) \<and> \<not> answer_fits (Some res)"
    proof (cases rule: testnet.reconcile_trade_cases)
      case (unasked x)
      then show ?thesis using d get_order_exn [of e c "symbol t" "client_order_id t" w x] by auto
    next
      case (answered ans w1 now k)
      then have k: "k = Inl DataError" using d by (simp split: sum.splits)
      have "w_db (advance w1) = w_db w" using testnet.query_store [OF answered(2)] by simp
      then have "\<not> object_fits (reconciled_object ans now t)"
        using commit_object_error [of e t _ "advance w1" DataError w' t] answered(3) k assms(2) fits(2) by fastforce
      then have "\<not> answer_fits ans" using reconciled_object_fits [OF fits(1)] by simp
      moreover obtain res where "ans = Some res" using \<open>\<not> answer_fits ans\<close> by (cases ans) (simp_all add: answer_fits_def)
      ultimately show ?thesis using answered(2) by simp
    qed (use d in simp)
  }
qed

text \<open>A rejection with a code of a hundred characters is recorded; an order id beyond a BIGINT is not.\<close>

definition wordy_answer :: http_outcome where
  "wordy_answer = Answered \<lparr>rs_status = 400, rs_retry_after = None,
     rs_body = Some (JObj [(''code'', JStr (replicate 100 (CHR ''x'')))])\<rparr>"

theorem columns_refuse_the_exchange_only_witness:
  "(\<exists>p. validate_payload \<lparr>rp_signal_id = ''sig-1'', rp_symbol = '' btcusdt'', rp_action = ''buy '',
       rp_quantity = Fin False 100 (- 5), rp_secret = None\<rparr> = Inr p \<and>
     fst (create_pending_trade (test_env wordy_answer) p 1 test_world) \<noteq> Inl (SqlExn DataError)) \<and>
   fst (submit_to_binance (test_env wordy_answer) (binance_client (test_env wordy_answer) test_client) test_trade trade_world) \<noteq>
     Inl (SqlExn DataError) \<and>
   fst (reconcile_trade late_env (binance_client late_env test_client) test_trade trade_world) \<noteq> Inl (SqlExn DataError)"
proof -
  let ?raw = "\<lparr>rp_signal_id = ''sig-1'', rp_symbol = '' btcusdt'', rp_action = ''buy '',
      rp_quantity = Fin False 100 (- 5), rp_secret = None\<rparr>"
  have "validate_signal_id ''sig-1'' = Some ''sig-1''" "validate_symbol '' btcusdt'' = Some ''BTCUSDT''"
    "normalise_action ''buy '' = Some BUY" "validate_quantity (Fin False 100 (- 5)) = Some (Fin False 100 (- 5))"
    by code_simp+
  then obtain p where p: "validate_payload ?raw = Inr p" by (simp add: validate_payload_def)
  have t: "select_trade (t_id test_trade) (w_db trade_world) = Some test_trade" "store_row test_trade = Some test_trade"
    using select_test_trade by (simp_all add: trade_world_def test_trade_def store_row_fixed
        numeric_28_12.simps numeric_opt_def bigint_ok_def varchar_ok_def)
  have small: "\<not> 10 ^ 16 \<le> dec_value (rp_quantity ?raw)" by (simp add: Numbers.signed_def power_int_minus)
  have four: "str_int 400 = ''400''" "nul_free (replicate 100 (CHR ''x''))" by (code_simp, simp add: nul_free_def)
  have refused: "case fst (place_market_order (test_env wordy_answer) test_client sy sd qty cid trade_world) of
      Inr res \<Rightarrow> False | Inl (BinanceExn x) \<Rightarrow> error_texts_ok x | Inl _ \<Rightarrow> True" for sy sd qty cid
    by (auto simp: place_market_order_def assert_testnet_def do_request_signed outcome_at_def wordy_answer_def handle_response_def Let_def
        error_texts_ok_def response_error_code_def response_error_message_def error_body_def json_get_def
        four
        split: sum.splits number_error.splits prod.splits if_splits)
  have query: "fst (get_order late_env test_client (symbol test_trade) (client_order_id test_trade) trade_world) = Inr (Some filled_result)"
    using late_answer [of test_trade "tick trade_world" trade_world] by (simp add: asked_at_def)
  show ?thesis
    using columns_refuse_the_exchange_only [OF p t, of "test_env wordy_answer" 1 test_world test_client]
      columns_refuse_the_exchange_only [OF p t, of late_env 1 test_world test_client] p small query filled_answer_fits
      refused [of "symbol test_trade" "side_value (side test_trade)" "quantity test_trade" "client_order_id test_trade"]
    by (intro conjI exI [of _ p]) (auto split: sum.splits exn.splits)
qed

end
