(* ===== verification/Exchange_Contract.thy ===== *)
theory Exchange_Contract
  imports Fixtures
begin

text \<open>
  What the exchange client promises, over the definitions of theory Binance: its errors tell the fate of
  an order, its orders leave for a testnet host only, and a query denies an order in one case only.
\<close>

section \<open>Settings and hosts\<close>

text \<open>
  C17. The safety gate: settings that load name a Binance testnet host, never a production one, whatever
  spelling of the URL was configured; and \<open>enforce_testnet_only\<close> accepts exactly the http(s) URLs whose
  host is on the allow list.
\<close>
theorem settings_name_a_testnet:
  "(case load_settings db_url raw of
      Inl names \<Rightarrow> names \<noteq> []
    | Inr s \<Rightarrow> binance_host s \<in> ALLOWED_BINANCE_HOSTS \<and> binance_host s \<notin> KNOWN_PRODUCTION_BINANCE_HOSTS) \<and>
   is_right (enforce_testnet_only v) =
     (case urlsplit (rstrip_char (CHR ''/'') (py_strip v)) of
        Inl _ \<Rightarrow> False
      | Inr p \<Rightarrow> scheme p \<in> {''http'', ''https''} \<and> py_lower (url_hostname p) \<in> ALLOWED_BINANCE_HOSTS)"
proof
  show "case load_settings db_url raw of
      Inl names \<Rightarrow> names \<noteq> []
    | Inr s \<Rightarrow> binance_host s \<in> ALLOWED_BINANCE_HOSTS \<and> binance_host s \<notin> KNOWN_PRODUCTION_BINANCE_HOSTS"
  proof (cases "load_settings db_url raw")
    case (Inl names)
    then show ?thesis by (auto simp: load_settings_def split: if_splits)
  next
    case (Inr s)
    then show ?thesis using load_settings_host [OF Inr] hosts_disjoint by auto
  qed
  show "is_right (enforce_testnet_only v) =
     (case urlsplit (rstrip_char (CHR ''/'') (py_strip v)) of
        Inl _ \<Rightarrow> False
      | Inr p \<Rightarrow> scheme p \<in> {''http'', ''https''} \<and> py_lower (url_hostname p) \<in> ALLOWED_BINANCE_HOSTS)"
    using hosts_disjoint unfolding enforce_testnet_only_def Let_def is_right_def
    by (cases "urlsplit (rstrip_char (CHR ''/'') (py_strip v))") auto
qed

lemma place_request_sent:
  assumes "place_market_order e c sy sd qty cid w = (r, w')" "requests w' \<noteq> requests w"
  shows "client_host e (c_base_url c) \<in> ALLOWED_BINANCE_HOSTS \<and>
    (\<exists>q. format_decimal qty = Inr q \<and> requests w' = requests w @ [place_request e c sy sd q cid w])"
proof (cases "client_host e (c_base_url c) \<in> ALLOWED_BINANCE_HOSTS")
  case False
  then show ?thesis using assms by (simp add: place_market_order_def assert_testnet_def)
next
  case host: True
  show ?thesis
  proof (cases "format_decimal qty")
    case (Inl x)
    with host show ?thesis using assms
      by (cases x) (simp_all add: place_market_order_def assert_testnet_def)
  next
    case (Inr q)
    have ok: "assert_testnet e (c_base_url c) = Inr ()" using host by (simp add: assert_testnet_def)
    have "requests w' = requests w @ [place_request e c sy sd q cid w]"
      using assms(1) unfolding place_sends [OF Inr ok] do_request_signed place_request_def
      by (auto split: sum.splits if_splits)
    then show ?thesis using Inr host by simp
  qed
qed

text \<open>
  C16. No order leaves for any host off the allow list: a call of \<open>place_market_order\<close> that sends
  anything has checked the host first, and sends one request, an order carrying the given client order
  id, the formatted quantity and a signature.
\<close>
theorem orders_go_to_a_testnet:
  "(let (r, w') = place_market_order e c sy sd qty cid w
    in requests w' = requests w \<or>
       client_host e (c_base_url c) \<in> ALLOWED_BINANCE_HOSTS - KNOWN_PRODUCTION_BINANCE_HOSTS \<and>
       (\<exists>q. format_decimal qty = Inr q \<and>
          requests w' = requests w @ [place_request e c sy sd q cid w]))"
proof -
  obtain r w' where p: "place_market_order e c sy sd qty cid w = (r, w')"
    by (cases "place_market_order e c sy sd qty cid w") auto
  show ?thesis using place_request_sent [OF p] hosts_disjoint unfolding p by auto
qed

section \<open>Errors and fates\<close>

text \<open>
  C14. The typed errors are honest: what \<open>place_market_order\<close> reports is the fate of its one request -
  a rejection only for a 4xx answer, \<open>BinanceUnavailableError\<close> only when no connection was made,
  \<open>BinanceUncertainError\<close> for every timeout, transport error, 5xx and unreadable answer, and a result
  only for a readable answer below 400.
\<close>
theorem place_reports_the_fate:
  assumes "format_decimal qty = Inr q" "client_host e (c_base_url c) \<in> ALLOWED_BINANCE_HOSTS"
  shows "case fst (place_market_order e c sy sd qty cid w) of
      Inl (BinanceExn x) \<Rightarrow> error_fate x = fate_of (outcome_at e (place_request e c sy sd q cid w) w)
    | _ \<Rightarrow> fate_of (outcome_at e (place_request e c sy sd q cid w) w) = Confirmed"
  by (rule place_fate [OF _ assms, of sy sd cid w _ "snd (place_market_order e c sy sd qty cid w)"]) simp

theorem place_reports_the_fate_witness:
  "case fst (place_market_order (test_env TimedOut) test_client ''BTCUSDT'' ''BUY'' (Fin False 1 (- 3)) ''cat-1'' trade_world) of
      Inl (BinanceExn x) \<Rightarrow> error_fate x = May_exist
    | _ \<Rightarrow> False"
proof -
  have q: "format_decimal (Fin False 1 (- 3)) = Inr ''0.001''" by code_simp
  have out: "outcome_at (test_env TimedOut) r trade_world = TimedOut" for r by (simp add: outcome_at_def)
  show ?thesis
    using place_reports_the_fate [OF q test_client_host, of TimedOut "''BTCUSDT''" "''BUY''" "''cat-1''" trade_world]
    unfolding out by (simp split: sum.splits exn.splits)
qed

text \<open>
  C15. "Could not ask" is never "there is no such order": a query sends one signed GET for the client order
  id and changes no table. It answers \<open>None\<close> exactly when the exchange answered 4xx with code -2013, and an
  order exactly when a readable answer below 400 has the fields of one. Everything else raises: no
  connection, a timeout, a transport error, a 5xx, a rate limit, a rejection with any other code, an
  unreadable answer - with the typed error of that fate - and an order id that is no number.
\<close>
theorem query_denies_only_on_2013:
  "(let (r, w') = get_order e c sy cid w
    in w_db w' = w_db w \<and>
       requests w' = requests w @ [signed_request e c GET ''/api/v3/order'' (query_params sy cid) w] \<and>
       (r = Inr None \<longleftrightarrow> (\<exists>a. query_outcome e c sy cid w = Answered a \<and> 400 \<le> rs_status a \<and> rs_status a < 500 \<and>
          json_eq_int (response_error_code a) (- 2013))) \<and>
       (\<forall>res. r = Inr (Some res) \<longleftrightarrow> (\<exists>a j. query_outcome e c sy cid w = Answered a \<and> rs_status a < 400 \<and>
          rs_body a = Some j \<and> from_payload (payload_of j) = Inr res)) \<and>
       (case r of
          Inr _ \<Rightarrow> True
        | Inl (BinanceExn x) \<Rightarrow> error_fate x = fate_of (query_outcome e c sy cid w)
        | Inl y \<Rightarrow> \<exists>a j. query_outcome e c sy cid w = Answered a \<and> rs_status a < 400 \<and> rs_body a = Some j \<and>
            from_payload (payload_of j) = Inl y))"
proof -
  obtain r w' where g: "get_order e c sy cid w = (r, w')" by (cases "get_order e c sy cid w") auto
  have r: "r = fst (get_order e c sy cid w)" using g by simp
  have sent: "w_db w' = w_db w \<and>
      requests w' = requests w @ [signed_request e c GET ''/api/v3/order'' (query_params sy cid) w]"
    using g by (rule get_order_sends)
  have none: "r = Inr None \<longleftrightarrow> (\<exists>a. query_outcome e c sy cid w = Answered a \<and> 400 \<le> rs_status a \<and> rs_status a < 500 \<and>
      json_eq_int (response_error_code a) (- 2013))"
    unfolding r get_order_missing says_no_such_order_def ORDER_DOES_NOT_EXIST_CODE_def
    by (simp split: http_outcome.split)
  show ?thesis
    unfolding g Let_def prod.case
    using sent none get_order_some [of e c sy cid w] get_order_raises [of e c sy cid w] unfolding r by blast
qed

end
