(* ===== verification/Wire.thy ===== *)
theory Wire
  imports Payload_Contract Exchange_Contract
begin

text \<open>
  The text of a signed request. \<open>_sign\<close> encodes the parameters with \<open>urllib\<close>, but it is the HTTP library that
  writes them into the URL, with an encoder of its own. The two texts agree because nothing the services
  put into a request needs an escape: symbols, sides, plain decimals, hexadecimal ids and integers.
\<close>

section \<open>Encoders\<close>

definition plain_text :: "(string \<times> string) list \<Rightarrow> string" where
  "plain_text kvs = py_join ''&'' (map (\<lambda>kv. fst kv @ CHR ''='' # snd kv) kvs)"

definition plain_pair :: "string \<times> string \<Rightarrow> bool" where
  "plain_pair kv = (list_all url_safe (fst kv) \<and> list_all url_safe (snd kv))"

text \<open>
  What is relied on of an encoder of parameters, and documented for RFC 3986: the unreserved characters
  stand for themselves, pairs are joined by an ampersand in their order.
\<close>

definition encodes_plainly :: "((string \<times> string) list \<Rightarrow> string) \<Rightarrow> bool" where
  "encodes_plainly enc = (\<forall>kvs. list_all plain_pair kvs \<longrightarrow> enc kvs = plain_text kvs)"

lemma quote_plain: "list_all url_safe s \<Longrightarrow> quote_plus s = s"
  by (induction s) (simp_all add: quote_plus_def quote_char_def)

lemma urlencode_plain: "encodes_plainly urlencode"
proof -
  have "urlencode kvs = plain_text kvs" if "list_all plain_pair kvs" for kvs
  proof -
    have "map encode_pair kvs = map (\<lambda>kv. fst kv @ CHR ''='' # snd kv) kvs"
      using that by (simp add: list_all_iff plain_pair_def encode_pair_def quote_plain)
    then show ?thesis by (simp only: urlencode_def plain_text_def)
  qed
  then show ?thesis by (simp add: encodes_plainly_def)
qed

lemma plain_text_snoc: "kvs \<noteq> [] \<Longrightarrow> plain_text (kvs @ [(k, v)]) = plain_text kvs @ CHR ''&'' # k @ CHR ''='' # v"
proof -
  have "py_join ''&'' (xs @ [y]) = py_join ''&'' xs @ CHR ''&'' # y" if "xs \<noteq> []" for xs :: "string list" and y
    using that by (induction "''&''" xs rule: py_join.induct) auto
  then show "kvs \<noteq> [] \<Longrightarrow> ?thesis" by (simp add: plain_text_def)
qed

section \<open>What the services put into a request\<close>

lemma digits_safe: "list_all is_digit s \<Longrightarrow> list_all url_safe s"
  by (auto simp: list_all_iff url_safe_def)

lemma str_int_safe: "list_all url_safe (str_int i)"
  using digits_safe [OF str_nat_digits] by (auto simp: str_int_def url_safe_def)

lemma hex_safe: "is_hex_char c \<Longrightarrow> url_safe c"
  by (auto simp: is_hex_char_def url_safe_def is_lower_def)

lemma format_f_safe: "list_all url_safe (format_f neg c e)"
proof -
  have d: "url_safe x" if "x \<in> set (str_nat n) \<or> x \<in> set (zeros n)" for x n
    using that digits_safe [OF str_nat_digits [of n]] digits_safe [OF zeros_digits [of n]] by (auto simp: list_all_iff)
  have "url_safe (CHR ''0'')" "url_safe (CHR ''.'')" "url_safe (CHR ''-'')" by (simp_all add: url_safe_def is_digit_def)
  then show ?thesis
    using d by (auto simp: format_f_def Let_def list_all_iff dest: in_set_takeD in_set_dropD split: if_splits)
qed

lemma rstrip_char_subset: "set (rstrip_char x s) \<subseteq> set s"
  by (auto simp: rstrip_char_def rstrip_by_def dest: set_dropWhileD)

lemma format_decimal_safe:
  assumes "format_decimal d = Inr q"
  shows "list_all url_safe q"
proof (cases d)
  case (Fin neg c e)
  obtain c' e' where "dec_normalize c e = Inr (c', e')"
    using assms Fin by (auto simp: format_decimal.simps split: sum.splits)
  then have "q = ''0'' \<or> set q \<subseteq> set (format_f neg c' e')"
    using assms Fin subset_trans [OF rstrip_char_subset rstrip_char_subset]
    by (auto simp only: format_decimal.simps Let_def sum.case prod.case split: if_splits)
  then show ?thesis using format_f_safe [of neg c' e']
    by (auto simp: list_all_iff url_safe_def is_digit_def)
qed (use assms in \<open>simp_all add: format_decimal.simps\<close>)

lemma client_order_id_safe: "list_all url_safe (build_client_order_id s)"
proof -
  have "build_client_order_id s = ''cat-'' @ drop 4 (build_client_order_id s)" by (simp add: build_client_order_id_def)
  moreover have "list_all url_safe (drop 4 (build_client_order_id s))"
    using client_order_id_form [of s] hex_safe by (auto simp: list_all_iff)
  moreover have "list_all url_safe ''cat-''" by (simp add: url_safe_def is_lower_def)
  ultimately show ?thesis by (metis list_all_append)
qed

section \<open>The request as it leaves\<close>

lemma signed_params_fresh:
  assumes "fst ` set ps \<inter> {''timestamp'', ''recvWindow'', ''signature''} = {}"
  shows "signed_params c now ps = (let p = ps @ [(''timestamp'', str_int (now div 1000)), (''recvWindow'', str_int (c_recv_window c))]
    in p @ [(''signature'', hmac_sha256_hex (c_secret_key c) (urlencode p))])"
proof -
  have "''timestamp'' \<notin> fst ` set ps" "''recvWindow'' \<notin> fst ` set ps" "''signature'' \<notin> fst ` set ps" using assms by auto
  then show ?thesis by (simp add: signed_params_def dict_set_def sign_def Let_def)
qed

lemma signed_text:
  assumes "encodes_plainly enc" "list_all plain_pair ps" "fst ` set ps \<inter> {''timestamp'', ''recvWindow'', ''signature''} = {}"
  shows "\<exists>text. enc (signed_params c now ps) = text @ ''&signature='' @ hmac_sha256_hex (c_secret_key c) text \<and>
    parse_qsl text = ps @ [(''timestamp'', str_int (now div 1000)), (''recvWindow'', str_int (c_recv_window c))]"
proof -
  let ?p = "ps @ [(''timestamp'', str_int (now div 1000)), (''recvWindow'', str_int (c_recv_window c))]"
  let ?sig = "hmac_sha256_hex (c_secret_key c) (urlencode ?p)"
  have names: "list_all url_safe ''timestamp''" "list_all url_safe ''recvWindow''" "list_all url_safe ''signature''"
    by (simp_all add: url_safe_def is_lower_def is_upper_def)
  have p: "list_all plain_pair ?p" using assms(2) names str_int_safe by (simp add: plain_pair_def)
  have "list_all url_safe ?sig" using hmac_hex_form hex_safe by (auto simp: list_all_iff)
  then have "list_all plain_pair (?p @ [(''signature'', ?sig)])" using p names by (simp add: plain_pair_def)
  then have "enc (signed_params c now ps) = plain_text (?p @ [(''signature'', ?sig)])"
    using assms(1) unfolding signed_params_fresh [OF assms(3)] Let_def encodes_plainly_def by blast
  also have "\<dots> = plain_text ?p @ ''&signature='' @ ?sig" by (subst plain_text_snoc) simp_all
  also have "plain_text ?p = urlencode ?p" using urlencode_plain p unfolding encodes_plainly_def by simp
  finally show ?thesis using parse_urlencode [of ?p] by blast
qed

lemma payload_symbol_safe:
  assumes "validate_payload raw = Inr p"
  shows "list_all url_safe (p_symbol p)"
  using validate_payload_ok [OF assms]
  by (auto simp: payload_ok_def SYMBOL_PATTERN_def symbol_char_def url_safe_def list_all_iff)

lemma side_safe: "list_all url_safe (side_value d)"
  by (cases d) (simp_all add: url_safe_def is_upper_def)

lemma order_params_plain:
  assumes "validate_payload raw = Inr p" "format_decimal qty = Inr q"
  shows "list_all plain_pair (order_params (p_symbol p) (side_value (p_action p)) q (build_client_order_id sid))"
  using payload_symbol_safe [OF assms(1)] format_decimal_safe [OF assms(2)] client_order_id_safe side_safe
  by (simp add: order_params_def plain_pair_def) (simp add: url_safe_def is_lower_def is_upper_def)

lemma query_params_plain:
  assumes "validate_payload raw = Inr p"
  shows "list_all plain_pair (query_params (p_symbol p) (build_client_order_id sid))"
  using payload_symbol_safe [OF assms(1)] client_order_id_safe
  by (simp add: query_params_def plain_pair_def) (simp add: url_safe_def is_lower_def is_upper_def)

text \<open>
  C23. What is signed is what is sent: for an accepted signal, whatever its quantity, the query string the
  HTTP library writes for an order, and for the query about it, is a text followed by \<open>&signature=\<close> and the
  HMAC-SHA256 of exactly that text under the secret key; and the text reads back as the order - symbol,
  side, MARKET, plain quantity, client order id - with the time in milliseconds and the receive window.
  It is the received text that Binance checks the signature against.
\<close>
theorem signed_text_is_sent:
  assumes "validate_payload raw = Inr p" "encodes_plainly enc"
    "place_market_order e c (p_symbol p) (side_value (p_action p)) qty (build_client_order_id (p_signal_id p)) w = (r, w1)"
    "get_order e c (p_symbol p) (build_client_order_id (p_signal_id p)) v = (r', v1)"
  shows "(requests w1 = requests w \<or>
      (\<exists>rq text q. requests w1 = requests w @ [rq] \<and> format_decimal qty = Inr q \<and>
         enc (rq_params rq) = text @ ''&signature='' @ hmac_sha256_hex (c_secret_key c) text \<and>
         parse_qsl text =
           [(''symbol'', p_symbol p), (''side'', side_value (p_action p)), (''type'', ''MARKET''), (''quantity'', q),
            (''newClientOrderId'', build_client_order_id (p_signal_id p)), (''newOrderRespType'', ''FULL''),
            (''timestamp'', str_int (clock e (tick w) div 1000)), (''recvWindow'', str_int (c_recv_window c))])) \<and>
    (\<exists>rq text. requests v1 = requests v @ [rq] \<and>
       enc (rq_params rq) = text @ ''&signature='' @ hmac_sha256_hex (c_secret_key c) text \<and>
       parse_qsl text =
         [(''symbol'', p_symbol p), (''origClientOrderId'', build_client_order_id (p_signal_id p)),
          (''timestamp'', str_int (clock e (tick v) div 1000)), (''recvWindow'', str_int (c_recv_window c))])"
proof
  let ?cid = "build_client_order_id (p_signal_id p)"
  let ?sd = "side_value (p_action p)"
  show "requests w1 = requests w \<or>
      (\<exists>rq text q. requests w1 = requests w @ [rq] \<and> format_decimal qty = Inr q \<and>
         enc (rq_params rq) = text @ ''&signature='' @ hmac_sha256_hex (c_secret_key c) text \<and>
         parse_qsl text =
           [(''symbol'', p_symbol p), (''side'', ?sd), (''type'', ''MARKET''), (''quantity'', q),
            (''newClientOrderId'', ?cid), (''newOrderRespType'', ''FULL''),
            (''timestamp'', str_int (clock e (tick w) div 1000)), (''recvWindow'', str_int (c_recv_window c))])"
  proof (cases "requests w1 = requests w")
    case False
    then obtain q where q: "format_decimal qty = Inr q" "requests w1 = requests w @ [place_request e c (p_symbol p) ?sd q ?cid w]"
      using place_request_sent [OF assms(3) False] by blast
    have "fst ` set (order_params (p_symbol p) ?sd q ?cid) \<inter> {''timestamp'', ''recvWindow'', ''signature''} = {}"
      by (simp add: order_params_def)
    from signed_text [OF assms(2) order_params_plain [OF assms(1) q(1)] this, of c "clock e (tick w)"] q
    show ?thesis by (auto simp: place_request_def signed_request_def order_params_def)
  qed simp
  have "fst ` set (query_params (p_symbol p) ?cid) \<inter> {''timestamp'', ''recvWindow'', ''signature''} = {}"
    by (simp add: query_params_def)
  from signed_text [OF assms(2) query_params_plain [OF assms(1)] this, of c "clock e (tick v)"] get_order_sends [OF assms(4)]
  show "\<exists>rq text. requests v1 = requests v @ [rq] \<and>
      enc (rq_params rq) = text @ ''&signature='' @ hmac_sha256_hex (c_secret_key c) text \<and>
      parse_qsl text =
        [(''symbol'', p_symbol p), (''origClientOrderId'', ?cid),
         (''timestamp'', str_int (clock e (tick v) div 1000)), (''recvWindow'', str_int (c_recv_window c))]"
    by (auto simp: signed_request_def query_params_def)
qed

text \<open>The order and the query of a small signal, with the encoder of \<open>urllib\<close>.\<close>

theorem signed_text_is_sent_witness:
  "\<exists>p r w1 r' v1 rq rq' text text'.
     validate_payload \<lparr>rp_signal_id = ''sig-1'', rp_symbol = '' btcusdt'', rp_action = ''buy '',
       rp_quantity = Fin False 100 (- 5), rp_secret = None\<rparr> = Inr p \<and>
     place_market_order (test_env TimedOut) test_client (p_symbol p) (side_value (p_action p)) (p_quantity p)
       (build_client_order_id (p_signal_id p)) trade_world = (r, w1) \<and> requests w1 = [rq] \<and>
     urlencode (rq_params rq) = text @ ''&signature='' @ hmac_sha256_hex ''test-secret-key'' text \<and>
     map_of (parse_qsl text) ''quantity'' = Some ''0.001'' \<and>
     get_order (test_env TimedOut) test_client (p_symbol p) (build_client_order_id (p_signal_id p)) trade_world = (r', v1) \<and>
     requests v1 = [rq'] \<and>
     urlencode (rq_params rq') = text' @ ''&signature='' @ hmac_sha256_hex ''test-secret-key'' text' \<and>
     map_of (parse_qsl text') ''symbol'' = Some ''BTCUSDT''"
proof -
  let ?raw = "\<lparr>rp_signal_id = ''sig-1'', rp_symbol = '' btcusdt'', rp_action = ''buy '',
      rp_quantity = Fin False 100 (- 5), rp_secret = None\<rparr>"
  have "validate_signal_id ''sig-1'' = Some ''sig-1''" "validate_symbol '' btcusdt'' = Some ''BTCUSDT''"
    "normalise_action ''buy '' = Some BUY" "validate_quantity (Fin False 100 (- 5)) = Some (Fin False 100 (- 5))"
    by code_simp+
  then obtain p where p: "validate_payload ?raw = Inr p" "p_quantity p = Fin False 100 (- 5)" "p_symbol p = ''BTCUSDT''"
    by (simp add: validate_payload_def)
  have q: "format_decimal (Fin False 100 (- 5)) = Inr ''0.001''" by code_simp
  obtain r w1 where r: "place_market_order (test_env TimedOut) test_client (p_symbol p) (side_value (p_action p))
      (p_quantity p) (build_client_order_id (p_signal_id p)) trade_world = (r, w1)" by (metis prod.collapse)
  obtain r' v1 where r': "get_order (test_env TimedOut) test_client (p_symbol p)
      (build_client_order_id (p_signal_id p)) trade_world = (r', v1)" by (metis prod.collapse)
  have sent: "requests w1 \<noteq> requests trade_world"
    using r q p(2) test_client_host [of TimedOut] place_sends [of "p_quantity p" "''0.001''" "test_env TimedOut" test_client "()"]
    by (simp add: assert_testnet_def do_request_signed outcome_at_def) auto
  have key: "c_secret_key test_client = ''test-secret-key''" "requests trade_world = []"
    by (simp_all add: test_client_def trade_world_def)
  obtain rq tx where a: "requests w1 = [rq]" "urlencode (rq_params rq) = tx @ ''&signature='' @ hmac_sha256_hex ''test-secret-key'' tx"
      "map_of (parse_qsl tx) ''quantity'' = Some ''0.001''"
    using signed_text_is_sent [OF p(1) urlencode_plain r r'] sent q p(2) unfolding key by auto
  obtain rq' tx' where b: "requests v1 = [rq']"
      "urlencode (rq_params rq') = tx' @ ''&signature='' @ hmac_sha256_hex ''test-secret-key'' tx'"
      "map_of (parse_qsl tx') ''symbol'' = Some ''BTCUSDT''"
    using signed_text_is_sent [OF p(1) urlencode_plain r r'] p(3) unfolding key by auto
  show ?thesis using p(1) r r' a b by blast
qed

end
