(* ===== verification/Security.thy ===== *)
theory Security
  imports Fixtures
begin

text \<open>
  \<open>app/core/security.py\<close>: passwords, access tokens and the comparison of shared secrets. Passwords are
  lists of Unicode code points, encoded to UTF-8 bytes as the source does. The two libraries are
  parameters: \<open>bcrypt\<close> and PyJWT, known by what the code relies on and no more.

  The lemmas show that UTF-8 is injective, so that comparing encodings compares the texts; that the
  72-byte limit is one of bytes; and that a token reads back as the user it was made for until it
  expires.
\<close>

section \<open>UTF-8\<close>

type_synonym code_points = "nat list"

definition code_point_ok :: "nat \<Rightarrow> bool" where
  "code_point_ok n = (n < 1114112 \<and> \<not> (55296 \<le> n \<and> n < 57344))"

definition utf8_char :: "nat \<Rightarrow> nat list" where
  "utf8_char n =
     (if n < 128 then [n]
      else if n < 2048 then [192 + n div 64, 128 + n mod 64]
      else if n < 65536 then [224 + n div 4096, 128 + n div 64 mod 64, 128 + n mod 64]
      else [240 + n div 262144, 128 + n div 4096 mod 64, 128 + n div 64 mod 64, 128 + n mod 64])"

text \<open>\<open>s.encode("utf-8")\<close>: None where it raises UnicodeEncodeError, a lone surrogate.\<close>

definition utf8 :: "code_points \<Rightarrow> nat list option" where
  "utf8 s = (if list_all code_point_ok s then Some (concat (map utf8_char s)) else None)"

text \<open>The bytes that continue a character; a decoder to read an encoding back.\<close>

definition utf8_next :: "nat list \<Rightarrow> (nat \<times> nat list) option" where
  "utf8_next bs =
     (case bs of
        [] \<Rightarrow> None
      | a # r \<Rightarrow>
          if a < 128 then Some (a, r)
          else if a < 224 then (case r of b # r' \<Rightarrow> Some ((a - 192) * 64 + (b - 128), r') | _ \<Rightarrow> None)
          else if a < 240 then
            (case r of b # c # r' \<Rightarrow> Some ((a - 224) * 4096 + (b - 128) * 64 + (c - 128), r') | _ \<Rightarrow> None)
          else
            (case r of
               b # c # d # r' \<Rightarrow>
                 Some ((a - 240) * 262144 + (b - 128) * 4096 + (c - 128) * 64 + (d - 128), r')
             | _ \<Rightarrow> None))"

lemma mod_div_parts:
  fixes n :: nat
  shows "n div 64 * 64 + n mod 64 = n"
    "n div 4096 * 4096 + n div 64 mod 64 * 64 + n mod 64 = n"
    "n div 262144 * 262144 + n div 4096 mod 64 * 4096 + n div 64 mod 64 * 64 + n mod 64 = n"
proof -
  have d: "n div 4096 = n div 64 div 64" "n div 262144 = n div 64 div 64 div 64"
    by (simp_all add: div_mult2_eq [symmetric])
  have e: "n div 4096 mod 64 = n div 64 div 64 mod 64" by (simp only: d)
  show one: "n div 64 * 64 + n mod 64 = n" by simp
  have two: "n div 64 div 64 * 64 + n div 64 mod 64 = n div 64" by simp
  have three: "n div 64 div 64 div 64 * 64 + n div 64 div 64 mod 64 = n div 64 div 64" by simp
  show "n div 4096 * 4096 + n div 64 mod 64 * 64 + n mod 64 = n" unfolding d using one two by linarith
  show "n div 262144 * 262144 + n div 4096 mod 64 * 4096 + n div 64 mod 64 * 64 + n mod 64 = n"
    unfolding d e using one two three by linarith
qed

lemma utf8_next_char:
  assumes "code_point_ok n"
  shows "utf8_next (utf8_char n @ r) = Some (n, r)"
proof -
  consider "n < 128" | "128 \<le> n" "n < 2048" | "2048 \<le> n" "n < 65536" | "65536 \<le> n" "n < 1114112"
    using assms by (force simp: code_point_ok_def)
  then show ?thesis
  proof cases
    case 1
    then show ?thesis by (simp add: utf8_char_def utf8_next_def)
  next
    case 2
    then have "n div 64 < 32" by (simp add: less_mult_imp_div_less)
    with 2 show ?thesis by (simp add: utf8_char_def utf8_next_def mod_div_parts)
  next
    case 3
    then have "n div 4096 < 16" by (simp add: less_mult_imp_div_less)
    with 3 show ?thesis using mod_div_parts(2) [of n] by (simp add: utf8_char_def utf8_next_def)
  next
    case 4
    then show ?thesis using mod_div_parts(3) [of n] by (simp add: utf8_char_def utf8_next_def)
  qed
qed

lemma utf8_char_not_Nil [simp]: "utf8_char n \<noteq> []"
  by (simp add: utf8_char_def)

lemma utf8_inject: "utf8 s = Some b \<Longrightarrow> utf8 t = Some b \<Longrightarrow> s = t"
proof (induction s arbitrary: t b)
  case Nil
  then show ?case by (cases t) (auto simp: utf8_def split: if_splits)
next
  case (Cons x s)
  then have x: "code_point_ok x" "utf8 s = Some (concat (map utf8_char s))" "b = utf8_char x @ concat (map utf8_char s)"
    by (auto simp: utf8_def split: if_splits)
  obtain y t' where t: "t = y # t'" using Cons.prems(2) x(3) by (cases t) (auto simp: utf8_def split: if_splits)
  then have y: "code_point_ok y" "utf8 t' = Some (concat (map utf8_char t'))" "b = utf8_char y @ concat (map utf8_char t')"
    using Cons.prems(2) by (auto simp: utf8_def split: if_splits)
  have "x = y \<and> concat (map utf8_char s) = concat (map utf8_char t')"
    using utf8_next_char [OF x(1)] utf8_next_char [OF y(1)] x(3) y(3) by (metis option.inject prod.inject)
  then show ?case using Cons.IH x(2) y(2) t by metis
qed

text \<open>A character takes at most four bytes, and at least one.\<close>

lemma utf8_length: "utf8 s = Some b \<Longrightarrow> length s \<le> length b \<and> length b \<le> 4 * length s"
  by (induction s arbitrary: b) (auto simp: utf8_def utf8_char_def split: if_splits)

section \<open>Passwords\<close>

definition BCRYPT_MAX_PASSWORD_BYTES :: nat where
  "BCRYPT_MAX_PASSWORD_BYTES = 72"

text \<open>The library: a salt for each call, \<open>hashpw\<close>, and \<open>checkpw\<close> (None where it raises ValueError).\<close>

record bcrypt =
  gensalt :: "nat \<Rightarrow> nat list"
  hashpw :: "nat list \<Rightarrow> nat list \<Rightarrow> string"
  checkpw :: "nat list \<Rightarrow> string \<Rightarrow> bool option"

text \<open>What the code relies on: a password checks against its own hash, and a hash fits its column.\<close>

definition bcrypt_laws :: "bcrypt \<Rightarrow> bool" where
  "bcrypt_laws bc =
     (\<forall>p salt. length p \<le> 72 \<longrightarrow> checkpw bc p (hashpw bc p salt) = Some True \<and> length (hashpw bc p salt) \<le> 128)"

definition encode_or_raise :: "code_points \<Rightarrow> (exn, nat list) result" where
  "encode_or_raise p = (case utf8 p of None \<Rightarrow> Inl (PyExn ''UnicodeEncodeError'') | Some b \<Rightarrow> Inr b)"

definition password_within_bcrypt_limit :: "code_points \<Rightarrow> (exn, bool) result" where
  "password_within_bcrypt_limit p =
     (case encode_or_raise p of Inl x \<Rightarrow> Inl x | Inr b \<Rightarrow> Inr (length b \<le> BCRYPT_MAX_PASSWORD_BYTES))"

definition hash_password :: "bcrypt \<Rightarrow> nat \<Rightarrow> code_points \<Rightarrow> (exn, string) result" where
  "hash_password bc n p =
     (case password_within_bcrypt_limit p of
        Inl x \<Rightarrow> Inl x
      | Inr ok \<Rightarrow>
          if \<not> ok then Inl (PyExn ''ValueError'')
          else (case encode_or_raise p of Inl x \<Rightarrow> Inl x | Inr b \<Rightarrow> Inr (hashpw bc b (gensalt bc n))))"

definition verify_password :: "bcrypt \<Rightarrow> code_points \<Rightarrow> string \<Rightarrow> (exn, bool) result" where
  "verify_password bc p stored =
     (case password_within_bcrypt_limit p of
        Inl x \<Rightarrow> Inl x
      | Inr ok \<Rightarrow>
          if \<not> ok then Inr False
          else (case encode_or_raise p of
                  Inl x \<Rightarrow> Inl x
                | Inr b \<Rightarrow> (case checkpw bc b stored of None \<Rightarrow> Inr False | Some r \<Rightarrow> Inr r)))"

lemma hash_password_ok:
  assumes "hash_password bc n p = Inr h"
  obtains b where "utf8 p = Some b" "length b \<le> 72" "h = hashpw bc b (gensalt bc n)"
  using assms
  by (auto simp: hash_password_def password_within_bcrypt_limit_def encode_or_raise_def
      BCRYPT_MAX_PASSWORD_BYTES_def split: option.splits if_splits)

lemma verify_hashed:
  assumes "bcrypt_laws bc" "hash_password bc n p = Inr h"
  shows "verify_password bc p h = Inr True"
proof -
  obtain b where b: "utf8 p = Some b" "length b \<le> 72" "h = hashpw bc b (gensalt bc n)"
    by (rule hash_password_ok [OF assms(2)])
  then show ?thesis using assms(1)
    by (simp add: verify_password_def password_within_bcrypt_limit_def encode_or_raise_def
        BCRYPT_MAX_PASSWORD_BYTES_def bcrypt_laws_def)
qed

section \<open>Access tokens\<close>

text \<open>
  PyJWT: \<open>encode\<close> of a claims dict with a secret and an algorithm, or the class of what it raises - for an
  algorithm it does not know, or a secret the algorithm cannot use; \<open>decode\<close> with the list of required
  claims and the time of the call in microseconds. \<open>Other_jwt\<close> is an exception outside
  \<open>InvalidTokenError\<close>, by its class.
\<close>

datatype jwt_error = ExpiredSignature | InvalidToken | Other_jwt string

type_synonym claims = "(string \<times> json) list"

record jwt_library =
  jwt_encode :: "claims \<Rightarrow> string \<Rightarrow> string \<Rightarrow> (string, string) result"
  jwt_decode :: "string \<Rightarrow> string \<Rightarrow> string \<Rightarrow> string list \<Rightarrow> int \<Rightarrow> (jwt_error, claims) result"

definition TOKEN_TYPE_ACCESS :: string where
  "TOKEN_TYPE_ACCESS = ''access''"

text \<open>The claims; PyJWT turns the two datetimes into whole seconds.\<close>

definition access_claims :: "int \<Rightarrow> int \<Rightarrow> int \<Rightarrow> string \<Rightarrow> claims" where
  "access_claims uid issued lifetime jti =
     [(''sub'', JStr (str_int uid)), (''type'', JStr TOKEN_TYPE_ACCESS),
      (''iat'', JInt (issued div 1000000)), (''exp'', JInt ((issued + lifetime) div 1000000)),
      (''jti'', JStr jti)]"

text \<open>
  What the code relies on, for the shape of its own claims and the HMAC algorithms alone: a token that was
  made is not the empty text, and decodes, with the secret and algorithm it was made with, to its claims -
  or as expired from the second its \<open>exp\<close> names - when \<open>iat\<close> is not in the future. There is no claim among
  them that \<open>decode\<close> checks further, such as \<open>aud\<close> or \<open>nbf\<close>, and \<open>sub\<close> and \<open>jti\<close> are texts, as it demands.
  Nothing is relied on for any other algorithm, nor that \<open>encode\<close> succeeds.
\<close>

definition HMAC_ALGORITHMS :: "string set" where
  "HMAC_ALGORITHMS = {''HS256'', ''HS384'', ''HS512''}"

definition jwt_laws :: "jwt_library \<Rightarrow> bool" where
  "jwt_laws j =
     (\<forall>subject iat ex jti s a tok now.
        (let c = [(''sub'', JStr subject), (''type'', JStr TOKEN_TYPE_ACCESS), (''iat'', JInt iat), (''exp'', JInt ex),
                  (''jti'', JStr jti)]
         in a \<in> HMAC_ALGORITHMS \<and> jwt_encode j c s a = Inr tok \<longrightarrow>
              tok \<noteq> [] \<and>
              (iat * 1000000 \<le> now \<longrightarrow> jwt_decode j tok s a [''exp'', ''sub''] now =
                 (if ex * 1000000 \<le> now then Inl ExpiredSignature else Inr c))))"

text \<open>Lifetimes in microseconds; a zero \<open>expires_delta\<close> is falsy and means the default.\<close>

definition token_lifetime :: "settings \<Rightarrow> int option \<Rightarrow> int" where
  "token_lifetime s delta =
     (let d = ACCESS_TOKEN_EXPIRE_MINUTES s * 60000000
      in case delta of None \<Rightarrow> d | Some x \<Rightarrow> if x = 0 then d else x)"

definition truncate_seconds :: "int \<Rightarrow> int" where
  "truncate_seconds x = (if 0 \<le> x then x div 1000000 else - (- x div 1000000))"

definition create_access_token ::
  "jwt_library \<Rightarrow> settings \<Rightarrow> int \<Rightarrow> int option \<Rightarrow> int \<Rightarrow> string \<Rightarrow> (exn, string \<times> int) result" where
  "create_access_token j s uid delta now jti =
     (case jwt_encode j (access_claims uid now (token_lifetime s delta) jti) (JWT_SECRET s) (JWT_ALGORITHM s) of
        Inl x \<Rightarrow> Inl (PyExn x)
      | Inr tok \<Rightarrow> Inr (tok, truncate_seconds (token_lifetime s delta)))"

text \<open>A \<open>TokenError\<close> with its public reason, or an exception the function does not catch.\<close>

datatype token_failure = TokenError string | Uncaught string

definition decode_access_token :: "jwt_library \<Rightarrow> settings \<Rightarrow> int \<Rightarrow> string \<Rightarrow> (token_failure, int) result" where
  "decode_access_token j s now tok =
     (case jwt_decode j tok (JWT_SECRET s) (JWT_ALGORITHM s) [''exp'', ''sub''] now of
        Inl ExpiredSignature \<Rightarrow> Inl (TokenError ''Token has expired'')
      | Inl InvalidToken \<Rightarrow> Inl (TokenError ''Invalid authentication token'')
      | Inl (Other_jwt x) \<Rightarrow> Inl (Uncaught x)
      | Inr c \<Rightarrow>
          if json_get ''type'' c \<noteq> Some (JStr TOKEN_TYPE_ACCESS) then Inl (TokenError ''Invalid authentication token'')
          else
            (let subject = (case json_get ''sub'' c of None \<Rightarrow> JNull | Some v \<Rightarrow> v)
             in case json_int subject of
                  Some i \<Rightarrow> Inr i
                | None \<Rightarrow>
                    if int_error subject \<in> {''TypeError'', ''ValueError''}
                    then Inl (TokenError ''Invalid authentication token'')
                    else Inl (Uncaught (int_error subject))))"

section \<open>Shared secrets\<close>

text \<open>\<open>hmac.compare_digest\<close> on the encodings; a string of the model has code points below 256.\<close>

definition str_points :: "string \<Rightarrow> code_points" where
  "str_points s = map code_of s"

definition secrets_match :: "string option \<Rightarrow> string \<Rightarrow> bool" where
  "secrets_match provided expected =
     (case provided of
        None \<Rightarrow> False
      | Some p \<Rightarrow> if p = [] then False else utf8 (str_points p) = utf8 (str_points expected))"

lemma char_code_ok: "code_point_ok (code_of c)"
proof -
  have "code_of c < 256" by simp
  then show ?thesis unfolding code_point_ok_def by linarith
qed

lemma str_points_ok: "\<exists>b. utf8 (str_points s) = Some b"
  by (simp add: utf8_def str_points_def list_all_iff char_code_ok)

lemma str_points_inject: "str_points s = str_points t \<longleftrightarrow> s = t"
proof
  have "map (char_of :: nat \<Rightarrow> char) (str_points u) = u" for u
    by (simp add: str_points_def o_def)
  then show "str_points s = str_points t \<Longrightarrow> s = t" by metis
qed simp

lemma secrets_match_iff: "secrets_match provided expected \<longleftrightarrow> provided = Some expected \<and> expected \<noteq> []"
proof (cases provided)
  case (Some p)
  have "utf8 (str_points p) = utf8 (str_points expected) \<longleftrightarrow> p = expected"
    using str_points_ok utf8_inject str_points_inject by metis
  with Some show ?thesis by (auto simp: secrets_match_def)
qed (simp add: secrets_match_def)

section \<open>The contract\<close>

lemma decode_created:
  assumes "jwt_laws j" "JWT_ALGORITHM s \<in> HMAC_ALGORITHMS" "create_access_token j s uid None issued jti = Inr (tok, secs)"
  shows "tok \<noteq> []" "issued \<le> now \<Longrightarrow> decode_access_token j s now tok =
    (if (issued + token_lifetime s None) div 1000000 * 1000000 \<le> now
     then Inl (TokenError ''Token has expired'') else Inr uid)"
proof -
  let ?c = "access_claims uid issued (token_lifetime s None) jti"
  have tok: "jwt_encode j ?c (JWT_SECRET s) (JWT_ALGORITHM s) = Inr tok"
    using assms(3) by (simp add: create_access_token_def split: sum.splits)
  note law = assms(1) [unfolded jwt_laws_def Let_def, rule_format,
      of "JWT_ALGORITHM s" "str_int uid" "issued div 1000000" "(issued + token_lifetime s None) div 1000000" jti
        "JWT_SECRET s" tok]
  show "tok \<noteq> []" using law assms(2) tok by (simp add: access_claims_def)
  assume "issued \<le> now"
  then have "issued div 1000000 * 1000000 \<le> now" by simp
  then have d: "jwt_decode j tok (JWT_SECRET s) (JWT_ALGORITHM s) [''exp'', ''sub''] now =
      (if (issued + token_lifetime s None) div 1000000 * 1000000 \<le> now then Inl ExpiredSignature else Inr ?c)"
    using law [of now] assms(2) tok by (simp add: access_claims_def)
  have "json_get ''type'' ?c = Some (JStr TOKEN_TYPE_ACCESS)" "json_get ''sub'' ?c = Some (JStr (str_int uid))"
    by (simp_all add: access_claims_def json_get_def)
  then show "decode_access_token j s now tok =
    (if (issued + token_lifetime s None) div 1000000 * 1000000 \<le> now
     then Inl (TokenError ''Token has expired'') else Inr uid)"
    using d by (simp add: decode_access_token_def str_int_back)
qed

text \<open>The announced lifetime is the configured one, in seconds: at least a minute, with settings that load.\<close>

lemma token_expires_in:
  assumes "create_access_token j s uid None issued jti = Inr (tok, secs)" "load_settings db_url raw = Inr s"
  shows "secs = ACCESS_TOKEN_EXPIRE_MINUTES s * 60 \<and> 60 \<le> secs"
proof -
  have "secs = truncate_seconds (token_lifetime s None)"
    using assms(1) by (simp add: create_access_token_def split: sum.splits)
  then show ?thesis
    using load_settings_minutes [OF assms(2)] by (simp add: token_lifetime_def truncate_seconds_def)
qed

text \<open>A library that keeps these laws, for the witnesses: the claims, secret and algorithm as a query string.\<close>

fun claim_text :: "json \<Rightarrow> string" where
  "claim_text (JInt i) = CHR ''i'' # str_int i"
| "claim_text (JStr s) = CHR ''s'' # s"
| "claim_text _ = []"

definition text_claim :: "string \<Rightarrow> json" where
  "text_claim t =
     (case t of
        [] \<Rightarrow> JNull
      | c # r \<Rightarrow> if c = CHR ''i'' then (case int_of_str r of None \<Rightarrow> JNull | Some i \<Rightarrow> JInt i) else JStr r)"

definition query_jwt :: jwt_library where
  "query_jwt =
     \<lparr>jwt_encode = (\<lambda>c s a. if a \<notin> HMAC_ALGORITHMS then Inl ''NotImplementedError''
        else Inr (urlencode ((''k'', s) # (''a'', a) # map (\<lambda>kv. (fst kv, claim_text (snd kv))) c))),
      jwt_decode = (\<lambda>tok s a req now.
        case parse_qsl tok of
          (_, s') # (_, a') # ps \<Rightarrow>
            (let c = map (\<lambda>kv. (fst kv, text_claim (snd kv))) ps
             in if s' \<noteq> s \<or> a' \<noteq> a then Inl InvalidToken
                else case json_get ''exp'' c of
                       Some (JInt ex) \<Rightarrow>
                         if ex * 1000000 \<le> now then Inl ExpiredSignature
                         else if list_all (\<lambda>k. json_get k c \<noteq> None) req then Inr c else Inl InvalidToken
                     | _ \<Rightarrow> Inl InvalidToken)
        | _ \<Rightarrow> Inl InvalidToken)\<rparr>"

lemma query_jwt_laws: "jwt_laws query_jwt"
proof -
  have "tok \<noteq> [] \<and> jwt_decode query_jwt tok s a [''exp'', ''sub''] now =
      (if ex * 1000000 \<le> now then Inl ExpiredSignature else Inr c)"
    if c: "c = [(''sub'', JStr subject), (''type'', JStr TOKEN_TYPE_ACCESS), (''iat'', JInt iat), (''exp'', JInt ex),
        (''jti'', JStr jti)]" and tok: "jwt_encode query_jwt c s a = Inr tok" for c subject iat ex jti s a tok now
  proof -
    let ?ps = "map (\<lambda>kv. (fst kv, claim_text (snd kv))) c"
    have kept: "map (\<lambda>kv. (fst kv, text_claim (snd kv))) ?ps = c" by (simp add: c text_claim_def str_int_back)
    have "tok = urlencode ((''k'', s) # (''a'', a) # ?ps)" using tok by (simp add: query_jwt_def split: if_splits)
    then have "parse_qsl tok = (''k'', s) # (''a'', a) # ?ps" by (simp only: parse_urlencode)
    moreover from this have "tok \<noteq> []" by (auto simp: parse_qsl_def)
    moreover have "json_get ''exp'' c = Some (JInt ex)" "list_all (\<lambda>k. json_get k c \<noteq> None) [''exp'', ''sub'']"
      by (simp_all add: c json_get_def)
    ultimately show ?thesis unfolding query_jwt_def
      by (simp only: jwt_library.simps list.case prod.case kept Let_def) simp
  qed
  then show ?thesis unfolding jwt_laws_def Let_def by blast
qed

lemma test_settings_load: "load_settings Inr test_settings = Inr test_settings"
proof -
  have url: "enforce_testnet_only ''https://testnet.binance.vision'' = Inr ''https://testnet.binance.vision''"
    by code_simp
  have email: "normalise_owner_email ''webhook-owner@example.com'' = Inr ''webhook-owner@example.com''"
    by code_simp
  have secrets: "secret_field 32 ''test-jwt-secret-that-is-definitely-long-enough-123456'' =
      Inr ''test-jwt-secret-that-is-definitely-long-enough-123456''"
    "secret_field 16 ''test-webhook-secret-value'' = Inr ''test-webhook-secret-value''"
    by code_simp+
  have bounds: "dec_positive (Fin False 100 (- 1))" "\<not> dec_less (dec_int 60) (Fin False 100 (- 1))"
    "dec_positive (Fin False (Suc 0) (- 5))" "dec_positive (Fin False 10 (- 1))"
    by code_simp+
  show ?thesis
    using url email secrets bounds
    by (simp add: load_settings_def refused_fields_def refused_def test_settings_def is_right_def right_or_def)
qed

text \<open>
  C29. The password limit is one of bytes: a password whose UTF-8 encoding has at most 72 bytes hashes to
  a text that fits its column and verifies against it; a longer one - and so any of more than 72
  characters - is refused when hashing and matches no stored hash at all; a text with a lone surrogate
  raises in both.
\<close>
theorem passwords_of_at_most_72_bytes:
  assumes "bcrypt_laws bc"
  shows "case utf8 p of
      None \<Rightarrow> hash_password bc n p = Inl (PyExn ''UnicodeEncodeError'') \<and>
        (\<forall>h. verify_password bc p h = Inl (PyExn ''UnicodeEncodeError''))
    | Some b \<Rightarrow> length p \<le> length b \<and>
        (if length b \<le> 72
         then \<exists>h. hash_password bc n p = Inr h \<and> verify_password bc p h = Inr True \<and> length h \<le> 128
         else hash_password bc n p = Inl (PyExn ''ValueError'') \<and> (\<forall>h. verify_password bc p h = Inr False))"
proof (cases "utf8 p")
  case None
  then show ?thesis
    by (simp add: hash_password_def verify_password_def password_within_bcrypt_limit_def encode_or_raise_def)
next
  case (Some b)
  show ?thesis
  proof (cases "length b \<le> 72")
    case True
    then have h: "hash_password bc n p = Inr (hashpw bc b (gensalt bc n))"
      using Some by (simp add: hash_password_def password_within_bcrypt_limit_def encode_or_raise_def
          BCRYPT_MAX_PASSWORD_BYTES_def)
    then show ?thesis
      using True Some verify_hashed [OF assms h] assms utf8_length [OF Some] by (simp add: bcrypt_laws_def)
  next
    case False
    then show ?thesis using Some utf8_length [OF Some]
      by (simp add: hash_password_def verify_password_def password_within_bcrypt_limit_def encode_or_raise_def
          BCRYPT_MAX_PASSWORD_BYTES_def)
  qed
qed

text \<open>A hash that keeps the law, for the witnesses.\<close>

definition test_bcrypt :: bcrypt where
  "test_bcrypt =
     \<lparr>gensalt = (\<lambda>_. []), hashpw = (\<lambda>p _. map char_of p),
      checkpw = (\<lambda>p h. Some (h = map char_of p))\<rparr>"

lemma test_bcrypt_laws: "bcrypt_laws test_bcrypt"
  by (simp add: bcrypt_laws_def test_bcrypt_def)

theorem passwords_of_at_most_72_bytes_witness:
  "(\<exists>h. hash_password test_bcrypt 0 [233, 8364] = Inr h \<and> verify_password test_bcrypt [233, 8364] h = Inr True) \<and>
   hash_password test_bcrypt 0 (replicate 19 128512) = Inl (PyExn ''ValueError'')"
proof -
  have short: "utf8 [233, 8364] = Some [195, 169, 226, 130, 172]"
    by (simp add: utf8_def utf8_char_def code_point_ok_def)
  have long: "\<exists>b. utf8 (replicate 19 128512) = Some b \<and> length b = 76"
    by (simp add: utf8_def utf8_char_def code_point_ok_def list_all_iff length_concat sum_list_replicate)
  show ?thesis
    using passwords_of_at_most_72_bytes [OF test_bcrypt_laws, where p = "[233, 8364]" and n = 0]
      passwords_of_at_most_72_bytes [OF test_bcrypt_laws, where p = "replicate 19 128512" and n = 0] short long
    by auto
qed

end
