(* ===== verification/Accounts.thy ===== *)
theory Accounts
  imports Security
begin

text \<open>
  \<open>app/services/auth_service.py\<close>, \<open>app/dependencies/auth.py\<close>, \<open>app/schemas/user.py\<close> and
  \<open>app/schemas/auth.py\<close>: registration, login, tokens and the dependency that turns a bearer token into
  a user. The email validator of Pydantic is a parameter of the schemas.

  The lemmas show that one address has one account, that a registered user can log in and is who the
  token says, and that a failed login does not tell which part was wrong.
\<close>

section \<open>Schemas\<close>

record user_create =
  uc_email :: string
  uc_password :: code_points

text \<open>\<open>EmailStr\<close>: the normalised address, or None where the library refuses it.\<close>

type_synonym email_validator = "string \<Rightarrow> string option"

definition normalise_email :: "string \<Rightarrow> string" where
  "normalise_email v = py_lower (py_strip v)"

definition fits_bcrypt :: "code_points \<Rightarrow> bool" where
  "fits_bcrypt p = (case password_within_bcrypt_limit p of Inl _ \<Rightarrow> False | Inr ok \<Rightarrow> ok)"

definition validate_user_create ::
  "email_validator \<Rightarrow> string \<Rightarrow> code_points \<Rightarrow> (string list, user_create) result" where
  "validate_user_create ev em pw =
     (let ok = (8 \<le> length pw \<and> length pw \<le> BCRYPT_MAX_PASSWORD_BYTES \<and> fits_bcrypt pw)
      in case ev em of
           None \<Rightarrow> Inl (''email'' # (if ok then [] else [''password'']))
         | Some v \<Rightarrow>
             if ok then Inr \<lparr>uc_email = normalise_email v, uc_password = pw\<rparr> else Inl [''password''])"

definition validate_login ::
  "email_validator \<Rightarrow> string \<Rightarrow> code_points \<Rightarrow> (string list, user_create) result" where
  "validate_login ev em pw =
     (case ev em of
        None \<Rightarrow> Inl (''email'' # (if pw \<noteq> [] then [] else [''password'']))
      | Some v \<Rightarrow>
          if pw \<noteq> [] then Inr \<lparr>uc_email = normalise_email v, uc_password = pw\<rparr> else Inl [''password''])"

text \<open>\<open>UserRead\<close>: what leaves the process; there is no field for a password or its hash.\<close>

record user_read =
  ur_id :: int
  ur_email :: string
  ur_is_active :: bool
  ur_created_at :: int

text \<open>\<open>UserRead.model_validate(user)\<close>; the address is validated once more.\<close>

definition user_read_of :: "email_validator \<Rightarrow> user \<Rightarrow> (exn, user_read) result" where
  "user_read_of ev u =
     (case ev (email u) of
        None \<Rightarrow> Inl (PyExn ''ValidationError'')
      | Some v \<Rightarrow>
          Inr \<lparr>ur_id = u_id u, ur_email = v, ur_is_active = is_active u, ur_created_at = u_created_at u\<rparr>)"

section \<open>The service\<close>

definition get_user_by_email :: "string \<Rightarrow> db \<Rightarrow> user option" where
  "get_user_by_email em d = select_user_by_email (py_lower (py_strip em)) d"

definition get_user_by_id :: "int \<Rightarrow> db \<Rightarrow> user option" where
  "get_user_by_id uid d = select_user uid d"

definition email_taken :: exn where
  "email_taken = AppExn (make_error EmailAlreadyRegisteredError None)"

text \<open>The new object; the id is the INSERT's, the two defaults read the clock.\<close>

definition new_user :: "string \<Rightarrow> string \<Rightarrow> int \<Rightarrow> int \<Rightarrow> user" where
  "new_user em hashed created updated =
     \<lparr>u_id = 0, email = em, password_hash = hashed, is_active = True,
      u_created_at = created, u_updated_at = updated\<rparr>"

definition register_user ::
  "env \<Rightarrow> bcrypt \<Rightarrow> string \<Rightarrow> code_points \<Rightarrow> world \<Rightarrow> (exn, user) result \<times> world" where
  "register_user e bc em0 pw w =
     (let em = py_lower (py_strip em0)
      in case get_user_by_email em (w_db w) of
           Some _ \<Rightarrow> (Inl email_taken, w)
         | None \<Rightarrow>
             (case hash_password bc (tick w) pw of
                Inl x \<Rightarrow> (Inl x, w)
              | Inr hashed \<Rightarrow>
                  (let (created, w1) = utc_now e w; (updated, w2) = utc_now e w1
                   in case db_commit e (insert_user (new_user em hashed created updated)) w2 of
                        (Inr u, w3) \<Rightarrow> (Inr u, w3)
                      | (Inl IntegrityError, w3) \<Rightarrow> (Inl email_taken, w3)
                      | (Inl x, w3) \<Rightarrow> (Inl (SqlExn x), w3))))"

definition login_refused :: "string \<Rightarrow> exn" where
  "login_refused m = AppExn (make_error AuthenticationError (Some m))"

definition authenticate_user :: "bcrypt \<Rightarrow> string \<Rightarrow> code_points \<Rightarrow> db \<Rightarrow> (exn, user) result" where
  "authenticate_user bc em pw d =
     (case get_user_by_email em d of
        None \<Rightarrow> Inl (login_refused ''Incorrect email or password.'')
      | Some u \<Rightarrow>
          (case verify_password bc pw (password_hash u) of
             Inl x \<Rightarrow> Inl x
           | Inr ok \<Rightarrow>
               if \<not> ok then Inl (login_refused ''Incorrect email or password.'')
               else if \<not> is_active u then Inl (login_refused ''This account is deactivated.'')
               else Inr u))"

record token_response =
  access_token :: string
  token_type :: string
  expires_in :: int

definition issue_access_token ::
  "jwt_library \<Rightarrow> settings \<Rightarrow> int \<Rightarrow> string \<Rightarrow> user \<Rightarrow> (exn, token_response) result" where
  "issue_access_token j s now jti u =
     (case create_access_token j s (u_id u) None now jti of
        Inl x \<Rightarrow> Inl x
      | Inr (tok, secs) \<Rightarrow> Inr \<lparr>access_token = tok, token_type = ''bearer'', expires_in = secs\<rparr>)"

section \<open>The authentication dependency\<close>

text \<open>The credentials are the scheme and the token of the Authorization header, if there is one.\<close>

definition get_current_user ::
  "jwt_library \<Rightarrow> settings \<Rightarrow> int \<Rightarrow> (string \<times> string) option \<Rightarrow> db \<Rightarrow> (exn, user) result" where
  "get_current_user j s now credentials d =
     (case credentials of
        None \<Rightarrow> Inl (login_refused ''Missing bearer token.'')
      | Some (scheme', tok) \<Rightarrow>
          if tok = [] then Inl (login_refused ''Missing bearer token.'')
          else if py_lower scheme' \<noteq> ''bearer'' then Inl (login_refused ''Authorization scheme must be Bearer.'')
          else
            (case decode_access_token j s now tok of
               Inl (TokenError reason) \<Rightarrow> Inl (login_refused reason)
             | Inl (Uncaught x) \<Rightarrow> Inl (PyExn x)
             | Inr uid \<Rightarrow>
                 (case get_user_by_id uid d of
                    None \<Rightarrow> Inl (login_refused ''Invalid authentication token.'')
                  | Some u \<Rightarrow>
                      if \<not> is_active u then Inl (login_refused ''This account is deactivated.'') else Inr u)))"

section \<open>Lemmas\<close>

lemma normal_idem: "py_lower (py_strip (py_lower (py_strip v))) = py_lower (py_strip v)"
  by (simp add: text_simps)

lemma insert_user_row:
  assumes "insert_user u d = (Inr v, d')"
  shows "v = u\<lparr>u_id := user_seq d\<rparr> \<and> users d' = users d @ [v] \<and> trades d' = trades d \<and>
    email u \<notin> email ` set (users d)"
  using assms by (auto simp: insert_user_def Let_def split: if_splits)

lemma get_user_by_email_normal: "get_user_by_email (py_lower (py_strip em)) d = get_user_by_email em d"
  by (simp only: get_user_by_email_def normal_idem)

lemma insert_user_refused:
  assumes "insert_user u d = (Inl x, d')"
  shows "users d' = users d \<and> trades d' = trades d"
  using assms by (auto simp: insert_user_def Let_def split: if_splits)

text \<open>The two ways a registration that got as far as the INSERT can end.\<close>

lemma register_user_step:
  assumes "get_user_by_email em (w_db w) = None" "hash_password bc (tick w) pw = Inr hashed"
  shows "register_user e bc em pw w =
    (case db_commit e (insert_user (new_user (py_lower (py_strip em)) hashed
        (clock e (tick w)) (clock e (tick (advance w))))) (advance (advance w)) of
       (Inr u, w3) \<Rightarrow> (Inr u, w3)
     | (Inl IntegrityError, w3) \<Rightarrow> (Inl email_taken, w3)
     | (Inl x, w3) \<Rightarrow> (Inl (SqlExn x), w3))"
  unfolding register_user_def Let_def get_user_by_email_normal assms utc_now_def by simp

lemma register_user_cases:
  assumes "register_user e bc em pw w = (r, w')"
  obtains (taken) u where "get_user_by_email em (w_db w) = Some u" "r = Inl email_taken" "w' = w"
  | (unhashed) x where "hash_password bc (tick w) pw = Inl x" "r = Inl x" "w' = w"
  | (stored) hashed v c1 c2 where "hash_password bc (tick w) pw = Inr hashed"
      "insert_user (new_user (py_lower (py_strip em)) hashed c1 c2) (w_db w) = (Inr v, w_db w')" "r = Inr v"
  | (failed) x where "r = Inl x" "users (w_db w') = users (w_db w)" "trades (w_db w') = trades (w_db w)"
      "db_ok (w_db w) \<Longrightarrow> db_ok (w_db w')" "x = email_taken \<or> (\<exists>y. x = SqlExn y)"
  | (unheard) hashed v c1 c2 where "hash_password bc (tick w) pw = Inr hashed"
      "insert_user (new_user (py_lower (py_strip em)) hashed c1 c2) (w_db w) = (Inr v, w_db w')"
      "r = Inl (SqlExn OperationalError)"
proof (cases "get_user_by_email em (w_db w)")
  case (Some u)
  then have "r = Inl email_taken \<and> w' = w"
    using assms unfolding register_user_def Let_def get_user_by_email_normal by simp
  then show thesis using taken Some by blast
next
  case none: None
  show thesis
  proof (cases "hash_password bc (tick w) pw")
    case (Inl x)
    then have "r = Inl x \<and> w' = w"
      using assms none unfolding register_user_def Let_def get_user_by_email_normal by simp
    then show thesis using unhashed Inl by blast
  next
    case h: (Inr hashed)
    let ?u = "new_user (py_lower (py_strip em)) hashed (clock e (tick w)) (clock e (tick (advance w)))"
    obtain q w3 where q: "db_commit e (insert_user ?u) (advance (advance w)) = (q, w3)"
      by (cases "db_commit e (insert_user ?u) (advance (advance w))") auto
    have r: "(case q of Inr v \<Rightarrow> (Inr v, w3) | Inl IntegrityError \<Rightarrow> (Inl email_taken, w3)
        | Inl x \<Rightarrow> (Inl (SqlExn x), w3)) = (r, w')"
      using assms unfolding register_user_step [OF none h] q by (simp split: sum.splits)
    from q show thesis
    proof (cases rule: db_commit_cases)
      case (ok v d')
      then have "r = Inr v" "w' = w3" using r by simp_all
      then show thesis using stored [OF h, of _ _ v] ok(1,3) by simp
    next
      case (refused x d')
      have keep: "users (w_db w3) = users (w_db w)" "trades (w_db w3) = trades (w_db w)"
        "db_ok (w_db w) \<Longrightarrow> db_ok (w_db w3)"
        using insert_user_refused [OF refused(1)] insert_user_ok [OF _ refused(1)] refused(3) by simp_all
      show thesis
      proof (cases "x = IntegrityError")
        case True
        then have "r = Inl email_taken" "w' = w3" using r refused(2) by simp_all
        then show thesis using failed keep by blast
      next
        case False
        then have "r = Inl (SqlExn x)" "w' = w3" using r refused(2) by (cases x; simp)+
        then show thesis using failed keep by blast
      qed
    next
      case (lost v d')
      then have "r = Inl (SqlExn OperationalError)" "w' = w3" "w_db w3 = rolled_back (w_db w) d'" using r by simp_all
      moreover have "db_ok (w_db w) \<Longrightarrow> db_ok (rolled_back (w_db w) d')"
        using insert_user_seq [OF lost(1)] by (auto intro: rolled_back_ok)
      ultimately show thesis using failed by auto
    next
      case (unheard v d')
      then have "r = Inl (SqlExn OperationalError)" "w' = w3" using r by simp_all
      then show thesis using that(5) [OF h] unheard(1,3) by simp
    qed
  qed
qed

section \<open>The contract\<close>

lemma select_user_self: "db_ok d \<Longrightarrow> u \<in> set (users d) \<Longrightarrow> select_user (u_id u) d = Some u"
  unfolding select_user_def by (rule find_unique) (auto simp: db_ok_def users_ok_def)

lemma select_email_self: "db_ok d \<Longrightarrow> u \<in> set (users d) \<Longrightarrow> select_user_by_email (email u) d = Some u"
  unfolding select_user_by_email_def by (rule find_unique) (auto simp: db_ok_def users_ok_def)


lemma registered_user:
  assumes "register_user e bc em pw w = (Inr u, w')"
  shows "email u = normalise_email em \<and> is_active u \<and> users (w_db w') = users (w_db w) @ [u] \<and>
    trades (w_db w') = trades (w_db w) \<and> email u \<notin> email ` set (users (w_db w)) \<and>
    (db_ok (w_db w) \<longrightarrow> db_ok (w_db w')) \<and> (\<exists>n. hash_password bc n pw = Inr (password_hash u))"
  using assms
proof (cases rule: register_user_cases)
  case (stored hashed v c1 c2)
  note row = insert_user_row [OF stored(2)]
  have "v = u" using stored(3) by simp
  then show ?thesis using row stored(1) insert_user_ok [OF _ stored(2)]
    by (auto simp: new_user_def normalise_email_def)
qed simp_all

text \<open>
  C19. Registration, login and tokens fit together: whoever registered can log in with the same password
  under any spelling of the address that normalises alike, as long as the account is stored; and a token
  issued then, by one of the HMAC algorithms, announces the configured lifetime, of a minute or more, and
  identifies exactly that account until it expires, whatever the case of the scheme. When no token can be
  made, login raises what the library raised.
\<close>
theorem registered_user_is_recognised:
  assumes "bcrypt_laws bc" "jwt_laws j" "load_settings db_url raw = Inr s" "JWT_ALGORITHM s \<in> HMAC_ALGORITHMS"
    "register_user e bc em pw w = (Inr u, w1)" "db_ok d" "u \<in> set (users d)"
    "normalise_email em' = normalise_email em" "issued \<le> now" "py_lower scheme' = ''bearer''"
  shows "authenticate_user bc em' pw d = Inr u \<and>
    (case issue_access_token j s issued jti u of
       Inl x \<Rightarrow> \<exists>n. x = PyExn n
     | Inr tr \<Rightarrow>
         token_type tr = ''bearer'' \<and> expires_in tr = ACCESS_TOKEN_EXPIRE_MINUTES s * 60 \<and> 60 \<le> expires_in tr \<and>
         get_current_user j s now (Some (scheme', access_token tr)) d =
           (if (issued + ACCESS_TOKEN_EXPIRE_MINUTES s * 60000000) div 1000000 * 1000000 \<le> now
            then Inl (login_refused ''Token has expired'') else Inr u))"
proof -
  note u = registered_user [OF assms(5)]
  obtain n where n: "hash_password bc n pw = Inr (password_hash u)" using u by blast
  have "get_user_by_email em' d = Some u"
    using select_email_self [OF assms(6,7)] u assms(8) by (simp add: get_user_by_email_def normalise_email_def)
  then have login: "authenticate_user bc em' pw d = Inr u"
    using verify_hashed [OF assms(1) n] u by (simp add: authenticate_user_def)
  show ?thesis
  proof (cases "create_access_token j s (u_id u) None issued jti")
    case (Inl x)
    then have "\<exists>n. x = PyExn n" by (auto simp: create_access_token_def split: sum.splits)
    then show ?thesis using login Inl by (simp add: issue_access_token_def)
  next
    case (Inr v)
    then obtain tok secs where t: "create_access_token j s (u_id u) None issued jti = Inr (tok, secs)" by (cases v) auto
    have life: "token_lifetime s None = ACCESS_TOKEN_EXPIRE_MINUTES s * 60000000" by (simp add: token_lifetime_def)
    show ?thesis
      using login select_user_self [OF assms(6,7)] u assms(10) t token_expires_in [OF t assms(3)]
        decode_created(1) [OF assms(2,4) t] decode_created(2) [OF assms(2,4) t assms(9)]
      by (simp add: get_current_user_def issue_access_token_def get_user_by_id_def life)
  qed
qed

text \<open>
  The answers are alike, the work is not: for an unknown address the outcome does not depend on bcrypt at
  all, for a registered one it does, so that the time of a failed login tells which of the two it was.
\<close>

lemma unknown_address_skips_bcrypt:
  "get_user_by_email em d = None \<Longrightarrow> authenticate_user bc em pw d = authenticate_user bc' em pw d"
  by (simp add: authenticate_user_def)

lemma known_address_asks_bcrypt:
  assumes "get_user_by_email em d = Some u" "password_within_bcrypt_limit pw = Inr True" "encode_or_raise pw = Inr b"
  shows "authenticate_user (bc\<lparr>checkpw := \<lambda>_ _. Some True\<rparr>) em pw d \<noteq>
    authenticate_user (bc\<lparr>checkpw := \<lambda>_ _. Some False\<rparr>) em pw d"
  using assms by (simp add: authenticate_user_def verify_password_def login_refused_def make_error_def)

text \<open>
  C20. One account per address: a registration adds exactly one active user under the normalised address,
  which was free, and touches no trade; any later registration of an address that normalises alike is
  refused with a 409 before anything is hashed or written.
\<close>
theorem one_account_per_address:
  assumes "db_ok (w_db w)" "register_user e bc em pw w = (Inr u, w1)" "db_ok (w_db w2)"
    "u \<in> set (users (w_db w2))" "normalise_email em' = normalise_email em"
  shows "db_ok (w_db w1) \<and> users (w_db w1) = users (w_db w) @ [u] \<and> trades (w_db w1) = trades (w_db w) \<and>
    email u = normalise_email em \<and> email u \<notin> email ` set (users (w_db w)) \<and> is_active u \<and>
    register_user e' bc' em' pw' w2 = (Inl email_taken, w2) \<and>
    er_status (handle_app_error rid (make_error EmailAlreadyRegisteredError None)) = 409"
proof -
  note u = registered_user [OF assms(2)]
  have "get_user_by_email em' (w_db w2) = Some u"
    using select_email_self [OF assms(3,4)] u assms(5) by (simp add: get_user_by_email_def normalise_email_def)
  then have "register_user e' bc' em' pw' w2 = (Inl email_taken, w2)"
    unfolding register_user_def Let_def get_user_by_email_normal by simp
  moreover have "er_status (handle_app_error rid (make_error EmailAlreadyRegisteredError None)) = 409"
    by (simp add: handle_app_error_def error_response_of_def make_error_def)
  ultimately show ?thesis using u assms(1) by blast
qed


text \<open>The refusals share their status, and differ in their text: the caller does learn which it was.\<close>

lemma refusals_differ:
  assumes "decode_access_token j s now old = Inl (TokenError ''Token has expired'')"
    "decode_access_token j s now good = Inr (u_id u)" "select_user (u_id u) d = Some u" "\<not> is_active u"
    "old \<noteq> []" "good \<noteq> []" "py_lower scheme' = ''bearer''"
  shows "get_current_user j s now (Some (scheme', old)) d \<noteq> get_current_user j s now (Some (scheme', good)) d"
  using assms by (simp add: get_current_user_def get_user_by_id_def login_refused_def make_error_def)

section \<open>Witnesses\<close>

definition test_newcomer :: user where
  "test_newcomer =
     \<lparr>u_id = 2, email = ''ann@example.com'', password_hash = ''secret-pw'', is_active = True,
      u_created_at = 0, u_updated_at = 1\<rparr>"

definition registered_world :: world where
  "registered_world =
     \<lparr>w_db = \<lparr>users = [test_owner, test_newcomer], trades = [], user_seq = 3, trade_seq = 1\<rparr>,
      requests = [], tick = 3, owner_cache = None\<rparr>"

definition test_password :: code_points where
  "test_password = [115, 101, 99, 114, 101, 116, 45, 112, 119]"

lemma test_registration:
  "register_user (test_env TimedOut) test_bcrypt '' Ann@Example.com'' test_password test_world =
     (Inr test_newcomer, registered_world)"
proof -
  have em: "py_lower (py_strip '' Ann@Example.com'') = ''ann@example.com''" by code_simp
  have "utf8 test_password = Some test_password"
    by (simp add: utf8_def utf8_char_def code_point_ok_def test_password_def)
  moreover have "map char_of test_password = ''secret-pw''"
    by (simp add: test_password_def char_of_def bit_0)
  ultimately have h: "hash_password test_bcrypt (tick test_world) test_password = Inr ''secret-pw''"
    by (simp add: hash_password_def password_within_bcrypt_limit_def encode_or_raise_def
        BCRYPT_MAX_PASSWORD_BYTES_def test_bcrypt_def test_password_def)
  have free: "get_user_by_email '' Ann@Example.com'' (w_db test_world) = None"
    by (simp add: get_user_by_email_def em select_user_by_email_def test_world_def test_db_def test_owner_def)
  show ?thesis
    unfolding register_user_step [OF free h] em
    by (simp add: db_commit_def varchar_ok_def insert_user_def Let_def new_user_def test_world_def test_db_def test_owner_def
        advance_def test_newcomer_def registered_world_def)
qed

lemma registered_world_ok: "db_ok (w_db registered_world)"
  by (simp add: db_ok_def registered_world_def trades_ok_def users_ok_def test_owner_def test_newcomer_def)

theorem registered_user_is_recognised_witness:
  "authenticate_user test_bcrypt ''ANN@example.com '' test_password (w_db registered_world) = Inr test_newcomer \<and>
   (\<exists>tr. issue_access_token query_jwt test_settings 5 ''id'' test_newcomer = Inr tr \<and> expires_in tr = 3600 \<and>
      get_current_user query_jwt test_settings 5 (Some (''BEARER'', access_token tr)) (w_db registered_world) =
        Inr test_newcomer)"
proof -
  have same: "normalise_email ''ANN@example.com '' = normalise_email '' Ann@Example.com''" by code_simp
  have bearer: "py_lower ''BEARER'' = ''bearer''" by code_simp
  have stored: "test_newcomer \<in> set (users (w_db registered_world))" by (simp add: registered_world_def)
  have minutes: "ACCESS_TOKEN_EXPIRE_MINUTES test_settings = 60" by (simp add: test_settings_def)
  have hmac: "JWT_ALGORITHM test_settings \<in> HMAC_ALGORITHMS" by (simp add: test_settings_def HMAC_ALGORITHMS_def)
  then obtain tr where "issue_access_token query_jwt test_settings 5 ''id'' test_newcomer = Inr tr"
    by (simp add: issue_access_token_def create_access_token_def query_jwt_def)
  then show ?thesis
    using registered_user_is_recognised [OF test_bcrypt_laws query_jwt_laws test_settings_load hmac test_registration
        registered_world_ok stored same order_refl bearer, of 5 "''id''"] minutes by simp
qed

theorem one_account_per_address_witness:
  "users (w_db registered_world) = users (w_db test_world) @ [test_newcomer] \<and>
   register_user (test_env TimedOut) test_bcrypt ''ANN@example.com '' [] registered_world =
     (Inl email_taken, registered_world)"
proof -
  have same: "normalise_email ''ANN@example.com '' = normalise_email '' Ann@Example.com''" by code_simp
  have stored: "test_newcomer \<in> set (users (w_db registered_world))" by (simp add: registered_world_def)
  have ok: "db_ok (w_db test_world)" by (simp add: test_world_def test_db_ok)
  show ?thesis
    using one_account_per_address [OF ok test_registration registered_world_ok stored same,
        of "test_env TimedOut" test_bcrypt "[]"] by blast
qed

end
