(* ===== verification/Routes_Contract.thy ===== *)
theory Routes_Contract
  imports Routes "HOL-Library.Multiset"
begin

text \<open>
  What the endpoints promise, over the definitions of theory Routes: the webhook does nothing without the
  shared secret and its status says what became of the signal; the trades endpoints depend on the
  caller's own rows only, page through them newest first, and never place an order; a failed login
  does not tell whether the account exists.
\<close>

section \<open>Statuses\<close>

lemma envelope_status [simp]:
  "er_status (error_response_of rid n c m d h) = n" "er_headers (error_response_of rid n c m d h) = h"
  by (simp_all add: error_response_of_def)

lemma invalid_request_status [simp]: "er_status (invalid_request rid describe bad) = 422"
  by (simp add: invalid_request_def handle_validation_error_def)

text \<open>Only a domain error of the application is the caller's fault.\<close>

definition server_fault :: "exn \<Rightarrow> bool" where
  "server_fault x = (case x of AppExn a \<Rightarrow> 500 \<le> status_code (ae_class a) | _ \<Rightarrow> True)"

lemma status_code_500: "500 \<le> status_code c \<longleftrightarrow> status_code c = 500"
  by (cases c) simp_all

lemma server_fault_status:
  "server_fault x \<Longrightarrow> er_status (handle_exception rid x) \<in> {500, 503}"
  by (cases x) (simp_all add: server_fault_def status_code_500 handle_exception_def handle_app_error_def
      handle_database_error_def handle_unexpected_error_def)

lemma login_refused_status [simp]:
  "er_status (handle_exception rid (login_refused m)) = 401"
  "er_headers (handle_exception rid (login_refused m)) = [(''WWW-Authenticate'', ''Bearer'')]"
  by (simp_all add: login_refused_def handle_exception_def handle_app_error_def make_error_def)

lemma make_client_fault: "make_client e s a b c d f g = Inl x \<Longrightarrow> server_fault x"
  by (auto simp: make_client_def assert_testnet_def server_fault_def Let_def split: if_splits sum.splits)

lemma get_binance_client_rest:
  assumes "get_binance_client e s pr = (r, pr')"
  shows "ps_world pr' = ps_world pr" "ps_queue pr' = ps_queue pr"
    "case r of Inl x \<Rightarrow> server_fault x | Inr c \<Rightarrow> shared_client pr' = Some c"
  using assms unfolding get_binance_client_def
  by (auto split: option.splits sum.splits dest: make_client_fault)

lemma trade_body_fault: "trade_body t = Inl x \<Longrightarrow> server_fault x"
  by (auto simp: trade_body_def server_fault_def split: sum.splits)

lemma accepted_body_fault: "accepted_body t = Inl x \<Longrightarrow> server_fault x"
  by (auto simp: accepted_body_def dest: trade_body_fault split: sum.splits)

lemma accepted_body_trade:
  assumes "accepted_body t = Inr b"
  shows "trade_read_of t = Inr (wa_trade b) \<and> wa_detail b = ''Signal accepted; trade is '' @ status_value (status t) @ ''.''"
  using assms by (auto simp: accepted_body_def trade_body_def split: sum.splits)

section \<open>No secret, no effect\<close>

definition hide_secret :: "webhook_body \<Rightarrow> webhook_body" where
  "hide_secret body = (case body of Fields raw \<Rightarrow> Fields (raw\<lparr>rp_secret := None\<rparr>) | _ \<Rightarrow> body)"

lemma validate_payload_secret:
  "validate_payload (raw\<lparr>rp_secret := x\<rparr>) =
    (case validate_payload raw of Inl bad \<Rightarrow> Inl bad | Inr p \<Rightarrow> Inr (p\<lparr>p_secret := x\<rparr>))"
  by (simp add: validate_payload_def split: option.split)

lemma validate_payload_keeps_secret: "validate_payload raw = Inr p \<Longrightarrow> p_secret p = rp_secret raw"
  by (auto simp: validate_payload_def split: option.splits)

lemma authenticate_webhook_iff:
  "authenticate_webhook s h b =
    (if (h = Some (WEBHOOK_SECRET s) \<or> b = Some (WEBHOOK_SECRET s)) \<and> WEBHOOK_SECRET s \<noteq> [] then Inr ()
     else Inl (login_refused ''Invalid or missing webhook secret.''))"
  by (auto simp: authenticate_webhook_def secrets_match_iff)

text \<open>
  C7. Without the shared secret in the header or in the body, the webhook does nothing: tables, queue and
  log of requests are as before; the answer is an error - a 401 naming the scheme whenever the payload
  is valid and a client can be made - and it is the answer to the same request without any secret, so
  that what was guessed is echoed nowhere.
\<close>
theorem webhook_needs_the_secret:
  assumes "header \<noteq> Some (WEBHOOK_SECRET s)" "\<forall>raw. body = Fields raw \<longrightarrow> rp_secret raw \<noteq> Some (WEBHOOK_SECRET s)"
    "tradingview_webhook e s describe rid header body pr = (r, pr')"
  shows "ps_world pr' = ps_world pr \<and> ps_queue pr' = ps_queue pr \<and>
    (r, pr') = tradingview_webhook e s describe rid None (hide_secret body) pr \<and>
    (\<exists>er. r = Inl er \<and> er_status er \<in> {401, 422, 500, 503} \<and>
       (shared_client pr \<noteq> None \<longrightarrow>
          (if (\<exists>raw p. body = Fields raw \<and> validate_payload raw = Inr p)
           then er_status er = 401 \<and> er_headers er = [(''WWW-Authenticate'', ''Bearer'')]
           else er_status er = 422)))"
proof -
  obtain q pr1 where q: "get_binance_client e s pr = (q, pr1)" by (cases "get_binance_client e s pr") auto
  note rest = get_binance_client_rest [OF q]
  have made: "\<exists>c. q = Inr c" if "shared_client pr \<noteq> None"
    using q that by (auto simp: get_binance_client_def)
  show ?thesis
  proof (cases "\<exists>bad. body = NotJson bad")
    case True
    then show ?thesis using assms(3) by (auto simp: tradingview_webhook_def hide_secret_def)
  next
    case json: False
    show ?thesis
    proof (cases q)
      case (Inl x)
      then have "server_fault x" using rest(3) by simp
      then have "er_status (handle_exception rid x) \<in> {500, 503}" by (rule server_fault_status)
      moreover have "r = Inl (handle_exception rid x) \<and> pr' = pr1 \<and>
          tradingview_webhook e s describe rid None (hide_secret body) pr = (r, pr')"
        using json assms(3) q Inl by (cases body) (auto simp: tradingview_webhook_def hide_secret_def)
      ultimately show ?thesis using rest(1,2) made Inl by auto
    next
      case (Inr c)
      have fields: ?thesis if "body = Fields raw" "validate_payload raw = Inr p" for raw p
      proof -
        have "authenticate_webhook s header (p_secret p) = Inl (login_refused ''Invalid or missing webhook secret.'')"
          using assms(1,2) that validate_payload_keeps_secret by (simp add: authenticate_webhook_iff)
        moreover have "authenticate_webhook s None None = Inl (login_refused ''Invalid or missing webhook secret.'')"
          by (simp add: authenticate_webhook_iff)
        ultimately show ?thesis using assms(3) q Inr that rest(1,2)
          by (auto simp: tradingview_webhook_def hide_secret_def webhook_handler_def validate_payload_secret respond_def)
      qed
      have "?thesis" if "\<nexists>raw p. body = Fields raw \<and> validate_payload raw = Inr p"
        using json assms(3) q Inr that rest(1,2)
        by (cases body) (auto simp: tradingview_webhook_def hide_secret_def validate_payload_secret split: sum.splits)
      then show ?thesis using fields by blast
    qed
  qed
qed

section \<open>What a status of the webhook says\<close>

lemma place_market_order_fault:
  assumes "place_market_order e c sy sd q cid w = (Inl x, w')"
  shows "server_fault x"
proof -
  have sent: "server_fault y" if "do_request e c m path ps sg v = (Inl y, v')" for m path ps sg v y v'
    using that unfolding do_request_def handle_response_def
    by (auto simp: server_fault_def Let_def split: prod.splits http_outcome.splits if_splits option.splits json.splits)
  have read: "from_payload p = Inl y \<Longrightarrow> server_fault y" for p y
    by (auto simp: from_payload_def server_fault_def Let_def split: option.splits json.splits)
  show ?thesis using assms sent read unfolding place_market_order_def
    by (auto simp: assert_testnet_def server_fault_def [of "PyExn n" for n] split: sum.splits number_error.splits prod.splits if_splits)
qed

lemma submit_to_binance_fault:
  assumes "submit_to_binance e (binance_client e c) t w = (Inl x, w')"
  shows "server_fault x"
proof -
  have saved: "server_fault y" if "commit_or_raise e old new v = (Inl y, v')" for old new v y v'
    using that by (auto simp: commit_or_raise_def server_fault_def split: prod.splits sum.splits)
  obtain o' w1 where o: "place_market_order e c (symbol t) (side_value (side t)) (quantity t) (client_order_id t) w = (o', w1)"
      "record_outcome e (binance_client e c) t o' w1 = (Inl x, w')"
    using assms unfolding submit_to_binance_def by (auto split: prod.splits)
  have reported: "server_fault y" if "commit_or_report e old new v = (Inl y, v')" for old new v y v'
    using that by (auto simp: commit_or_report_def server_fault_def split: prod.splits sum.splits)
  have unsure: "server_fault y" if "handle_uncertain_outcome e (binance_client e c) t z v = (Inl y, v')" for z v y v'
    using that
  proof (cases rule: testnet.handle_uncertain_outcome_cases)
    case (asked t1 w1 q)
    then show ?thesis
      by (auto simp: after_swallowed_def server_fault_def split: sum.splits exn.splits object_state.splits)
  qed (use saved in blast)
  have fault: "o' = Inl y \<Longrightarrow> server_fault y" for y using place_market_order_fault o(1) by blast
  show ?thesis
    using o(2) reported unsure fault unfolding record_outcome_def finalise_failure_def finalise_success_def
    by (auto split: sum.splits exn.splits binance_error.splits)
qed

text \<open>How a call of the service that raises ends: the caller's fault leaves no trace.\<close>

lemma process_signal_raised:
  assumes "process_signal e (binance_client e c) s rid p q w = (Inl x, q', w')"
  shows "server_fault x \<or> (er_status (handle_exception rid' x) \<in> {409, 422} \<and>
    trades (w_db w') = trades (w_db w) \<and> users (w_db w') = users (w_db w) \<and> requests w' = requests w \<and> q' = q)"
  using assms
proof (cases rule: testnet.process_signal_cases)
  case (invalid y)
  then obtain m where "y = business_error m" by (metis validate_signal_error)
  then show ?thesis using invalid
    by (simp add: business_error_def handle_exception_def handle_app_error_def make_error_def)
next
  case (ownerless y)
  then show ?thesis using ownerless_error [OF ownerless(2)] by (auto simp: server_fault_def make_error_def)
next
  case (refused y owner w1)
  note rest = create_pending_trade_rest [OF refused(3)] resolve_trade_owner_id_store [OF refused(2)]
  from refused(3) show ?thesis
  proof (cases rule: create_pending_trade_cases)
    case (conflict c' u d)
    then show ?thesis using refused rest insert_trade_refused [OF conflict(1)] insert_trade_users [OF conflict(1)]
      by (simp add: handle_exception_def handle_app_error_def duplicate_signal_error_def make_error_def)
  qed (use refused in \<open>simp_all add: server_fault_def\<close>)
next
  case (inline owner w1 t w2 cl w3)
  show ?thesis
  proof (cases cl)
    case (Inl y)
    from inline(6) show ?thesis
      by (cases rule: claim_for_submission_cases) (use Inl inline(7) in \<open>simp_all add: server_fault_def\<close>)
  next
    case (Inr v)
    then have "submit_to_binance e (binance_client e c) (the v) w3 = (Inl x, w')"
      using inline(7) by (auto split: option.splits)
    then show ?thesis using submit_to_binance_fault by blast
  qed
qed simp_all

lemma trade_read_of_fields:
  assumes "trade_read_of t = Inr r"
  shows "tr_id r = t_id t \<and> tr_signal_id r = signal_id t \<and> tr_client_order_id r = client_order_id t \<and>
    tr_symbol r = symbol t \<and> tr_side r = side t \<and> tr_status r = status t"
  using assms by (auto simp: trade_read_of_def split: sum.splits)

text \<open>
  C6. The status of a webhook response says what became of the signal. A 202 means that exactly one row
  was added, that it has the id, the signal id and the client order id in the response and belongs to a
  registered user, and that at most one order was sent, for that client order id. Any 4xx means that no
  row was added or changed, nothing was sent and nothing was queued. There is no other outcome but a
  500 or a 503.
\<close>
theorem webhook_status_tells:
  assumes "db_ok (w_db (ps_world pr))" "tradingview_webhook e s describe rid header body pr = (r, pr')"
  shows "case r of
      Inr (code, b) \<Rightarrow> code = 202 \<and>
        wa_detail b = ''Signal accepted; trade is '' @ status_value (tr_status (wa_trade b)) @ ''.'' \<and>
        (\<exists>row. trades (w_db (ps_world pr')) = trades (w_db (ps_world pr)) @ [row] \<and>
           tr_id (wa_trade b) = t_id row \<and> tr_signal_id (wa_trade b) = signal_id row \<and>
           tr_client_order_id (wa_trade b) = client_order_id row \<and>
           client_order_id row = build_client_order_id (signal_id row) \<and>
           user_id row \<in> u_id ` set (users (w_db (ps_world pr))) \<and>
           order_count (ps_world pr') \<le> order_count (ps_world pr) + 1 \<and>
           orders_for (client_order_id row) (ps_world pr') \<le> orders_for (client_order_id row) (ps_world pr) + 1)
    | Inl er \<Rightarrow>
        (er_status er \<in> {401, 409, 422} \<and>
           trades (w_db (ps_world pr')) = trades (w_db (ps_world pr)) \<and>
           users (w_db (ps_world pr')) = users (w_db (ps_world pr)) \<and>
           requests (ps_world pr') = requests (ps_world pr) \<and> ps_queue pr' = ps_queue pr) \<or>
        er_status er \<in> {500, 503}"
proof -
  have fault: "server_fault x \<Longrightarrow> er_status (handle_exception rid x) = 500 \<or> er_status (handle_exception rid x) = 503" for x
    using server_fault_status by blast
  obtain q pr1 where q: "get_binance_client e s pr = (q, pr1)" by (cases "get_binance_client e s pr") auto
  note rest = get_binance_client_rest [OF q]
  show ?thesis
  proof (cases "\<exists>c raw p. q = Inr c \<and> body = Fields raw \<and> validate_payload raw = Inr p \<and>
      authenticate_webhook s header (p_secret p) = Inr ()")
    case False
    have "(\<exists>x. r = Inl (handle_exception rid x) \<and> server_fault x) \<or>
        (ps_world pr' = ps_world pr \<and> ps_queue pr' = ps_queue pr \<and> (\<exists>er. r = Inl er \<and> er_status er \<in> {401, 422}))"
    proof (cases body)
      case (Fields raw)
      then show ?thesis using False assms(2) q rest
        by (cases q; cases "validate_payload raw")
          (auto simp: tradingview_webhook_def webhook_handler_def respond_def authenticate_webhook_iff split: if_splits)
    qed (use assms(2) q rest in \<open>auto simp: tradingview_webhook_def split: sum.splits\<close>)
    then show ?thesis using fault by (auto split: sum.splits)
  next
    case True
    then obtain c raw p where p: "q = Inr c" "body = Fields raw" "validate_payload raw = Inr p"
        "authenticate_webhook s header (p_secret p) = Inr ()" by blast
    obtain r1 q1 w1 where r1: "process_signal e (binance_client e c) s rid p (ps_queue pr) (ps_world pr) = (r1, q1, w1)"
      by (cases "process_signal e (binance_client e c) s rid p (ps_queue pr) (ps_world pr)") auto
    have r: "r = respond rid 202 (case r1 of Inl x \<Rightarrow> Inl x | Inr t \<Rightarrow> accepted_body t)"
        "ps_world pr' = w1" "ps_queue pr' = q1"
      using assms(2) q p r1 rest(1,2) by (auto simp: tradingview_webhook_def webhook_handler_def Let_def)
    show ?thesis
    proof (cases r1)
      case (Inl x)
      then show ?thesis using process_signal_raised [of e c s rid p _ _ x q1 w1 rid] r1 r fault [of x]
        by (auto simp: respond_def)
    next
      case (Inr t)
      note run = r1 [unfolded Inr]
      show ?thesis
      proof (cases "accepted_body t")
        case (Inl x)
        then show ?thesis using \<open>r1 = Inr t\<close> r fault [OF accepted_body_fault [OF Inl]] by (simp add: respond_def)
      next
        case b: (Inr b)
        note body = accepted_body_trade [OF b] trade_read_of_fields [OF conjunct1 [OF accepted_body_trade [OF b]]]
        show ?thesis
          using process_signal_row [OF assms(1) run] process_signal_orders [OF run] body r \<open>r1 = Inr t\<close> b
          by (auto simp: respond_def row_key_def)
      qed
    qed
  qed
qed

section \<open>Own trades only\<close>

definition own_trades :: "int \<Rightarrow> db \<Rightarrow> trade list" where
  "own_trades uid d = filter (\<lambda>t. user_id t = uid) (trades d)"

text \<open>Two processes that differ in other people's trades, and in what the caller does not reach, at most.\<close>

definition agree_for :: "int \<Rightarrow> process \<Rightarrow> process \<Rightarrow> bool" where
  "agree_for uid a b =
     (users (w_db (ps_world a)) = users (w_db (ps_world b)) \<and>
      own_trades uid (w_db (ps_world a)) = own_trades uid (w_db (ps_world b)) \<and>
      tick (ps_world a) = tick (ps_world b) \<and> shared_client a = shared_client b)"

lemma find_own: "find (\<lambda>t. t_id t = tid \<and> user_id t = uid) ts = find (\<lambda>t. t_id t = tid) (filter (\<lambda>t. user_id t = uid) ts)"
  by (induction ts) auto

lemma get_trade_own:
  "get_trade_for_user uid tid d =
     (if int32 tid then Inr (find (\<lambda>t. t_id t = tid) (own_trades uid d)) else Inl (SqlExn DataError))"
  by (simp add: get_trade_for_user_def own_trades_def find_own)

lemma filter_own: "filter (owned_by uid st) (trades d) = filter (owned_by uid st) (own_trades uid d)"
proof -
  have "filter (owned_by uid st) ts = filter (owned_by uid st) (filter (\<lambda>t. user_id t = uid) ts)" for ts
    by (induction ts) (auto simp: owned_by_def)
  then show ?thesis by (simp only: own_trades_def)
qed

lemma list_trades_own:
  "own_trades uid d = own_trades uid d' \<Longrightarrow> list_trades_for_user uid l off st d = list_trades_for_user uid l off st d'"
  by (simp add: list_trades_for_user_def filter_own)

lemma get_current_user_users:
  assumes "users d = users d'"
  shows "get_current_user j s now cr d = get_current_user j s now cr d'"
proof -
  have same: "get_user_by_id uid d = get_user_by_id uid d'" for uid
    using assms by (simp add: get_user_by_id_def select_user_def)
  show ?thesis unfolding get_current_user_def same by (rule refl)
qed

lemma list_trades_handler_agree:
  assumes "agree_for (u_id u) x y"
  shows "fst (list_trades_handler limit offset st u c x) = fst (list_trades_handler limit offset st u c y)"
proof -
  have "list_trades_for_user (u_id u) l k f (w_db (ps_world x)) = list_trades_for_user (u_id u) l k f (w_db (ps_world y))" for l k f
    using assms list_trades_own unfolding agree_for_def by blast
  then show ?thesis by (simp only: list_trades_handler_def Let_def split_beta fst_conv)
qed

text \<open>A request that got past its dependencies runs its handler; one that did not never reaches it.\<close>

lemma with_caller_agree:
  assumes "get_current_user j s (clock e (tick (ps_world a))) cr (w_db (ps_world a)) = Inr u" "agree_for (u_id u) a b"
    "\<And>c x y. agree_for (u_id u) x y \<Longrightarrow> fst (h u c x) = fst (h u c y)"
  shows "fst (with_caller e s j describe rid cr bad h a) = fst (with_caller e s j describe rid cr bad h b)"
proof -
  have ag: "users (w_db (ps_world a)) = users (w_db (ps_world b))" "tick (ps_world a) = tick (ps_world b)"
    "shared_client a = shared_client b" using assms(2) by (simp_all add: agree_for_def)
  have u: "get_current_user j s (clock e (tick (ps_world b))) cr (w_db (ps_world b)) = Inr u"
    using assms(1) ag(2) get_current_user_users [OF ag(1)] by simp
  let ?a = "a\<lparr>ps_world := advance (ps_world a)\<rparr>" and ?b = "b\<lparr>ps_world := advance (ps_world b)\<rparr>"
  obtain q a1 where qa: "get_binance_client e s ?a = (q, a1)" by (cases "get_binance_client e s ?a") auto
  obtain q' b1 where qb: "get_binance_client e s ?b = (q', b1)" by (cases "get_binance_client e s ?b") auto
  have same: "q' = q" "agree_for (u_id u) a1 b1"
    using qa qb assms(2) get_binance_client_rest [OF qa] get_binance_client_rest [OF qb] ag(3)
    unfolding get_binance_client_def agree_for_def advance_def
    by (auto split: option.splits sum.splits)
  show ?thesis
  proof (cases q)
    case (Inl x)
    then show ?thesis using assms(1) u qa qb same by (simp add: with_caller_def utc_now_def)
  next
    case (Inr c)
    have "fst (h u c a1) = fst (h u c b1)" by (rule assms(3) [OF same(2)])
    then show ?thesis using assms(1) u qa qb same Inr
      by (cases "h u c a1"; cases "h u c b1") (simp add: with_caller_def utc_now_def)
  qed
qed

text \<open>
  C10. Nobody sees anything of other people's trades: whatever rows of other accounts are added, changed
  or removed, and whatever is queued or has been sent, the responses of the list and of a single trade,
  errors included, are the same to the last field as long as the accounts and the caller's own rows are.
\<close>
theorem only_own_trades:
  assumes "get_current_user j s (clock e (tick (ps_world a))) credentials (w_db (ps_world a)) = Inr u"
    "agree_for (u_id u) a b"
  shows "fst (list_trades e s j describe rid credentials limit offset st a) =
      fst (list_trades e s j describe rid credentials limit offset st b) \<and>
    fst (get_trade e s j describe rid credentials tid a) = fst (get_trade e s j describe rid credentials tid b)"
proof
  show "fst (list_trades e s j describe rid credentials limit offset st a) =
      fst (list_trades e s j describe rid credentials limit offset st b)"
    unfolding list_trades_def
    by (rule with_caller_agree [OF assms]) (rule list_trades_handler_agree)
  show "fst (get_trade e s j describe rid credentials tid a) = fst (get_trade e s j describe rid credentials tid b)"
    unfolding get_trade_def
    by (rule with_caller_agree [OF assms]) (simp add: get_trade_handler_def get_trade_own agree_for_def)
qed

lemma trade_missing_status:
  "er_status (handle_exception rid (trade_missing tid)) = 404"
  by (simp add: trade_missing_def handle_exception_def handle_app_error_def make_error_def)

text \<open>
  C25. A trade of somebody else is answered exactly as one that does not exist, from reading and from
  reconciling: by what depends on the requested number alone, with nothing sent to the exchange and no
  row changed. That is a 404 for the numbers a trade can have; beyond the INTEGER column the driver
  refuses the parameter, and the answer is a 503.
\<close>
theorem foreign_trade_is_missing:
  assumes "get_current_user j s (clock e (tick (ps_world pr))) credentials (w_db (ps_world pr)) = Inr u"
    "shared_client pr = Some c" "1 \<le> tid" "tid \<notin> t_id ` set (own_trades (u_id u) (w_db (ps_world pr)))"
  shows "let x = (if tid < 2 ^ 31 then trade_missing tid else SqlExn DataError)
    in get_trade e s j describe rid credentials tid pr =
         (Inl (handle_exception rid x), pr\<lparr>ps_world := advance (ps_world pr)\<rparr>) \<and>
       reconcile e s j describe rid credentials tid pr =
         (Inl (handle_exception rid x), pr\<lparr>ps_world := advance (ps_world pr)\<rparr>) \<and>
       er_status (handle_exception rid x) = (if tid < 2 ^ 31 then 404 else 503)"
proof -
  have none: "get_trade_for_user (u_id u) tid (w_db (ps_world pr)) =
      (if tid < 2 ^ 31 then Inr None else Inl (SqlExn DataError))"
    using assms(3,4) by (auto simp: get_trade_own find_None_iff int32_def)
  have client: "get_binance_client e s (pr\<lparr>ps_world := advance (ps_world pr)\<rparr>) =
      (Inr c, pr\<lparr>ps_world := advance (ps_world pr)\<rparr>)"
    using assms(2) by (simp add: get_binance_client_def)
  have "er_status (handle_exception rid (SqlExn DataError)) = 503"
    by (simp add: handle_exception_def handle_database_error_def)
  then show ?thesis
    using assms(1,3) none client trade_missing_status [of rid tid]
    by (simp add: get_trade_def reconcile_def with_caller_def utc_now_def bad_path_def get_trade_handler_def
        reconcile_handler_def respond_def)
qed

section \<open>Pages\<close>

definition newer :: "trade \<Rightarrow> trade \<Rightarrow> bool" where
  "newer a b = (created_at b < created_at a \<or> (created_at b = created_at a \<and> t_id b < t_id a))"

text \<open>Sorting is stable: what was in order before stays in order among equal keys.\<close>

lemma insort_keeps_order:
  fixes f :: "'a \<Rightarrow> int"
  assumes "sorted_wrt (\<lambda>a b. f a < f b \<or> f a = f b \<and> R a b) ys" "\<forall>y \<in> set ys. R x y"
  shows "sorted_wrt (\<lambda>a b. f a < f b \<or> f a = f b \<and> R a b) (insort_key f x ys)"
  using assms
proof (induction ys)
  case (Cons y ys)
  show ?case
  proof (cases "f x \<le> f y")
    case True
    then show ?thesis using Cons.prems by (fastforce simp: not_le)
  next
    case False
    then show ?thesis using Cons by (auto simp: set_insort_key)
  qed
qed simp

lemma sort_keeps_order:
  fixes f :: "'a \<Rightarrow> int"
  assumes "sorted_wrt R xs"
  shows "sorted_wrt (\<lambda>a b. f a < f b \<or> f a = f b \<and> R a b) (sort_key f xs)"
  using assms by (induction xs) (simp_all add: insort_keeps_order)

lemma strictly_sorted:
  "sorted_wrt (\<lambda>a b. - t_id a \<le> - t_id b) ts \<Longrightarrow> distinct (map t_id ts) \<Longrightarrow> sorted_wrt (\<lambda>a b. t_id b < t_id a) ts"
  by (induction ts) (auto simp: less_le image_iff)

lemma newest_first_sorted:
  assumes "distinct (map t_id ts)"
  shows "sorted_wrt newer (newest_first ts)"
proof -
  let ?ids = "sort_key (\<lambda>t. - t_id t) ts"
  have "sorted_wrt (\<lambda>a b. - t_id a \<le> - t_id b) ?ids"
    using sorted_sort_key [of "\<lambda>t. - t_id t" ts] by (simp only: sorted_map)
  moreover have "distinct (map t_id ?ids)"
    using assms by (metis (no_types, lifting) distinct_map distinct_sort set_sort)
  ultimately have "sorted_wrt (\<lambda>a b. t_id b < t_id a) ?ids" by (rule strictly_sorted)
  then have "sorted_wrt (\<lambda>a b. - created_at a < - created_at b \<or> - created_at a = - created_at b \<and> t_id b < t_id a)
      (newest_first ts)"
    unfolding newest_first_def by (rule sort_keeps_order)
  then show ?thesis by (rule sorted_wrt_mono_rel [rotated]) (auto simp: newer_def)
qed

lemma trade_bodies_items:
  "trade_bodies ts = Inr rs \<Longrightarrow> list_all2 (\<lambda>t r. trade_read_of t = Inr r) ts rs"
  by (induction ts arbitrary: rs) (auto simp: trade_body_def split: sum.splits)

lemma take_pages: "concat (map (\<lambda>k. take n (drop (k * n) xs)) [0..<m]) = take (m * n) xs"
proof (induction m)
  case (Suc m)
  have "take (Suc m * n) xs = take (m * n) xs @ take n (drop (m * n) xs)"
    by (metis add.commute mult_Suc take_add)
  then show ?case using Suc by simp
qed simp

text \<open>
  C26. A page of the list: only for a limit of 1 to 200 and a non-negative offset; its items are, in order,
  that slice of the caller's trades with the requested status, newest first with the id breaking ties,
  and the total counts them all. The order is strict, so that consecutive pages of equal size put
  together are the list itself, without a gap or a repetition.
\<close>
theorem pages_make_up_the_list:
  assumes "db_ok (w_db (ps_world pr))"
    "get_current_user j s (clock e (tick (ps_world pr))) credentials (w_db (ps_world pr)) = Inr u"
    "list_trades e s j describe rid credentials limit offset st pr = (Inr (code, page), pr')"
    "mine = newest_first (filter (owned_by (u_id u) (Option.bind st status_of_value)) (trades (w_db (ps_world pr))))"
  shows "code = 200 \<and> 1 \<le> limit \<and> limit \<le> 200 \<and> 0 \<le> offset \<and>
    list_all2 (\<lambda>t r. trade_read_of t = Inr r) (take (nat limit) (drop (nat offset) mine)) (pg_items page) \<and>
    pg_total page = length mine \<and> pg_limit page = limit \<and> pg_offset page = offset \<and>
    sorted_wrt newer mine \<and>
    mset mine = mset (filter (owned_by (u_id u) (Option.bind st status_of_value)) (trades (w_db (ps_world pr)))) \<and>
    concat (map (\<lambda>k. take (nat limit) (drop (k * nat limit) mine)) [0..<length mine]) = mine"
proof -
  obtain q pr1 where q: "get_binance_client e s (pr\<lparr>ps_world := advance (ps_world pr)\<rparr>) = (q, pr1)"
    by (cases "get_binance_client e s (pr\<lparr>ps_world := advance (ps_world pr)\<rparr>)") auto
  have store: "w_db (ps_world pr1) = w_db (ps_world pr)" using get_binance_client_rest(1) [OF q] by simp
  have bad: "bad_list_query limit offset st = []" and
    page: "trade_bodies (take (nat limit) (drop (nat offset) mine)) = Inr (pg_items page)" "code = 200"
      "pg_total page = length mine" "pg_limit page = limit" "pg_offset page = offset"
    using assms(2-4) q store
    by (auto simp: list_trades_def with_caller_def utc_now_def list_trades_handler_def list_trades_for_user_def
        respond_def Let_def newest_first_def split: sum.splits if_splits prod.splits)
  have range: "1 \<le> limit" "limit \<le> 200" "0 \<le> offset"
    using bad by (auto simp: bad_list_query_def split: if_splits)
  have "distinct (map t_id (filter (owned_by (u_id u) (Option.bind st status_of_value)) (trades (w_db (ps_world pr)))))"
    using assms(1) by (auto simp: db_ok_def trades_ok_def intro: distinct_map_filter)
  then have "sorted_wrt newer mine" using newest_first_sorted assms(4) by simp
  moreover have "mset mine = mset (filter (owned_by (u_id u) (Option.bind st status_of_value)) (trades (w_db (ps_world pr))))"
    by (simp add: assms(4) newest_first_def)
  moreover have "length mine \<le> length mine * nat limit" using range(1) by (cases "nat limit") auto
  then have "concat (map (\<lambda>k. take (nat limit) (drop (k * nat limit) mine)) [0..<length mine]) = mine"
    by (simp add: take_pages)
  ultimately show ?thesis using page range trade_bodies_items [OF page(1)] by simp
qed

text \<open>
  A fill the exchange reports as ''NaN'' is stored as it is, since NUMERIC has that value; from then on it
  cannot be printed, and every page it is on is a 500.
\<close>

lemma nan_fill_is_stored:
  "payload_decimal ''executedQty'' [(''executedQty'', JStr ''NaN'')] = NaN" "numeric_28_12 NaN = Some NaN"
proof -
  have "decimal_of_str ''NaN'' = Some NaN" by code_simp
  then show "payload_decimal ''executedQty'' [(''executedQty'', JStr ''NaN'')] = NaN"
    by (simp add: payload_decimal_def json_get_def)
qed (simp add: numeric_28_12.simps)

lemma trade_bodies_fail:
  "t \<in> set ts \<Longrightarrow> trade_body t = Inl x \<Longrightarrow> \<exists>n. trade_bodies ts = Inl (PyExn n)"
proof (induction ts)
  case (Cons a ts)
  have "trade_body b = Inl y \<Longrightarrow> \<exists>n. y = PyExn n" for b y by (auto simp: trade_body_def split: sum.splits)
  then show ?case using Cons by (cases "trade_body a") fastforce+
qed simp

lemma nan_fill_breaks_the_list:
  assumes "get_current_user j s (clock e (tick (ps_world pr))) credentials (w_db (ps_world pr)) = Inr u"
    "shared_client pr = Some c" "bad_list_query limit offset st = []" "offset < 2 ^ 63"
    "t \<in> set (take (nat limit) (drop (nat offset)
       (newest_first (filter (owned_by (u_id u) (Option.bind st status_of_value)) (trades (w_db (ps_world pr)))))))"
    "executed_quantity t = Some NaN"
  shows "\<exists>er. fst (list_trades e s j describe rid credentials limit offset st pr) = Inl er \<and> er_status er = 500"
proof -
  have "format_decimal NaN = Inl NonFinite" by (simp add: format_decimal.simps)
  then have "\<exists>x. trade_body t = Inl x"
    using assms(6) by (simp add: trade_body_def trade_read_of_def serialise_decimal_def split: sum.split)
  then obtain n where "trade_bodies (take (nat limit) (drop (nat offset)
       (newest_first (filter (owned_by (u_id u) (Option.bind st status_of_value)) (trades (w_db (ps_world pr))))))) =
      Inl (PyExn n)"
    using trade_bodies_fail [OF assms(5)] by blast
  moreover have "bigint_ok (Some (int (nat limit)))" "bigint_ok (Some (int (nat offset)))"
    using assms(3,4) by (auto simp: bad_list_query_def bigint_ok_def split: if_splits)
  ultimately have "fst (list_trades e s j describe rid credentials limit offset st pr) = Inl (handle_exception rid (PyExn n))"
    using assms(1-3)
    by (simp add: list_trades_def with_caller_def utc_now_def get_binance_client_def list_trades_handler_def
        list_trades_for_user_def respond_def Let_def)
  then show ?thesis by (simp add: handle_exception_def handle_unexpected_error_def)
qed

section \<open>Logging in\<close>

text \<open>Nobody can log in with these credentials.\<close>

definition wrong_credentials :: "bcrypt \<Rightarrow> email_validator \<Rightarrow> string \<Rightarrow> code_points \<Rightarrow> db \<Rightarrow> bool" where
  "wrong_credentials bc ev em pw d =
     (ev em \<noteq> None \<and> pw \<noteq> [] \<and> utf8 pw \<noteq> None \<and>
      (case get_user_by_email (normalise_email (the (ev em))) d of
         None \<Rightarrow> True | Some u \<Rightarrow> verify_password bc pw (password_hash u) \<noteq> Inr True))"

lemma verify_password_returns: "utf8 pw \<noteq> None \<Longrightarrow> \<exists>b. verify_password bc pw h = Inr b"
  by (auto simp: verify_password_def password_within_bcrypt_limit_def encode_or_raise_def split: option.splits)

lemma wrong_login:
  assumes "wrong_credentials bc ev em pw (w_db w)"
  shows "login e bc j s ev describe rid jti (Inr (em, pw)) w =
    (Inl (handle_exception rid (login_refused ''Incorrect email or password.'')), w)"
proof -
  obtain v where v: "ev em = Some v" "pw \<noteq> []" "utf8 pw \<noteq> None"
    using assms by (auto simp: wrong_credentials_def)
  have "authenticate_user bc (normalise_email v) pw (w_db w) = Inl (login_refused ''Incorrect email or password.'')"
  proof (cases "get_user_by_email (normalise_email v) (w_db w)")
    case (Some u)
    then have "verify_password bc pw (password_hash u) \<noteq> Inr True"
      using assms v(1) by (simp add: wrong_credentials_def)
    moreover obtain b where "verify_password bc pw (password_hash u) = Inr b"
      using verify_password_returns [OF v(3)] by blast
    ultimately show ?thesis using Some by (simp add: authenticate_user_def)
  qed (simp add: authenticate_user_def)
  then show ?thesis using v(1,2) by (simp add: login_def validate_login_def)
qed

text \<open>
  C28. A failed login tells nothing: an unknown address, a wrong password, a password longer than bcrypt
  takes and a deactivated account with a wrong password are answered alike, with one 401 that depends on
  neither the address, the password nor the table, and nothing is written.
\<close>
theorem failed_logins_are_alike:
  assumes "wrong_credentials bc ev em pw (w_db w)" "wrong_credentials bc ev em' pw' (w_db w')"
  shows "fst (login e bc j s ev describe rid jti (Inr (em, pw)) w) =
      fst (login e' bc j' s' ev describe rid jti' (Inr (em', pw')) w') \<and>
    snd (login e bc j s ev describe rid jti (Inr (em, pw)) w) = w \<and>
    (\<exists>er. fst (login e bc j s ev describe rid jti (Inr (em, pw)) w) = Inl er \<and> er_status er = 401)"
  by (simp add: wrong_login [OF assms(1)] wrong_login [OF assms(2)])

end
