(* ===== verification/Routes_Examples.thy ===== *)
theory Routes_Examples
  imports Routes_Contract
begin

text \<open>
  Concrete requests for the theorems of theory Routes_Contract: the test suite's settings, accounts and
  signal, a caller with a token of the query-string JWT library of theory Security, and a process whose
  exchange client has been made.
\<close>

definition test_describe :: "string \<Rightarrow> validation_error" where
  "test_describe f = \<lparr>ve_loc = Some [''body'', f], ve_msg = None, ve_type = None, ve_input = JNull\<rparr>"

definition process_of :: "world \<Rightarrow> process" where
  "process_of w = \<lparr>shared_client = Some test_client, ps_queue = new_queue 10, ps_world = w\<rparr>"

definition bearer :: "user \<Rightarrow> (string \<times> string) option" where
  "bearer u = (case issue_access_token query_jwt test_settings 0 ''id'' u of
     Inl _ \<Rightarrow> None | Inr tr \<Rightarrow> Some (''bearer'', access_token tr))"

lemma bearer_user:
  assumes "select_user (u_id u) d = Some u" "is_active u"
  shows "get_current_user query_jwt test_settings 0 (bearer u) d = Inr u"
proof -
  have hmac: "JWT_ALGORITHM test_settings \<in> HMAC_ALGORITHMS" by (simp add: test_settings_def HMAC_ALGORITHMS_def)
  then obtain tok secs where t: "create_access_token query_jwt test_settings (u_id u) None 0 ''id'' = Inr (tok, secs)"
    by (simp add: create_access_token_def query_jwt_def)
  have "decode_access_token query_jwt test_settings 0 tok = Inr (u_id u)"
    using decode_created(2) [OF query_jwt_laws hmac t order_refl] by (simp add: token_lifetime_def test_settings_def)
  moreover have "tok \<noteq> []" using decode_created(1) [OF query_jwt_laws hmac t] .
  moreover have "py_lower ''bearer'' = ''bearer''" by code_simp
  ultimately show ?thesis
    using assms t by (simp add: bearer_def issue_access_token_def get_current_user_def get_user_by_id_def)
qed

section \<open>The webhook\<close>

definition test_raw :: "string option \<Rightarrow> raw_payload" where
  "test_raw x = \<lparr>rp_signal_id = ''sig-1'', rp_symbol = ''btcusdt'', rp_action = ''buy'',
     rp_quantity = Fin False 1 (- 3), rp_secret = x\<rparr>"

lemma test_raw_valid: "validate_payload (test_raw x) = Inr (test_payload\<lparr>p_secret := x\<rparr>)"
proof -
  have "validate_signal_id ''sig-1'' = Some ''sig-1''" "validate_symbol ''btcusdt'' = Some ''BTCUSDT''"
    "normalise_action ''buy'' = Some BUY" "validate_quantity (Fin False (Suc 0) (- 3)) = Some (Fin False (Suc 0) (- 3))"
    by code_simp+
  then show ?thesis by (simp add: validate_payload_def test_raw_def test_payload_def)
qed

theorem webhook_needs_the_secret_witness:
  "\<exists>er. fst (tradingview_webhook (test_env filled_answer) test_settings test_describe ''rid'' (Some ''guess'')
      (Fields (test_raw (Some ''another guess''))) (process_of test_world)) = Inl er \<and> er_status er = 401"
proof -
  let ?run = "tradingview_webhook (test_env filled_answer) test_settings test_describe ''rid'' (Some ''guess'')
      (Fields (test_raw (Some ''another guess''))) (process_of test_world)"
  have run: "?run = (fst ?run, snd ?run)" by simp
  have header: "Some ''guess'' \<noteq> Some (WEBHOOK_SECRET test_settings)" by (simp add: test_settings_def)
  have body: "\<forall>raw. Fields (test_raw (Some ''another guess'')) = Fields raw \<longrightarrow>
      rp_secret raw \<noteq> Some (WEBHOOK_SECRET test_settings)"
    by (auto simp: test_raw_def test_settings_def)
  have client: "shared_client (process_of test_world) \<noteq> None" by (simp add: process_of_def)
  obtain er where "fst ?run = Inl er"
      "if \<exists>raw p. Fields (test_raw (Some ''another guess'')) = Fields raw \<and> validate_payload raw = Inr p
       then er_status er = 401 \<and> er_headers er = [(''WWW-Authenticate'', ''Bearer'')] else er_status er = 422"
    using webhook_needs_the_secret [OF header body run] client by blast
  then show ?thesis using test_raw_valid by auto
qed

lemma test_signal_object:
  assumes "process_signal (test_env filled_answer) (binance_client (test_env filled_answer) test_client)
      queued_settings rid p q w = (Inr t, q', w')"
  shows "quantity t = p_quantity p \<and> executed_quantity t = None \<and> cumulative_quote_quantity t = None"
  using assms
proof (cases rule: testnet.process_signal_cases)
  case (queued owner w1 t')
  from queued(3) show ?thesis
  proof (cases rule: create_pending_trade_cases)
    case (created t2 c u d)
    then show ?thesis using insert_trade_rows [of "new_trade p owner c u" "w_db w1" t2 d] queued(5)
      by (auto simp: new_trade_def)
  qed simp_all
qed (simp_all add: queued_settings_def)

theorem webhook_status_tells_witness:
  "\<exists>b pr'. tradingview_webhook (test_env filled_answer) queued_settings test_describe ''rid''
      (Some ''test-webhook-secret-value'') (Fields (test_raw None)) (process_of test_world) = (Inr (202, b), pr') \<and>
     tr_signal_id (wa_trade b) = ''sig-1'' \<and> length (trades (w_db (ps_world pr'))) = 1"
proof -
  let ?e = "test_env filled_answer"
  have same: "test_payload\<lparr>p_secret := None\<rparr> = test_payload" by (simp add: test_payload_def)
  obtain t q' w' where p: "process_signal ?e (binance_client ?e test_client) queued_settings ''rid''
      test_payload (new_queue 10) test_world = (Inr t, q', w')"
    using test_signal_accepted by blast
  have "format_decimal (Fin False (Suc 0) (- 3)) = Inr ''0.001''" by code_simp
  then obtain tr where tr: "trade_read_of t = Inr tr"
    using test_signal_object [OF p] by (simp add: trade_read_of_def serialise_decimal_def test_payload_def)
  have secret: "authenticate_webhook queued_settings (Some ''test-webhook-secret-value'') None = Inr ()"
    by (simp add: authenticate_webhook_iff queued_settings_def test_settings_def)
  have body: "accepted_body t = Inr \<lparr>wa_detail = ''Signal accepted; trade is '' @ status_value (status t) @ ''.'', wa_trade = tr\<rparr>"
    using tr by (simp add: accepted_body_def trade_body_def)
  have none: "p_secret test_payload = None" by (simp add: test_payload_def)
  have run: "tradingview_webhook ?e queued_settings test_describe ''rid'' (Some ''test-webhook-secret-value'')
      (Fields (test_raw None)) (process_of test_world) =
      (Inr (202, \<lparr>wa_detail = ''Signal accepted; trade is '' @ status_value (status t) @ ''.'', wa_trade = tr\<rparr>),
       \<lparr>shared_client = Some test_client, ps_queue = q', ps_world = w'\<rparr>)"
    using p body secret none
    by (simp add: tradingview_webhook_def get_binance_client_def process_of_def test_raw_valid same
        webhook_handler_def respond_def)
  have "tr_signal_id tr = ''sig-1''"
    using trade_read_of_fields [OF tr] process_signal_row [OF _ p] test_db_ok by (auto simp: test_world_def test_payload_def)
  moreover have ok: "db_ok (w_db (ps_world (process_of test_world)))"
    using test_db_ok by (simp add: process_of_def test_world_def)
  ultimately show ?thesis using webhook_status_tells [OF ok run] run
    by (auto simp: process_of_def test_world_def test_db_def)
qed

section \<open>The trades endpoints\<close>

text \<open>The owner with a trade, and a newcomer without one.\<close>

definition two_accounts :: world where
  "two_accounts =
     \<lparr>w_db = \<lparr>users = [test_owner, test_newcomer], trades = [test_trade], user_seq = 3, trade_seq = 2\<rparr>,
      requests = [], tick = 0, owner_cache = None\<rparr>"

lemma two_accounts_callers:
  "get_current_user query_jwt test_settings (clock (test_env out) (tick (ps_world (process_of two_accounts))))
     (bearer test_newcomer) (w_db (ps_world (process_of two_accounts))) = Inr test_newcomer"
  "get_current_user query_jwt test_settings (clock (test_env out) (tick (ps_world (process_of two_accounts))))
     (bearer test_owner) (w_db (ps_world (process_of two_accounts))) = Inr test_owner"
  using bearer_user [of test_newcomer "w_db two_accounts"] bearer_user [of test_owner "w_db two_accounts"]
  by (simp_all add: process_of_def two_accounts_def select_user_def test_owner_def test_newcomer_def)

theorem only_own_trades_witness:
  "fst (list_trades (test_env TimedOut) test_settings query_jwt test_describe ''rid'' (bearer test_newcomer) 50 0 None
      (process_of two_accounts)) =
   fst (list_trades (test_env TimedOut) test_settings query_jwt test_describe ''rid'' (bearer test_newcomer) 50 0 None
      (process_of (two_accounts\<lparr>w_db := (w_db two_accounts)\<lparr>trades := []\<rparr>\<rparr>)))"
proof -
  have "agree_for (u_id test_newcomer) (process_of two_accounts)
      (process_of (two_accounts\<lparr>w_db := (w_db two_accounts)\<lparr>trades := []\<rparr>\<rparr>))"
    by (simp add: agree_for_def process_of_def two_accounts_def own_trades_def test_trade_def test_newcomer_def)
  from only_own_trades [OF two_accounts_callers(1) this] show ?thesis by blast
qed

theorem foreign_trade_is_missing_witness:
  "(\<exists>er. fst (reconcile (test_env filled_answer) test_settings query_jwt test_describe ''rid''
      (bearer test_newcomer) 1 (process_of two_accounts)) = Inl er \<and> er_status er = 404) \<and>
   (\<exists>er. fst (get_trade (test_env filled_answer) test_settings query_jwt test_describe ''rid''
      (bearer test_newcomer) (2 ^ 31) (process_of two_accounts)) = Inl er \<and> er_status er = 503)"
proof -
  have client: "shared_client (process_of two_accounts) = Some test_client" by (simp add: process_of_def)
  have foreign: "(1 :: int) \<notin> t_id ` set (own_trades (u_id test_newcomer) (w_db (ps_world (process_of two_accounts))))"
    "(2 ^ 31 :: int) \<notin> t_id ` set (own_trades (u_id test_newcomer) (w_db (ps_world (process_of two_accounts))))"
    by (simp_all add: own_trades_def process_of_def two_accounts_def test_trade_def test_newcomer_def)
  have one: "(1 :: int) \<le> 2 ^ 31" by simp
  show ?thesis
    using foreign_trade_is_missing [OF two_accounts_callers(1) client order_refl foreign(1)]
      foreign_trade_is_missing [OF two_accounts_callers(1) client one foreign(2)]
    by (simp add: Let_def)
qed

theorem pages_make_up_the_list_witness:
  "\<exists>page pr'. list_trades (test_env TimedOut) test_settings query_jwt test_describe ''rid'' (bearer test_owner) 50 0 None
      (process_of two_accounts) = (Inr (200, page), pr') \<and> pg_total page = 1 \<and> length (pg_items page) = 1"
proof -
  have ok: "db_ok (w_db (ps_world (process_of two_accounts)))"
    by (simp add: process_of_def two_accounts_def db_ok_def trades_ok_def users_ok_def test_owner_def
        test_newcomer_def test_trade_def)
  obtain tr where tr: "trade_read_of test_trade = Inr tr"
    using test_quantity_text by (simp add: trade_read_of_def serialise_decimal_def test_trade_def)
  have mine: "newest_first (filter (owned_by (u_id test_owner) (Option.bind None status_of_value))
      (trades (w_db (ps_world (process_of two_accounts))))) = [test_trade]"
    by (simp add: process_of_def two_accounts_def owned_by_def test_trade_def test_owner_def newest_first_def)
  have "\<exists>page pr'. list_trades (test_env TimedOut) test_settings query_jwt test_describe ''rid'' (bearer test_owner)
      50 0 None (process_of two_accounts) = (Inr (200, page), pr')"
    using two_accounts_callers(2) [of TimedOut] tr mine
    by (simp add: list_trades_def with_caller_def utc_now_def get_binance_client_def process_of_def bad_list_query_def
        list_trades_handler_def list_trades_for_user_def bigint_ok_def newest_first_def trade_body_def respond_def two_accounts_def)
  then obtain page pr' where run: "list_trades (test_env TimedOut) test_settings query_jwt test_describe ''rid''
      (bearer test_owner) 50 0 None (process_of two_accounts) = (Inr (200, page), pr')" by blast
  from pages_make_up_the_list [OF ok two_accounts_callers(2) run mine [symmetric]] run show ?thesis
    by (auto dest: list_all2_lengthD)
qed

section \<open>Logging in\<close>

theorem failed_logins_are_alike_witness:
  "fst (login (test_env TimedOut) test_bcrypt query_jwt test_settings Some test_describe ''rid'' ''id''
      (Inr (''nobody@example.com'', [1])) registered_world) =
   fst (login (test_env TimedOut) test_bcrypt query_jwt test_settings Some test_describe ''rid'' ''id''
      (Inr (''ann@example.com'', [1])) registered_world)"
proof -
  have n: "normalise_email ''nobody@example.com'' = ''nobody@example.com''"
    "normalise_email ''ann@example.com'' = ''ann@example.com''"
    "py_lower (py_strip ''nobody@example.com'') = ''nobody@example.com''"
    "py_lower (py_strip ''ann@example.com'') = ''ann@example.com''" by code_simp+
  have u: "utf8 [Suc 0] = Some [Suc 0]" by (simp add: utf8_def utf8_char_def code_point_ok_def)
  have unknown: "wrong_credentials test_bcrypt Some ''nobody@example.com'' [1] (w_db registered_world)"
    by (simp add: wrong_credentials_def n u get_user_by_email_def select_user_by_email_def registered_world_def
        test_owner_def test_newcomer_def)
  have "verify_password test_bcrypt [1] ''secret-pw'' \<noteq> Inr True"
    by (simp add: verify_password_def password_within_bcrypt_limit_def encode_or_raise_def u test_bcrypt_def)
  then have wrong: "wrong_credentials test_bcrypt Some ''ann@example.com'' [1] (w_db registered_world)"
    by (simp add: wrong_credentials_def n u get_user_by_email_def select_user_by_email_def registered_world_def
        test_owner_def test_newcomer_def)
  show ?thesis using failed_logins_are_alike [OF unknown wrong] by blast
qed

end
