(* ===== verification/App.thy ===== *)
theory App
  imports Routes_Examples
begin

text \<open>
  \<open>app/api/router.py\<close>, the decorators of \<open>app/api/routes/*.py\<close> and \<open>create_app\<close> of \<open>app/main.py\<close>: the
  table of routes, which endpoint a request reaches, and the whole application as one function of a
  request and the process. Matching a path against a template is Starlette's and a parameter, as are
  the parsing of bodies and numbers, tokens, bcrypt and e-mail addresses; routes are tried in order.
\<close>

section \<open>The table of routes\<close>

datatype endpoint =
  Framework_page string
| Health | Health_ready
| Auth_register | Auth_login | Auth_me
| Trades_list | Trades_get | Trades_reconcile
| Webhook_tradingview

record api_route =
  rt_methods :: "string list"
  rt_path :: string
  rt_endpoint :: endpoint

record api_router =
  ar_prefix :: string
  ar_routes :: "api_route list"

definition router_get :: "string \<Rightarrow> endpoint \<Rightarrow> api_route" where
  "router_get path x = \<lparr>rt_methods = [''GET''], rt_path = path, rt_endpoint = x\<rparr>"

definition router_post :: "string \<Rightarrow> endpoint \<Rightarrow> api_route" where
  "router_post path x = \<lparr>rt_methods = [''POST''], rt_path = path, rt_endpoint = x\<rparr>"

definition health_router :: api_router where
  "health_router = \<lparr>ar_prefix = [], ar_routes = [router_get ''/health'' Health, router_get ''/health/ready'' Health_ready]\<rparr>"

definition auth_router :: api_router where
  "auth_router = \<lparr>ar_prefix = ''/auth'',
     ar_routes = [router_post ''/register'' Auth_register, router_post ''/login'' Auth_login, router_get ''/me'' Auth_me]\<rparr>"

definition trades_router :: api_router where
  "trades_router = \<lparr>ar_prefix = ''/trades'',
     ar_routes = [router_get [] Trades_list, router_get ''/{trade_id}'' Trades_get,
                  router_post ''/{trade_id}/reconcile'' Trades_reconcile]\<rparr>"

definition webhook_router :: api_router where
  "webhook_router = \<lparr>ar_prefix = ''/webhook'', ar_routes = [router_post ''/tradingview'' Webhook_tradingview]\<rparr>"

definition include_router :: "api_router \<Rightarrow> api_route list \<Rightarrow> api_route list" where
  "include_router r rs = rs @ map (\<lambda>x. x\<lparr>rt_path := ar_prefix r @ rt_path x\<rparr>) (ar_routes r)"

definition api_routes :: "api_route list" where
  "api_routes =
     include_router webhook_router (include_router trades_router
       (include_router auth_router (include_router health_router [])))"

text \<open>
  The application: its pages for people come first, as FastAPI adds them when it is made; the middleware
  and the exception handlers it is given are those of theories Request_Context and Errors.
\<close>

record application =
  ap_title :: string
  ap_version :: string
  ap_middleware :: "string list"
  ap_handled :: "string list"
  ap_routes :: "api_route list"

definition page :: "string \<Rightarrow> api_route" where
  "page path = \<lparr>rt_methods = [''GET'', ''HEAD''], rt_path = path, rt_endpoint = Framework_page path\<rparr>"

definition create_app :: "settings \<Rightarrow> application" where
  "create_app s =
     \<lparr>ap_title = APP_NAME s, ap_version = ''1.0.0'', ap_middleware = [''RequestContextMiddleware''],
      ap_handled = [''AppError'', ''RequestValidationError'', ''StarletteHTTPException'', ''SQLAlchemyError'', ''Exception''],
      ap_routes = [page ''/openapi.json'', page ''/docs'', page ''/docs/oauth2-redirect'', page ''/redoc''] @ api_routes\<rparr>"

section \<open>Dispatch\<close>

type_synonym params = "(string \<times> string) list"
type_synonym path_matcher = "string \<Rightarrow> string \<Rightarrow> params option"

text \<open>
  What Starlette documents of templates: one without parameters matches itself only; a parameter, a name in
  braces without a convertor, stands for a non-empty run of characters other than a slash. Nothing is
  said of paths with a line feed, before which the end of a regular expression matches, too.
\<close>

definition one_line :: "string \<Rightarrow> bool" where
  "one_line path = (CHR 0x0A \<notin> set path)"

definition param_name :: "string \<Rightarrow> bool" where
  "param_name n = (n \<noteq> [] \<and> list_all (\<lambda>c. is_lower c \<or> c = CHR ''_'') n)"

definition matcher_laws :: "path_matcher \<Rightarrow> bool" where
  "matcher_laws m \<longleftrightarrow>
     (\<forall>t p. CHR ''{'' \<notin> set t \<and> one_line p \<longrightarrow> m t p = (if p = t then Some [] else None)) \<and>
     (\<forall>a n b p. CHR ''{'' \<notin> set (a @ b) \<and> param_name n \<and> one_line p \<longrightarrow>
        (\<forall>v. v \<noteq> [] \<and> CHR ''/'' \<notin> set v \<and> p = a @ v @ b \<longrightarrow> m (a @ ''{'' @ n @ ''}'' @ b) p = Some [(n, v)]) \<and>
        (\<forall>ps. m (a @ ''{'' @ n @ ''}'' @ b) p = Some ps \<longrightarrow>
           (\<exists>v. v \<noteq> [] \<and> CHR ''/'' \<notin> set v \<and> p = a @ v @ b \<and> ps = [(n, v)])))"

datatype routing =
  Reached endpoint params
| Not_allowed "string list"
| Moved string
| Unknown_path

fun first_match :: "path_matcher \<Rightarrow> string \<Rightarrow> string \<Rightarrow> api_route list \<Rightarrow> (endpoint \<times> params) option" where
  "first_match m meth path [] = None"
| "first_match m meth path (r # rs) =
     (case m (rt_path r) path of
        None \<Rightarrow> first_match m meth path rs
      | Some ps \<Rightarrow> if meth \<in> set (rt_methods r) then Some (rt_endpoint r, ps) else first_match m meth path rs)"

definition strip_slashes :: "string \<Rightarrow> string" where
  "strip_slashes path = rev (dropWhile (\<lambda>c. c = CHR ''/'') (rev path))"

definition other_slash :: "string \<Rightarrow> string" where
  "other_slash path = (if path \<noteq> [] \<and> last path = CHR ''/'' then strip_slashes path else path @ ''/'')"

definition dispatch :: "path_matcher \<Rightarrow> string \<Rightarrow> string \<Rightarrow> api_route list \<Rightarrow> routing" where
  "dispatch m meth path rs =
     (case first_match m meth path rs of
        Some (x, ps) \<Rightarrow> Reached x ps
      | None \<Rightarrow>
          (case find (\<lambda>r. m (rt_path r) path \<noteq> None) rs of
             Some r \<Rightarrow> Not_allowed (rt_methods r)
           | None \<Rightarrow>
               if path \<noteq> ''/'' \<and> (\<exists>r \<in> set rs. m (rt_path r) (other_slash path) \<noteq> None)
               then Moved (other_slash path) else Unknown_path))"

section \<open>A request\<close>

record call =
  cl_method :: string
  cl_path :: string
  cl_query :: "(string \<times> string) list"
  cl_bearer :: "(string \<times> string) option"
  cl_secret :: "string option"
  cl_body :: string

text \<open>Everything an endpoint uses that is not of this repository.\<close>

record platform =
  pf_env :: env
  pf_settings :: settings
  pf_jwt :: jwt_library
  pf_bcrypt :: bcrypt
  pf_email :: email_validator
  pf_describe :: "string \<Rightarrow> validation_error"
  pf_match :: path_matcher
  pf_int :: "string \<Rightarrow> int option"
  pf_webhook :: "string \<Rightarrow> webhook_body"
  pf_credentials :: "string \<Rightarrow> credentials_body"
  pf_probe :: "nat \<Rightarrow> (exn, unit) result"
  pf_jti :: "nat \<Rightarrow> string"

datatype reply =
  Live liveness | Ready readiness | Account user_read | Token token_response
| Page trade_page | One_trade trade_read | Accepted webhook_accepted
| Document string | Elsewhere string | Failure error_response

definition reply_of :: "('b \<Rightarrow> reply) \<Rightarrow> 'b response \<Rightarrow> int \<times> reply" where
  "reply_of f r = (case r of Inl er \<Rightarrow> (er_status er, Failure er) | Inr (code, b) \<Rightarrow> (code, f b))"

text \<open>A query parameter that is missing has its default; of a repeated one the last value counts.\<close>

definition query_int :: "platform \<Rightarrow> string \<Rightarrow> int \<Rightarrow> (string \<times> string) list \<Rightarrow> int option" where
  "query_int p name missing qs =
     (case map_of (rev qs) name of None \<Rightarrow> Some missing | Some v \<Rightarrow> pf_int p v)"

definition bad_unless :: "string \<Rightarrow> (int \<Rightarrow> bool) \<Rightarrow> int option \<Rightarrow> string list" where
  "bad_unless name ok i = (case i of Some n \<Rightarrow> if ok n then [] else [name] | None \<Rightarrow> [name])"

definition list_endpoint :: "platform \<Rightarrow> string \<Rightarrow> call \<Rightarrow> process \<Rightarrow> trade_page response \<times> process" where
  "list_endpoint p rid c pr =
     (let limit = query_int p ''limit'' 50 (cl_query c); offset = query_int p ''offset'' 0 (cl_query c);
          st = map_of (rev (cl_query c)) ''status''
      in case (limit, offset) of
           (Some l, Some k) \<Rightarrow> list_trades (pf_env p) (pf_settings p) (pf_jwt p) (pf_describe p) rid (cl_bearer c) l k st pr
         | _ \<Rightarrow>
             with_caller (pf_env p) (pf_settings p) (pf_jwt p) (pf_describe p) rid (cl_bearer c)
               (bad_unless ''limit'' (\<lambda>n. 1 \<le> n \<and> n \<le> 200) limit @ bad_unless ''offset'' (\<lambda>n. 0 \<le> n) offset @
                (case st of None \<Rightarrow> [] | Some v \<Rightarrow> if status_of_value v = None then [''status''] else []))
               (list_trades_handler 0 0 None) pr)"

text \<open>The path parameter of the trade endpoints; one that is no integer is refused as one out of range is.\<close>

definition path_id :: "platform \<Rightarrow> params \<Rightarrow> int option" where
  "path_id p ps = Option.bind (map_of ps ''trade_id'') (pf_int p)"

definition trade_endpoint ::
  "platform \<Rightarrow> string \<Rightarrow> call \<Rightarrow> params \<Rightarrow> (int \<Rightarrow> process \<Rightarrow> trade_read response \<times> process) \<Rightarrow> process \<Rightarrow>
   trade_read response \<times> process" where
  "trade_endpoint p rid c ps route pr =
     (case path_id p ps of
        Some tid \<Rightarrow> route tid pr
      | None \<Rightarrow>
          with_caller (pf_env p) (pf_settings p) (pf_jwt p) (pf_describe p) rid (cl_bearer c) [''trade_id'']
            (get_trade_handler 0) pr)"

definition in_world :: "(world \<Rightarrow> 'b \<times> world) \<Rightarrow> process \<Rightarrow> 'b \<times> process" where
  "in_world f pr = (case f (ps_world pr) of (r, w) \<Rightarrow> (r, pr\<lparr>ps_world := w\<rparr>))"

definition run_endpoint :: "platform \<Rightarrow> string \<Rightarrow> call \<Rightarrow> endpoint \<Rightarrow> params \<Rightarrow> process \<Rightarrow> (int \<times> reply) \<times> process" where
  "run_endpoint p rid c x ps pr =
     (let e = pf_env p; s = pf_settings p; j = pf_jwt p; describe = pf_describe p; now = tick (ps_world pr)
      in case x of
           Framework_page path \<Rightarrow> ((200, Document path), pr)
         | Health \<Rightarrow> (apsnd Live (health s), pr)
         | Health_ready \<Rightarrow> (apsnd Ready (readiness_route s (pf_probe p now)), pr)
         | Auth_register \<Rightarrow>
             apfst (reply_of Account)
               (in_world (register e (pf_bcrypt p) (pf_email p) describe rid (pf_credentials p (cl_body c))) pr)
         | Auth_login \<Rightarrow>
             apfst (reply_of Token)
               (in_world (login e (pf_bcrypt p) j s (pf_email p) describe rid (pf_jti p now) (pf_credentials p (cl_body c))) pr)
         | Auth_me \<Rightarrow> apfst (reply_of Account) (in_world (read_current_user e j s (pf_email p) rid (cl_bearer c)) pr)
         | Trades_list \<Rightarrow> apfst (reply_of Page) (list_endpoint p rid c pr)
         | Trades_get \<Rightarrow>
             apfst (reply_of One_trade) (trade_endpoint p rid c ps (get_trade e s j describe rid (cl_bearer c)) pr)
         | Trades_reconcile \<Rightarrow>
             apfst (reply_of One_trade) (trade_endpoint p rid c ps (reconcile e s j describe rid (cl_bearer c)) pr)
         | Webhook_tradingview \<Rightarrow>
             apfst (reply_of Accepted)
               (tradingview_webhook e s describe rid (cl_secret c) (pf_webhook p (cl_body c)) pr))"

definition http_failure :: "string \<Rightarrow> int \<Rightarrow> string \<Rightarrow> (string \<times> string) list \<Rightarrow> int \<times> reply" where
  "http_failure rid code detail headers =
     (er_status (handle_http_exception rid code detail headers), Failure (handle_http_exception rid code detail headers))"

definition handle_call :: "platform \<Rightarrow> string \<Rightarrow> call \<Rightarrow> process \<Rightarrow> (int \<times> reply) \<times> process" where
  "handle_call p rid c pr =
     (case dispatch (pf_match p) (cl_method c) (cl_path c) (ap_routes (create_app (pf_settings p))) of
        Reached x ps \<Rightarrow> run_endpoint p rid c x ps pr
      | Not_allowed ms \<Rightarrow> (http_failure rid 405 ''Method Not Allowed'' [(''Allow'', py_join '', '' ms)], pr)
      | Moved path \<Rightarrow> ((307, Elsewhere path), pr)
      | Unknown_path \<Rightarrow> (http_failure rid 404 ''Not Found'' [], pr))"

end
