(* ===== verification/App_Contract.thy ===== *)
theory App_Contract
  imports App
begin

text \<open>
  What the application promises over the definitions of theory App: every request reaches the one endpoint
  that serves its method and path or is refused without effect, and the effects on the tables, the queue
  and the exchange come through the webhook, the registration and the reconciliation of an own trade only.
\<close>

section \<open>The matcher of the witnesses\<close>

definition plain_match :: path_matcher where
  "plain_match t p =
     (let a = takeWhile (\<lambda>c. c \<noteq> CHR ''{'') t; rest = dropWhile (\<lambda>c. c \<noteq> CHR ''{'') t;
          n = takeWhile (\<lambda>c. c \<noteq> CHR ''}'') (tl rest); b = tl (dropWhile (\<lambda>c. c \<noteq> CHR ''}'') (tl rest));
          v = take (length p - length a - length b) (drop (length a) p)
      in if rest = [] then (if p = t then Some [] else None)
         else if p = a @ v @ b \<and> v \<noteq> [] \<and> CHR ''/'' \<notin> set v then Some [(n, v)] else None)"

lemma plain_match_template:
  assumes "CHR ''{'' \<notin> set a" "CHR ''}'' \<notin> set n"
  shows "plain_match (a @ ''{'' @ n @ ''}'' @ b) p =
    (let v = take (length p - length a - length b) (drop (length a) p)
     in if p = a @ v @ b \<and> v \<noteq> [] \<and> CHR ''/'' \<notin> set v then Some [(n, v)] else None)"
proof -
  have "takeWhile (\<lambda>c. c \<noteq> CHR ''{'') (a @ CHR ''{'' # n @ CHR ''}'' # b) = a"
    "dropWhile (\<lambda>c. c \<noteq> CHR ''{'') (a @ CHR ''{'' # n @ CHR ''}'' # b) = CHR ''{'' # n @ CHR ''}'' # b"
    using assms(1) by (induction a) auto
  moreover have "takeWhile (\<lambda>c. c \<noteq> CHR ''}'') (n @ CHR ''}'' # b) = n"
    "dropWhile (\<lambda>c. c \<noteq> CHR ''}'') (n @ CHR ''}'' # b) = CHR ''}'' # b"
    using assms(2) by (induction n) auto
  ultimately show ?thesis by (simp add: plain_match_def Let_def)
qed

lemma param_name_chars: "param_name n \<Longrightarrow> CHR ''{'' \<notin> set n \<and> CHR ''}'' \<notin> set n"
  by (auto simp: param_name_def is_lower_def list_all_iff)

lemma plain_match_laws: "matcher_laws plain_match"
  unfolding matcher_laws_def
proof (intro conjI allI impI)
  fix t p :: string
  assume "CHR ''{'' \<notin> set t \<and> one_line p"
  then have "dropWhile (\<lambda>c. c \<noteq> CHR ''{'') t = []" by auto
  then show "plain_match t p = (if p = t then Some [] else None)" by (simp add: plain_match_def)
next
  fix a n b p v :: string
  assume laws: "CHR ''{'' \<notin> set (a @ b) \<and> param_name n \<and> one_line p"
    and v: "v \<noteq> [] \<and> CHR ''/'' \<notin> set v \<and> p = a @ v @ b"
  show "plain_match (a @ ''{'' @ n @ ''}'' @ b) p = Some [(n, v)]"
    using laws v param_name_chars [of n] by (subst plain_match_template) auto
next
  fix a n b p :: string and ps
  assume laws: "CHR ''{'' \<notin> set (a @ b) \<and> param_name n \<and> one_line p"
    and m: "plain_match (a @ ''{'' @ n @ ''}'' @ b) p = Some ps"
  show "\<exists>v. v \<noteq> [] \<and> CHR ''/'' \<notin> set v \<and> p = a @ v @ b \<and> ps = [(n, v)]"
    using laws m param_name_chars [of n] by (subst (asm) plain_match_template) (auto simp: Let_def split: if_splits)
qed

section \<open>What a request reaches\<close>

text \<open>A path parameter: one segment.\<close>

definition segment :: "string \<Rightarrow> bool" where
  "segment v = (v \<noteq> [] \<and> CHR ''/'' \<notin> set v)"

text \<open>The interface as a reader of the README would give it: which endpoint serves which method and path.\<close>

fun serves :: "endpoint \<Rightarrow> string \<Rightarrow> string \<Rightarrow> params \<Rightarrow> bool" where
  "serves (Framework_page x) meth path ps =
     (meth \<in> {''GET'', ''HEAD''} \<and> path = x \<and> ps = [] \<and>
      x \<in> {''/openapi.json'', ''/docs'', ''/docs/oauth2-redirect'', ''/redoc''})"
| "serves Health meth path ps = (meth = ''GET'' \<and> path = ''/health'' \<and> ps = [])"
| "serves Health_ready meth path ps = (meth = ''GET'' \<and> path = ''/health/ready'' \<and> ps = [])"
| "serves Auth_register meth path ps = (meth = ''POST'' \<and> path = ''/auth/register'' \<and> ps = [])"
| "serves Auth_login meth path ps = (meth = ''POST'' \<and> path = ''/auth/login'' \<and> ps = [])"
| "serves Auth_me meth path ps = (meth = ''GET'' \<and> path = ''/auth/me'' \<and> ps = [])"
| "serves Trades_list meth path ps = (meth = ''GET'' \<and> path = ''/trades'' \<and> ps = [])"
| "serves Trades_get meth path ps =
     (meth = ''GET'' \<and> (\<exists>v. segment v \<and> path = ''/trades/'' @ v \<and> ps = [(''trade_id'', v)]))"
| "serves Trades_reconcile meth path ps =
     (meth = ''POST'' \<and> (\<exists>v. segment v \<and> path = ''/trades/'' @ v @ ''/reconcile'' \<and> ps = [(''trade_id'', v)]))"
| "serves Webhook_tradingview meth path ps = (meth = ''POST'' \<and> path = ''/webhook/tradingview'' \<and> ps = [])"

lemma table:
  "ap_routes (create_app s) =
    [page ''/openapi.json'', page ''/docs'', page ''/docs/oauth2-redirect'', page ''/redoc'',
     router_get ''/health'' Health, router_get ''/health/ready'' Health_ready,
     router_post ''/auth/register'' Auth_register, router_post ''/auth/login'' Auth_login, router_get ''/auth/me'' Auth_me,
     router_get ''/trades'' Trades_list, router_get ''/trades/{trade_id}'' Trades_get,
     router_post ''/trades/{trade_id}/reconcile'' Trades_reconcile,
     router_post ''/webhook/tradingview'' Webhook_tradingview]"
  by (simp add: create_app_def api_routes_def include_router_def health_router_def auth_router_def trades_router_def
      webhook_router_def router_get_def router_post_def)

lemma literal_match:
  "matcher_laws m \<Longrightarrow> one_line path \<Longrightarrow> CHR ''{'' \<notin> set t \<Longrightarrow> m t path = (if path = t then Some [] else None)"
  by (simp add: matcher_laws_def)

lemma template_match:
  assumes "matcher_laws m" "one_line path" "CHR ''{'' \<notin> set (a @ b)" "param_name n"
  shows "m (a @ ''{'' @ n @ ''}'' @ b) path = Some ps \<longleftrightarrow> (\<exists>v. segment v \<and> path = a @ v @ b \<and> ps = [(n, v)])"
  using assms unfolding matcher_laws_def segment_def by blast

lemma trade_templates:
  assumes "matcher_laws m" "one_line path"
  shows "m ''/trades/{trade_id}'' path = Some ps \<longleftrightarrow> (\<exists>v. segment v \<and> path = ''/trades/'' @ v \<and> ps = [(''trade_id'', v)])"
    "m ''/trades/{trade_id}/reconcile'' path = Some ps \<longleftrightarrow>
      (\<exists>v. segment v \<and> path = ''/trades/'' @ v @ ''/reconcile'' \<and> ps = [(''trade_id'', v)])"
proof -
  have name: "param_name ''trade_id''" by code_simp
  show "m ''/trades/{trade_id}'' path = Some ps \<longleftrightarrow> (\<exists>v. segment v \<and> path = ''/trades/'' @ v \<and> ps = [(''trade_id'', v)])"
    using template_match [OF assms _ name, of "''/trades/''" "[]" ps] by simp
  show "m ''/trades/{trade_id}/reconcile'' path = Some ps \<longleftrightarrow>
      (\<exists>v. segment v \<and> path = ''/trades/'' @ v @ ''/reconcile'' \<and> ps = [(''trade_id'', v)])"
    using template_match [OF assms _ name, of "''/trades/''" "''/reconcile''" ps] by simp
qed

text \<open>A route of the table matches a request exactly when its endpoint serves it, and no two routes share a path.\<close>

lemma route_serves:
  assumes "matcher_laws m" "one_line path" "r \<in> set (ap_routes (create_app s))"
  shows "m (rt_path r) path = Some ps \<and> meth \<in> set (rt_methods r) \<longleftrightarrow> serves (rt_endpoint r) meth path ps"
  using assms(2,3) unfolding table
  by (auto simp: page_def router_get_def router_post_def literal_match [OF assms(1)] trade_templates [OF assms(1)] split: if_splits)

lemma route_allows: "r \<in> set (ap_routes (create_app s)) \<Longrightarrow> \<exists>meth. meth \<in> set (rt_methods r)"
  unfolding table by (auto simp: page_def router_get_def router_post_def)

lemma endpoints_apart: "r \<in> set (ap_routes (create_app s)) \<Longrightarrow> r' \<in> set (ap_routes (create_app s)) \<Longrightarrow>
  rt_endpoint r = rt_endpoint r' \<Longrightarrow> r = r'"
proof -
  have "distinct (map rt_endpoint (ap_routes (create_app s)))"
    unfolding table by (simp add: page_def router_get_def router_post_def)
  then show "r \<in> set (ap_routes (create_app s)) \<Longrightarrow> r' \<in> set (ap_routes (create_app s)) \<Longrightarrow>
      rt_endpoint r = rt_endpoint r' \<Longrightarrow> r = r'"
    unfolding distinct_map by (blast dest: inj_onD)
qed

lemma segment_reconcile [simp]: "\<not> segment (v @ ''/reconcile'')"
  by (simp add: segment_def)

lemma serves_apart: "serves x meth path ps \<Longrightarrow> serves y meth' path ps' \<Longrightarrow> x = y"
  by (cases x; cases y) auto

lemma one_route:
  assumes "matcher_laws m" "one_line path" "r \<in> set (ap_routes (create_app s))" "r' \<in> set (ap_routes (create_app s))"
    "m (rt_path r) path \<noteq> None" "m (rt_path r') path \<noteq> None"
  shows "r = r'"
proof -
  obtain ps ps' where ps: "m (rt_path r) path = Some ps" "m (rt_path r') path = Some ps'" using assms(5,6) by blast
  obtain meth meth' where "meth \<in> set (rt_methods r)" "meth' \<in> set (rt_methods r')"
    using route_allows assms(3,4) by blast
  then have "serves (rt_endpoint r) meth path ps" "serves (rt_endpoint r') meth' path ps'"
    using route_serves [OF assms(1,2,3)] route_serves [OF assms(1,2,4)] ps by blast+
  then show ?thesis using serves_apart endpoints_apart [OF assms(3,4)] by blast
qed

lemma first_match_unique:
  assumes "\<And>r r'. r \<in> set rs \<Longrightarrow> r' \<in> set rs \<Longrightarrow> m (rt_path r) path \<noteq> None \<Longrightarrow> m (rt_path r') path \<noteq> None \<Longrightarrow> r = r'"
  shows "first_match m meth path rs = Some (x, ps) \<longleftrightarrow>
    (\<exists>r \<in> set rs. m (rt_path r) path = Some ps \<and> meth \<in> set (rt_methods r) \<and> rt_endpoint r = x)"
  using assms
proof (induction rs)
  case (Cons r rs)
  have IH: "first_match m meth path rs = Some (x, ps) \<longleftrightarrow>
    (\<exists>r \<in> set rs. m (rt_path r) path = Some ps \<and> meth \<in> set (rt_methods r) \<and> rt_endpoint r = x)"
    using Cons.prems by (intro Cons.IH) auto
  have same: "r' = r" if "r' \<in> set rs" "m (rt_path r') path = Some ps'" "m (rt_path r) path = Some qs" for r' ps' qs
    using Cons.prems [of r' r] that by simp
  show ?case
  proof (cases "m (rt_path r) path")
    case None
    then show ?thesis using IH by auto
  next
    case (Some qs)
    then show ?thesis using IH same [OF _ _ Some] by (auto dest: same)
  qed
qed simp

lemma first_match_table:
  assumes "matcher_laws m" "one_line path"
  shows "first_match m meth path (ap_routes (create_app s)) = Some (x, ps) \<longleftrightarrow>
    (\<exists>r \<in> set (ap_routes (create_app s)). m (rt_path r) path = Some ps \<and> meth \<in> set (rt_methods r) \<and> rt_endpoint r = x)"
  by (rule first_match_unique) (rule one_route [OF assms])

lemma dispatch_first: "dispatch m meth path rs = Reached x ps \<longleftrightarrow> first_match m meth path rs = Some (x, ps)"
  by (auto simp: dispatch_def split: option.splits)

lemma dispatch_reached:
  assumes "matcher_laws m" "one_line path"
  shows "dispatch m meth path (ap_routes (create_app s)) = Reached x ps \<longleftrightarrow> serves x meth path ps"
proof -
  let ?T = "ap_routes (create_app s)"
  have "dispatch m meth path ?T = Reached x ps \<longleftrightarrow>
      (\<exists>r \<in> set ?T. m (rt_path r) path = Some ps \<and> meth \<in> set (rt_methods r) \<and> rt_endpoint r = x)"
    unfolding dispatch_first by (rule first_match_table [OF assms])
  also have "\<dots> \<longleftrightarrow> (\<exists>r \<in> set ?T. serves (rt_endpoint r) meth path ps \<and> rt_endpoint r = x)"
    using route_serves [OF assms, where s = s] by blast
  also have "\<dots> \<longleftrightarrow> serves x meth path ps"
  proof -
    have "\<exists>r \<in> set ?T. rt_endpoint r = x" if "serves x meth path ps"
      using that unfolding table by (cases x) (auto simp: page_def router_get_def router_post_def)
    then show ?thesis by auto
  qed
  finally show ?thesis .
qed

text \<open>What happens to a request nobody serves.\<close>

lemma path_known:
  assumes "matcher_laws m" "one_line path"
  shows "(\<exists>r \<in> set (ap_routes (create_app s)). m (rt_path r) path \<noteq> None) \<longleftrightarrow> (\<exists>x meth ps. serves x meth path ps)"
proof
  assume "\<exists>r \<in> set (ap_routes (create_app s)). m (rt_path r) path \<noteq> None"
  then obtain r ps where r: "r \<in> set (ap_routes (create_app s))" "m (rt_path r) path = Some ps" by blast
  then show "\<exists>x meth ps. serves x meth path ps" using route_allows [OF r(1)] route_serves [OF assms r(1)] by blast
next
  assume "\<exists>x meth ps. serves x meth path ps"
  then obtain x meth ps where "serves x meth path ps" by blast
  then have "first_match m meth path (ap_routes (create_app s)) = Some (x, ps)"
    using dispatch_reached [OF assms] dispatch_first by blast
  then show "\<exists>r \<in> set (ap_routes (create_app s)). m (rt_path r) path \<noteq> None"
    using first_match_table [OF assms] by blast
qed

lemma one_line_other_slash: "one_line path \<Longrightarrow> one_line (other_slash path)"
  by (auto simp: one_line_def other_slash_def strip_slashes_def dest: set_dropWhileD)

lemma dispatch_refused:
  assumes "matcher_laws m" "one_line path" "\<And>x ps. \<not> serves x meth path ps"
  shows "if \<exists>x n ps. serves x n path ps
    then \<exists>ms. dispatch m meth path (ap_routes (create_app s)) = Not_allowed ms \<and>
      (\<forall>n. n \<in> set ms \<longleftrightarrow> (\<exists>x ps. serves x n path ps))
    else dispatch m meth path (ap_routes (create_app s)) = Unknown_path \<or>
      dispatch m meth path (ap_routes (create_app s)) = Moved (other_slash path) \<and>
      (\<exists>x n ps. serves x n (other_slash path) ps)"
proof -
  let ?T = "ap_routes (create_app s)"
  have none: "first_match m meth path ?T = None"
  proof (cases "first_match m meth path ?T")
    case (Some y)
    then have "dispatch m meth path ?T = Reached (fst y) (snd y)" by (simp add: dispatch_first)
    then show ?thesis using dispatch_reached [OF assms(1,2)] assms(3) by blast
  qed
  show ?thesis
  proof (cases "find (\<lambda>r. m (rt_path r) path \<noteq> None) ?T")
    case None
    then have "\<not> (\<exists>r \<in> set ?T. m (rt_path r) path \<noteq> None)" unfolding find_None_iff by blast
    then have "\<not> (\<exists>x n ps. serves x n path ps)" using path_known [OF assms(1,2)] by blast
    then show ?thesis using none None path_known [OF assms(1) one_line_other_slash [OF assms(2)], of s] by (simp add: dispatch_def)
  next
    case (Some r)
    have r: "r \<in> set ?T" "m (rt_path r) path \<noteq> None"
      using Some find_Some_iff [of "\<lambda>r. m (rt_path r) path \<noteq> None" ?T r] by auto
    have allowed: "n \<in> set (rt_methods r) \<longleftrightarrow> (\<exists>x ps. serves x n path ps)" for n
    proof
      assume "n \<in> set (rt_methods r)"
      then show "\<exists>x ps. serves x n path ps" using r route_serves [OF assms(1,2) r(1)] by blast
    next
      assume "\<exists>x ps. serves x n path ps"
      then obtain x ps where s: "serves x n path ps" by blast
      then have "first_match m n path ?T = Some (x, ps)" using dispatch_reached [OF assms(1,2)] dispatch_first by blast
      then obtain r' where "r' \<in> set ?T" "m (rt_path r') path = Some ps" "n \<in> set (rt_methods r')"
        using first_match_table [OF assms(1,2)] by blast
      then show "n \<in> set (rt_methods r)" using one_route [OF assms(1,2) r(1), of r'] r(2) by simp
    qed
    moreover have "\<exists>x n ps. serves x n path ps" using path_known [OF assms(1,2)] r by blast
    ultimately show ?thesis using none Some by (simp add: dispatch_def)
  qed
qed

text \<open>
  C27. Every request whose path is one line is served by the table: one whose method and path an endpoint serves runs that
  endpoint, with the segment of the path as its parameter; any other changes nothing at all, and is a
  405 naming exactly the methods the path has, a redirection to the same path with or without its
  slash when that one is served, or a 404.
\<close>
theorem requests_reach_their_endpoint:
  assumes "matcher_laws (pf_match p)" "one_line (cl_path c)" "handle_call p rid c pr = (a, pr')"
  shows "(\<forall>x ps. serves x (cl_method c) (cl_path c) ps \<longrightarrow> (a, pr') = run_endpoint p rid c x ps pr) \<and>
    ((\<forall>x ps. \<not> serves x (cl_method c) (cl_path c) ps) \<longrightarrow> pr' = pr \<and>
       (if \<exists>x n ps. serves x n (cl_path c) ps
        then fst a = 405 \<and> (\<exists>er ms. snd a = Failure er \<and> er_headers er = [(''Allow'', py_join '', '' ms)] \<and>
          (\<forall>n. n \<in> set ms \<longleftrightarrow> (\<exists>x ps. serves x n (cl_path c) ps)))
        else fst a = 404 \<or> fst a = 307 \<and> snd a = Elsewhere (other_slash (cl_path c)) \<and>
          (\<exists>x n ps. serves x n (other_slash (cl_path c)) ps)))"
proof -
  let ?d = "dispatch (pf_match p) (cl_method c) (cl_path c) (ap_routes (create_app (pf_settings p)))"
  have "(a, pr') = run_endpoint p rid c x ps pr" if "serves x (cl_method c) (cl_path c) ps" for x ps
  proof -
    have "?d = Reached x ps" using that dispatch_reached [OF assms(1,2)] by blast
    then show ?thesis using assms(3) by (simp add: handle_call_def)
  qed
  moreover have "pr' = pr \<and>
      (if \<exists>x n ps. serves x n (cl_path c) ps
        then fst a = 405 \<and> (\<exists>er ms. snd a = Failure er \<and> er_headers er = [(''Allow'', py_join '', '' ms)] \<and>
          (\<forall>n. n \<in> set ms \<longleftrightarrow> (\<exists>x ps. serves x n (cl_path c) ps)))
        else fst a = 404 \<or> fst a = 307 \<and> snd a = Elsewhere (other_slash (cl_path c)) \<and>
          (\<exists>x n ps. serves x n (other_slash (cl_path c)) ps))"
    if none: "\<forall>x ps. \<not> serves x (cl_method c) (cl_path c) ps"
  proof -
    note refused = dispatch_refused [OF assms(1,2), of "cl_method c" "pf_settings p"]
    show ?thesis
    proof (cases "\<exists>x n ps. serves x n (cl_path c) ps")
      case True
      then obtain ms where "?d = Not_allowed ms" "\<forall>n. n \<in> set ms \<longleftrightarrow> (\<exists>x ps. serves x n (cl_path c) ps)"
        using refused none by auto
      then show ?thesis using assms(3) True
        by (auto simp: handle_call_def http_failure_def handle_http_exception_def)
    next
      case False
      then have "?d = Unknown_path \<or> ?d = Moved (other_slash (cl_path c)) \<and>
          (\<exists>x n ps. serves x n (other_slash (cl_path c)) ps)"
        using refused none by simp
      then show ?thesis using assms(3) False
        by (auto simp: handle_call_def http_failure_def handle_http_exception_def)
    qed
  qed
  ultimately show ?thesis by blast
qed

section \<open>The doors\<close>

text \<open>Only the clock and the shared client move.\<close>

definition untouched :: "process \<Rightarrow> process \<Rightarrow> bool" where
  "untouched a b =
     (w_db (ps_world b) = w_db (ps_world a) \<and> requests (ps_world b) = requests (ps_world a) \<and> ps_queue b = ps_queue a)"

lemma untouched_refl [simp]: "untouched a a"
  by (simp add: untouched_def)

lemma with_caller_effect:
  assumes "with_caller e s j describe rid cr bad h pr = (r, pr')"
  obtains (stopped) "untouched pr pr'"
  | (handled) u c pr2 where "get_current_user j s (clock e (tick (ps_world pr))) cr (w_db (ps_world pr)) = Inr u"
      "bad = []" "untouched pr pr2" "pr' = snd (h u c pr2)"
proof (cases "get_current_user j s (clock e (tick (ps_world pr))) cr (w_db (ps_world pr))")
  case (Inl x)
  then show thesis using stopped assms by (auto simp: with_caller_def utc_now_def untouched_def)
next
  case (Inr u)
  let ?p = "pr\<lparr>ps_world := advance (ps_world pr)\<rparr>"
  obtain q pr2 where q: "get_binance_client e s ?p = (q, pr2)" by (cases "get_binance_client e s ?p") auto
  have un: "untouched pr pr2" using get_binance_client_rest [OF q] by (simp add: untouched_def)
  show thesis
  proof (cases "(\<exists>x. q = Inl x) \<or> bad \<noteq> []")
    case True
    then have "pr' = pr2" using assms Inr q by (auto simp: with_caller_def utc_now_def split: sum.splits)
    then show thesis using stopped un by simp
  next
    case False
    then obtain c where "q = Inr c" "bad = []" by (cases q) auto
    then have "pr' = snd (h u c pr2)"
      using assms Inr q by (auto simp: with_caller_def utc_now_def split: prod.splits)
    then show thesis using handled [OF Inr _ un] \<open>bad = []\<close> by blast
  qed
qed

lemma reading_touches_nothing:
  "untouched pr (snd (list_trades_handler l k st u c pr))" "untouched pr (snd (get_trade_handler tid u c pr))"
  by (simp_all add: list_trades_handler_def get_trade_handler_def split_beta Let_def)

lemma with_caller_reads:
  assumes "\<And>u c pr2. untouched pr2 (snd (h u c pr2))"
  shows "untouched pr (snd (with_caller e s j describe rid cr bad h pr))"
proof -
  obtain r pr' where w: "with_caller e s j describe rid cr bad h pr = (r, pr')"
    by (cases "with_caller e s j describe rid cr bad h pr") auto
  then show ?thesis
  proof (cases rule: with_caller_effect)
    case (handled u c pr2)
    then show ?thesis using w assms [of pr2 u c] by (simp add: untouched_def)
  qed (simp add: w)
qed

lemma list_endpoint_reads: "untouched pr (snd (list_endpoint p rid c pr))"
  by (simp add: list_endpoint_def list_trades_def with_caller_reads reading_touches_nothing Let_def split: option.split)

lemma get_endpoint_reads:
  "untouched pr (snd (trade_endpoint p rid c ps (get_trade e s j describe rid cr) pr))"
  by (simp add: trade_endpoint_def get_trade_def with_caller_reads reading_touches_nothing split: option.split)

text \<open>A reconciliation over HTTP touches one trade of the caller's at most, and sends no order.\<close>

definition reconciled_own :: "int \<Rightarrow> int \<Rightarrow> process \<Rightarrow> process \<Rightarrow> bool" where
  "reconciled_own uid tid a b =
     (tid \<in> t_id ` set (own_trades uid (w_db (ps_world a))) \<and> only_rows {tid} (w_db (ps_world a)) (w_db (ps_world b)) \<and>
      map identity (trades (w_db (ps_world b))) = map identity (trades (w_db (ps_world a))) \<and>
      order_count (ps_world b) = order_count (ps_world a) \<and> ps_queue b = ps_queue a)"

lemma reconcile_effect:
  assumes "reconcile e s j describe rid cr tid pr = (r, pr')" "db_ok (w_db (ps_world pr))"
  shows "untouched pr pr' \<or> (\<exists>u. get_current_user j s (clock e (tick (ps_world pr))) cr (w_db (ps_world pr)) = Inr u \<and>
    reconciled_own (u_id u) tid pr pr')"
  using assms(1) unfolding reconcile_def
proof (cases rule: with_caller_effect)
  case (handled u c pr2)
  have db: "w_db (ps_world pr2) = w_db (ps_world pr)" "requests (ps_world pr2) = requests (ps_world pr)"
    "ps_queue pr2 = ps_queue pr" using handled(3) by (simp_all add: untouched_def)
  show ?thesis
  proof (cases "\<exists>t. get_trade_for_user (u_id u) tid (w_db (ps_world pr2)) = Inr (Some t)")
    case False
    then show ?thesis using handled by (auto simp: reconcile_handler_def split: sum.splits option.splits)
  next
    case True
    then obtain t where Some: "get_trade_for_user (u_id u) tid (w_db (ps_world pr2)) = Inr (Some t)" by blast
    have t: "t \<in> set (own_trades (u_id u) (w_db (ps_world pr)))" "t_id t = tid"
      using Some unfolding get_trade_own db by (auto simp: find_Some_iff split: if_splits)
    obtain q w where q: "reconcile_trade e (binance_client e c) t (ps_world pr2) = (q, w)"
      by (cases "reconcile_trade e (binance_client e c) t (ps_world pr2)") auto
    have pr': "pr' = pr2\<lparr>ps_world := w\<rparr>" using handled(4) Some q by (simp add: reconcile_handler_def)
    have "db_ok (w_db (ps_world pr2))" using assms(2) db by simp
    then have "reconciled_own (u_id u) tid pr pr'"
      using testnet.reconcile_trade_effect [OF q] t db unfolding pr'
      by (auto simp: reconciled_own_def order_count_def)
    then show ?thesis using handled(1) by blast
  qed
qed simp

text \<open>A signal leaves the accounts alone; a registration the trades.\<close>

lemma process_signal_users:
  assumes "process_signal e (binance_client e c) s rid p q w = (r, q', w')" "db_ok (w_db w)"
  shows "users (w_db w') = users (w_db w)"
proof -
  have created: "users (w_db v') = users (w_db v) \<and> (db_ok (w_db v) \<longrightarrow> db_ok (w_db v'))"
    if "create_pending_trade e p owner v = (x, v')" for owner v x v'
    using that create_pending_trade_ok [OF that]
    by (cases rule: create_pending_trade_cases) (auto dest: insert_trade_users)
  have claimed: "users (w_db v') = users (w_db v)" if "claim_for_submission e tid v = (x, v')" for tid v x v'
    using that by (cases rule: claim_for_submission_cases) (auto simp: update_claim_def)
  show ?thesis
    using assms(1)
  proof (cases rule: testnet.process_signal_cases)
    case (inline owner w1 t w2 cl w3)
    note w1 = resolve_trade_owner_id_store [OF inline(2)]
    have w2: "users (w_db w2) = users (w_db w)" "db_ok (w_db w2)" using created [OF inline(3)] w1 assms(2) by auto
    have w3: "users (w_db w3) = users (w_db w)" "db_ok (w_db w3)"
      using claimed [OF inline(6)] claim_keeps_ok [OF inline(6) w2(2)] w2(1) by simp_all
    have "w' = w3 \<or> (\<exists>t'. submit_to_binance e (binance_client e c) t' w3 = (r, w'))"
      using inline(7) by (auto split: sum.splits option.splits)
    then have "w' = w3 \<or> (\<exists>I. only_rows I (w_db w3) (w_db w'))"
      using testnet.submit_to_binance_effect(5) w3(2) by blast
    then show ?thesis using w3(1) by (auto simp: only_rows_def)
  qed (use created in \<open>auto dest!: resolve_trade_owner_id_store\<close>)
qed

lemma register_user_effect:
  assumes "register_user e bc em pw w = (r, w')"
  shows "trades (w_db w') = trades (w_db w) \<and> requests w' = requests w"
proof
  from assms show "trades (w_db w') = trades (w_db w)"
    by (cases rule: register_user_cases) (auto dest: insert_user_row)
  from assms show "requests w' = requests w"
    unfolding register_user_def utc_now_def
    by (auto simp: Let_def split: option.splits sum.splits prod.splits sql_error.splits dest!: db_commit_rest)
qed

lemma register_effect:
  "trades (w_db (snd (register e bc ev describe rid body w))) = trades (w_db w) \<and>
   requests (snd (register e bc ev describe rid body w)) = requests w"
  using register_user_effect unfolding register_def by (fastforce split: sum.split prod.split)

lemma login_touches_nothing:
  "w_db (snd (login e bc j s ev describe rid jti body w)) = w_db w \<and>
   requests (snd (login e bc j s ev describe rid jti body w)) = requests w"
  unfolding login_def utc_now_def by (auto split: sum.split prod.split)

text \<open>The webhook: closed without the secret, and then a signal at most.\<close>

definition secret_shown :: "platform \<Rightarrow> call \<Rightarrow> bool" where
  "secret_shown p c =
     (WEBHOOK_SECRET (pf_settings p) \<noteq> [] \<and>
      (cl_secret c = Some (WEBHOOK_SECRET (pf_settings p)) \<or>
       (\<exists>raw. pf_webhook p (cl_body c) = Fields raw \<and> rp_secret raw = Some (WEBHOOK_SECRET (pf_settings p)))))"

lemma webhook_effect:
  assumes "tradingview_webhook e s describe rid header body pr = (r, pr')" "db_ok (w_db (ps_world pr))"
  shows "untouched pr pr' \<or>
    WEBHOOK_SECRET s \<noteq> [] \<and> users (w_db (ps_world pr')) = users (w_db (ps_world pr)) \<and>
    (header = Some (WEBHOOK_SECRET s) \<or> (\<exists>raw. body = Fields raw \<and> rp_secret raw = Some (WEBHOOK_SECRET s)))"
proof -
  obtain q pr1 where q: "get_binance_client e s pr = (q, pr1)" by (cases "get_binance_client e s pr") auto
  note rest = get_binance_client_rest [OF q]
  show ?thesis
  proof (cases "\<exists>c raw p. q = Inr c \<and> body = Fields raw \<and> validate_payload raw = Inr p \<and>
      authenticate_webhook s header (p_secret p) = Inr ()")
    case True
    then obtain c raw p where p: "q = Inr c" "body = Fields raw" "validate_payload raw = Inr p"
        "authenticate_webhook s header (p_secret p) = Inr ()" by blast
    obtain r1 q1 w1 where r1: "process_signal e (binance_client e c) s rid p (ps_queue pr) (ps_world pr) = (r1, q1, w1)"
      by (cases "process_signal e (binance_client e c) s rid p (ps_queue pr) (ps_world pr)") auto
    have "ps_world pr' = w1"
      using assms(1) q p r1 rest(1,2) by (auto simp: tradingview_webhook_def webhook_handler_def Let_def)
    then show ?thesis using process_signal_users [OF r1 assms(2)] p validate_payload_keeps_secret [OF p(3)]
      by (auto simp: authenticate_webhook_iff split: if_splits)
  next
    case False
    have "untouched pr pr'"
    proof (cases body)
      case (Fields raw)
      then show ?thesis using False assms(1) q rest
        by (cases q; cases "validate_payload raw")
          (auto simp: tradingview_webhook_def webhook_handler_def respond_def untouched_def authenticate_webhook_iff
            split: if_splits)
    qed (use assms(1) q rest in \<open>auto simp: tradingview_webhook_def untouched_def split: sum.splits\<close>)
    then show ?thesis by blast
  qed
qed

text \<open>What a served request may do, by its endpoint.\<close>

fun door :: "platform \<Rightarrow> call \<Rightarrow> endpoint \<Rightarrow> params \<Rightarrow> process \<Rightarrow> process \<Rightarrow> bool" where
  "door p c Auth_register ps a b =
     (trades (w_db (ps_world b)) = trades (w_db (ps_world a)) \<and> requests (ps_world b) = requests (ps_world a) \<and>
      ps_queue b = ps_queue a)"
| "door p c Trades_reconcile ps a b =
     (\<exists>u tid. path_id p ps = Some tid \<and> reconciled_own (u_id u) tid a b \<and>
        get_current_user (pf_jwt p) (pf_settings p) (clock (pf_env p) (tick (ps_world a))) (cl_bearer c)
          (w_db (ps_world a)) = Inr u)"
| "door p c Webhook_tradingview ps a b =
     (secret_shown p c \<and> users (w_db (ps_world b)) = users (w_db (ps_world a)))"
| "door p c _ ps a b = False"

lemma apfst_snd: "apfst f z = (a, b) \<Longrightarrow> b = snd z"
  by (cases z) simp

lemma run_endpoint_door:
  assumes "run_endpoint p rid c x ps pr = (a, pr')" "db_ok (w_db (ps_world pr))"
  shows "untouched pr pr' \<or> door p c x ps pr pr'"
proof (cases x)
  case Auth_register
  then have "pr' = snd (in_world (register (pf_env p) (pf_bcrypt p) (pf_email p) (pf_describe p) rid
      (pf_credentials p (cl_body c))) pr)"
    using assms(1) by (auto simp: run_endpoint_def dest!: apfst_snd)
  then show ?thesis using Auth_register register_effect by (simp add: in_world_def split_beta)
next
  case Auth_login
  then have "pr' = snd (in_world (login (pf_env p) (pf_bcrypt p) (pf_jwt p) (pf_settings p) (pf_email p) (pf_describe p) rid
      (pf_jti p (tick (ps_world pr))) (pf_credentials p (cl_body c))) pr)"
    using assms(1) by (auto simp: run_endpoint_def dest!: apfst_snd)
  then show ?thesis using login_touches_nothing by (simp add: in_world_def split_beta untouched_def)
next
  case Auth_me
  then show ?thesis using assms(1)
    by (auto simp: run_endpoint_def in_world_def read_current_user_def utc_now_def untouched_def split: prod.splits)
next
  case Trades_list
  then have "pr' = snd (list_endpoint p rid c pr)" using assms(1) by (auto simp: run_endpoint_def dest!: apfst_snd)
  then show ?thesis using list_endpoint_reads by blast
next
  case Trades_get
  then have "pr' = snd (trade_endpoint p rid c ps
      (get_trade (pf_env p) (pf_settings p) (pf_jwt p) (pf_describe p) rid (cl_bearer c)) pr)"
    using assms(1) by (auto simp: run_endpoint_def dest!: apfst_snd)
  then show ?thesis using get_endpoint_reads by blast
next
  case Trades_reconcile
  then obtain r where r: "trade_endpoint p rid c ps
      (reconcile (pf_env p) (pf_settings p) (pf_jwt p) (pf_describe p) rid (cl_bearer c)) pr = (r, pr')"
    using assms(1) by (auto simp: run_endpoint_def dest!: apfst_snd intro: surjective_pairing)
  show ?thesis
  proof (cases "path_id p ps")
    case None
    then have "pr' = snd (with_caller (pf_env p) (pf_settings p) (pf_jwt p) (pf_describe p) rid (cl_bearer c) [''trade_id'']
        (get_trade_handler 0) pr)" using r by (simp add: trade_endpoint_def)
    then show ?thesis using with_caller_reads reading_touches_nothing(2) by metis
  next
    case (Some tid)
    then have "reconcile (pf_env p) (pf_settings p) (pf_jwt p) (pf_describe p) rid (cl_bearer c) tid pr = (r, pr')"
      using r by (simp add: trade_endpoint_def)
    from reconcile_effect [OF this assms(2)] show ?thesis using Trades_reconcile Some by auto
  qed
next
  case Webhook_tradingview
  then show ?thesis using assms webhook_effect [OF _ assms(2)]
    by (fastforce simp: run_endpoint_def secret_shown_def apfst_def map_prod_def split: prod.splits)
qed (use assms(1) in \<open>auto simp: run_endpoint_def\<close>)

lemma handle_call_door:
  assumes "matcher_laws (pf_match p)" "one_line (cl_path c)" "db_ok (w_db (ps_world pr))" "handle_call p rid c pr = (a, pr')"
  shows "untouched pr pr' \<or> (\<exists>x ps. serves x (cl_method c) (cl_path c) ps \<and> door p c x ps pr pr')"
proof (cases "dispatch (pf_match p) (cl_method c) (cl_path c) (ap_routes (create_app (pf_settings p)))")
  case (Reached x ps)
  then have "run_endpoint p rid c x ps pr = (a, pr')" using assms(4) by (simp add: handle_call_def)
  then show ?thesis using run_endpoint_door [OF _ assms(3)] Reached dispatch_reached [OF assms(1,2)] by blast
qed (use assms(4) in \<open>auto simp: handle_call_def\<close>)

text \<open>
  C8. The effects of the whole application come through three doors: an account is only added by POST
  /auth/register; an order is sent, a job queued, or a trade added or given another identity only by POST
  /webhook/tradingview with the shared secret; and beyond that a request is sent to the exchange or a
  row changed only by POST /trades/{id}/reconcile, for a trade of the account the token names, whose row
  is the only one that changes. Whatever else is called, by whatever method, with whatever body, on a path of one line,
  changes no table and no queue and sends nothing.
\<close>
theorem effects_come_through_the_doors:
  assumes "matcher_laws (pf_match p)" "one_line (cl_path c)" "db_ok (w_db (ps_world pr))" "handle_call p rid c pr = (a, pr')"
  shows "(users (w_db (ps_world pr')) \<noteq> users (w_db (ps_world pr)) \<longrightarrow>
      cl_method c = ''POST'' \<and> cl_path c = ''/auth/register'') \<and>
    (order_count (ps_world pr') \<noteq> order_count (ps_world pr) \<or> ps_queue pr' \<noteq> ps_queue pr \<or>
       map identity (trades (w_db (ps_world pr'))) \<noteq> map identity (trades (w_db (ps_world pr))) \<longrightarrow>
     cl_method c = ''POST'' \<and> cl_path c = ''/webhook/tradingview'' \<and> secret_shown p c) \<and>
    (requests (ps_world pr') \<noteq> requests (ps_world pr) \<or> trades (w_db (ps_world pr')) \<noteq> trades (w_db (ps_world pr)) \<longrightarrow>
     cl_method c = ''POST'' \<and>
     (cl_path c = ''/webhook/tradingview'' \<and> secret_shown p c \<or>
      (\<exists>v tid u. segment v \<and> cl_path c = ''/trades/'' @ v @ ''/reconcile'' \<and> pf_int p v = Some tid \<and>
         get_current_user (pf_jwt p) (pf_settings p) (clock (pf_env p) (tick (ps_world pr))) (cl_bearer c)
           (w_db (ps_world pr)) = Inr u \<and> reconciled_own (u_id u) tid pr pr')))"
proof -
  consider (quiet) "untouched pr pr'" | (through) x ps where "serves x (cl_method c) (cl_path c) ps" "door p c x ps pr pr'"
    using handle_call_door [OF assms] by blast
  then show ?thesis
  proof cases
    case quiet
    then show ?thesis by (simp add: untouched_def order_count_def)
  next
    case through
    then show ?thesis
    proof (cases x)
      case Auth_register
      then show ?thesis using through by (simp add: order_count_def)
    next
      case Trades_reconcile
      then obtain v where v: "segment v" "cl_method c = ''POST''" "cl_path c = ''/trades/'' @ v @ ''/reconcile''"
          "ps = [(''trade_id'', v)]"
        using through(1) by auto
      then show ?thesis using through(2) Trades_reconcile
        by (auto simp: path_id_def reconciled_own_def only_rows_def)
    qed simp_all
  qed
qed

section \<open>Examples\<close>

definition test_platform :: platform where
  "test_platform =
     \<lparr>pf_env = test_env filled_answer, pf_settings = test_settings, pf_jwt = query_jwt,
      pf_bcrypt = test_bcrypt, pf_email = Some, pf_describe = test_describe, pf_match = plain_match,
      pf_int = int_of_str, pf_webhook = (\<lambda>_. NotJson [''body'']), pf_credentials = (\<lambda>_. Inl [''body'']),
      pf_probe = (\<lambda>_. Inr ()), pf_jti = str_nat\<rparr>"

definition test_call :: "string \<Rightarrow> string \<Rightarrow> call" where
  "test_call meth path =
     \<lparr>cl_method = meth, cl_path = path, cl_query = [], cl_bearer = None, cl_secret = None, cl_body = []\<rparr>"

lemma test_platform_match: "matcher_laws (pf_match test_platform)"
  by (simp add: test_platform_def plain_match_laws)

theorem requests_reach_their_endpoint_witness:
  "\<exists>er. handle_call test_platform ''rid'' (test_call ''PUT'' ''/trades/7'') (process_of test_world) =
      ((405, Failure er), process_of test_world) \<and>
     (\<exists>ms. er_headers er = [(''Allow'', py_join '', '' ms)] \<and> set ms = {''GET''})"
proof -
  let ?c = "test_call ''PUT'' ''/trades/7''"
  obtain a pr' where run: "handle_call test_platform ''rid'' ?c (process_of test_world) = (a, pr')"
    by (cases "handle_call test_platform ''rid'' ?c (process_of test_world)") auto
  have served: "serves x n (cl_path ?c) ps \<longleftrightarrow> x = Trades_get \<and> n = ''GET'' \<and> ps = [(''trade_id'', ''7'')]" for x n ps
    by (cases x) (auto simp: test_call_def segment_def Cons_eq_append_conv)
  from requests_reach_their_endpoint [OF test_platform_match _ run] have
    "pr' = process_of test_world \<and> fst a = 405 \<and> (\<exists>er ms. snd a = Failure er \<and>
       er_headers er = [(''Allow'', py_join '', '' ms)] \<and> (\<forall>n. n \<in> set ms \<longleftrightarrow> n = ''GET''))"
    unfolding served by (simp add: test_call_def one_line_def)
  then show ?thesis using run by (cases a) auto
qed

theorem effects_come_through_the_doors_witness:
  "let pr' = snd (handle_call test_platform ''rid'' (test_call ''POST'' ''/trades/1/reconcile'') (process_of trade_world))
   in users (w_db (ps_world pr')) = [test_owner] \<and> trades (w_db (ps_world pr')) = [test_trade] \<and>
     requests (ps_world pr') = requests trade_world \<and> ps_queue pr' = new_queue 10"
proof -
  let ?c = "test_call ''POST'' ''/trades/1/reconcile''"
  obtain a pr' where run: "handle_call test_platform ''rid'' ?c (process_of trade_world) = (a, pr')"
    by (cases "handle_call test_platform ''rid'' ?c (process_of trade_world)") auto
  have "db_ok (w_db (ps_world (process_of trade_world)))"
    using trade_db_ok by (simp add: process_of_def trade_world_def)
  from effects_come_through_the_doors [OF test_platform_match _ this run] have
    "users (w_db (ps_world pr')) = users (w_db trade_world)" "ps_queue pr' = new_queue 10"
    "trades (w_db (ps_world pr')) = trades (w_db trade_world)" "requests (ps_world pr') = requests trade_world"
    by (auto simp: test_call_def one_line_def get_current_user_def process_of_def)
  then show ?thesis using run by (simp add: trade_world_def trade_db_def)
qed

end
