(* ===== verification/Db_Url.thy ===== *)
theory Db_Url
  imports Config Urllib
begin

text \<open>
  The rewriting of \<open>DATABASE_URL\<close> in \<open>app/core/config.py\<close> and the engine options of
  \<open>app/db/database.py\<close>. Which addresses the \<open>ipaddress\<close> module accepts between the brackets of an IPv6
  host is a parameter. The query string is that of code points below 128, percent escapes included.

  The lemmas show what the rewriting does to a PostgreSQL URL: the async driver, the libpq parameters in
  asyncpg's spelling, everything else untouched, and nothing left to do a second time. The last one
  is a URL it spoils.
\<close>

section \<open>\<open>urlsplit\<close> with IPv6 hosts, and \<open>urlunsplit\<close>\<close>

definition bracketed :: "string \<Rightarrow> string" where
  "bracketed n =
     (case partition_at (CHR ''['') n of
        (_, None) \<Rightarrow> [] | (_, Some r) \<Rightarrow> fst (partition_at (CHR '']'') r))"

definition split_url :: "(string \<Rightarrow> bool) \<Rightarrow> string \<Rightarrow> (string, url_parts) result" where
  "split_url ip_ok u =
     (let (s, r) = split_scheme (url_clean u); (n, r1) = split_netloc r;
          (r2, f) = partition_at (CHR ''#'') r1; (p, q) = partition_at (CHR ''?'') r2
      in if (CHR ''['' \<in> set n) \<noteq> (CHR '']'' \<in> set n) then Inl ''Invalid IPv6 URL''
         else if CHR ''['' \<in> set n \<and> \<not> ip_ok (bracketed n) then Inl ''not an IPv6 address''
         else Inr \<lparr>scheme = s, netloc = n, url_path = p,
                url_query = (case q of None \<Rightarrow> [] | Some x \<Rightarrow> x),
                url_fragment = (case f of None \<Rightarrow> [] | Some x \<Rightarrow> x)\<rparr>)"

text \<open>For a scheme that is not one of urllib's own \<open>uses_netloc\<close>, as SQLAlchemy's are.\<close>

definition urlunsplit :: "url_parts \<Rightarrow> string" where
  "urlunsplit p =
     (let path = url_path p;
          u1 = (if netloc p \<noteq> [] \<or> starts_with ''//'' path
                then ''//'' @ netloc p @ (if path \<noteq> [] \<and> hd path \<noteq> CHR ''/'' then CHR ''/'' # path else path)
                else path);
          u2 = (if scheme p \<noteq> [] then scheme p @ CHR '':'' # u1 else u1);
          u3 = (if url_query p \<noteq> [] then u2 @ CHR ''?'' # url_query p else u2)
      in if url_fragment p \<noteq> [] then u3 @ CHR ''#'' # url_fragment p else u3)"

section \<open>The validator\<close>

definition LIBPQ_SSL_PARAM_RENAMES :: "(string \<times> string) list" where
  "LIBPQ_SSL_PARAM_RENAMES = [(''sslmode'', ''ssl'')]"

definition LIBPQ_PARAMS_ASYNCPG_IGNORES :: "string list" where
  "LIBPQ_PARAMS_ASYNCPG_IGNORES = [''channel_binding'']"

text \<open>One turn of the loop over the parameters: what it appends.\<close>

definition rewrite_param :: "string \<times> string \<Rightarrow> (string \<times> string) list" where
  "rewrite_param kv =
     (let lowered = py_lower (fst kv)
      in if lowered \<in> set LIBPQ_PARAMS_ASYNCPG_IGNORES then []
         else [(case map_of LIBPQ_SSL_PARAM_RENAMES lowered of None \<Rightarrow> fst kv | Some k \<Rightarrow> k, snd kv)])"

definition rewrite_params :: "(string \<times> string) list \<Rightarrow> (string \<times> string) list" where
  "rewrite_params kvs = concat (map rewrite_param kvs)"

definition normalise_postgres_query_params :: "(string \<Rightarrow> bool) \<Rightarrow> string \<Rightarrow> (string, string) result" where
  "normalise_postgres_query_params ip_ok url =
     (if CHR ''?'' \<notin> set url then Inr url
      else case split_url ip_ok url of
             Inl x \<Rightarrow> Inl x
           | Inr p \<Rightarrow> Inr (urlunsplit (p\<lparr>url_query := urlencode (rewrite_params (parse_qsl (url_query p)))\<rparr>)))"

definition async_prefix :: string where
  "async_prefix = ''postgresql+asyncpg://''"

definition force_driver :: "string \<Rightarrow> string" where
  "force_driver v =
     (if starts_with ''postgresql+psycopg2://'' v then async_prefix @ drop (length ''postgresql+psycopg2://'') v
      else if starts_with ''postgresql+psycopg://'' v then async_prefix @ drop (length ''postgresql+psycopg://'') v
      else if starts_with ''postgresql://'' v then async_prefix @ drop (length ''postgresql://'') v
      else if starts_with ''postgres://'' v then async_prefix @ drop (length ''postgres://'') v
      else v)"

definition normalise_database_url :: "(string \<Rightarrow> bool) \<Rightarrow> string \<Rightarrow> (string, string) result" where
  "normalise_database_url ip_ok v0 =
     (let v = py_strip v0
      in if v = [] then Inl ''DATABASE_URL must not be empty''
         else let v1 = force_driver v
              in if starts_with async_prefix v1 then normalise_postgres_query_params ip_ok v1 else Inr v1)"

section \<open>Engine options\<close>

text \<open>
  \<open>make_url(u).get_backend_name()\<close>: the part of the driver name before the plus sign; the URL parser of
  SQLAlchemy is a parameter that yields the driver name.
\<close>

definition backend_name :: "string \<Rightarrow> string" where
  "backend_name drivername = fst (partition_at (CHR ''+'') drivername)"

definition is_postgres :: "(string \<Rightarrow> string) \<Rightarrow> string \<Rightarrow> bool" where
  "is_postgres drivername u = (backend_name (drivername u) = ''postgresql'')"

datatype engine_value = EInt int | EBool bool | EArgs "(string \<times> int) list"

definition CONNECT_TIMEOUT_SECONDS :: int where
  "CONNECT_TIMEOUT_SECONDS = 5"

definition build_engine_kwargs :: "(string \<Rightarrow> string) \<Rightarrow> settings \<Rightarrow> string \<Rightarrow> (string \<times> engine_value) list" where
  "build_engine_kwargs drivername s u =
     (if \<not> is_postgres drivername u then []
      else [(''pool_size'', EInt (DB_POOL_SIZE s)), (''max_overflow'', EInt (DB_MAX_OVERFLOW s)),
            (''pool_timeout'', EInt (DB_POOL_TIMEOUT_SECONDS s)), (''pool_pre_ping'', EBool True),
            (''connect_args'', EArgs [(''timeout'', CONNECT_TIMEOUT_SECONDS)])])"

section \<open>Parameters\<close>

lemma rewrite_param_known:
  "rewrite_param (k, v) =
    (if py_lower k = ''channel_binding'' then [] else if py_lower k = ''sslmode'' then [(''ssl'', v)] else [(k, v)])"
  by (simp add: rewrite_param_def LIBPQ_PARAMS_ASYNCPG_IGNORES_def LIBPQ_SSL_PARAM_RENAMES_def)

lemma rewritten_keys:
  "(k, v) \<in> set (rewrite_params kvs) \<Longrightarrow> py_lower k \<noteq> ''sslmode'' \<and> py_lower k \<noteq> ''channel_binding''"
proof -
  have ssl: "py_lower ''ssl'' = ''ssl''" by code_simp
  show "(k, v) \<in> set (rewrite_params kvs) \<Longrightarrow> ?thesis"
    by (induction kvs) (auto simp: rewrite_params_def rewrite_param_known ssl split: if_splits)
qed

lemma rewrite_params_idem: "rewrite_params (rewrite_params kvs) = rewrite_params kvs"
proof -
  have known: "rewrite_params xs = xs" if "\<forall>kv \<in> set xs. py_lower (fst kv) \<noteq> ''sslmode'' \<and> py_lower (fst kv) \<noteq> ''channel_binding''" for xs
    using that
  proof (induction xs)
    case (Cons a xs)
    then show ?case by (cases a) (simp add: rewrite_params_def rewrite_param_known)
  qed (simp add: rewrite_params_def)
  show ?thesis
  proof (rule known, rule ballI)
    fix kv assume "kv \<in> set (rewrite_params kvs)"
    then have "(fst kv, snd kv) \<in> set (rewrite_params kvs)" by simp
    from rewritten_keys [OF this]
    show "py_lower (fst kv) \<noteq> ''sslmode'' \<and> py_lower (fst kv) \<noteq> ''channel_binding''" .
  qed
qed

lemma ssl_kept: "(k, v) \<in> set kvs \<Longrightarrow> py_lower k = ''sslmode'' \<Longrightarrow> (''ssl'', v) \<in> set (rewrite_params kvs)"
  by (induction kvs) (auto simp: rewrite_params_def rewrite_param_known)

lemma others_kept:
  "filter (\<lambda>kv. py_lower (fst kv) \<notin> {''sslmode'', ''ssl'', ''channel_binding''}) (rewrite_params kvs) =
   filter (\<lambda>kv. py_lower (fst kv) \<notin> {''sslmode'', ''ssl'', ''channel_binding''}) kvs"
proof -
  have ssl: "py_lower ''ssl'' = ''ssl''" by code_simp
  show ?thesis
  proof (induction kvs)
    case (Cons a kvs)
    then show ?case by (cases a) (auto simp: rewrite_params_def rewrite_param_known ssl)
  qed (simp add: rewrite_params_def)
qed

section \<open>PostgreSQL URLs\<close>

definition pg_prefixes :: "string list" where
  "pg_prefixes = [''postgresql+psycopg2://'', ''postgresql+psycopg://'', ''postgresql://'', ''postgres://'', async_prefix]"

text \<open>A location and a path as they stand between the prefix and the query.\<close>

definition plain_url_char :: "char \<Rightarrow> bool" where
  "plain_url_char c = (32 < code_of c \<and> c \<noteq> CHR ''#'')"

definition location_ok :: "string \<Rightarrow> string \<Rightarrow> bool" where
  "location_ok net path =
     (net \<noteq> [] \<and> list_all (\<lambda>c. plain_url_char c \<and> c \<notin> set ''/?[]'') net \<and>
      list_all (\<lambda>c. plain_url_char c \<and> c \<noteq> CHR ''?'') path \<and> (path = [] \<or> hd path = CHR ''/''))"

definition query_part :: "string \<Rightarrow> string" where
  "query_part q = (if q = [] then [] else CHR ''?'' # q)"

lemma starts_with_simps:
  "starts_with [] s" "\<not> starts_with (a # p) []" "starts_with (a # p) (b # s) \<longleftrightarrow> a = b \<and> starts_with p s"
  by (auto simp: starts_with_def)

lemma force_driver_prefix:
  assumes "pre \<in> set pg_prefixes"
  shows "force_driver (pre @ r) = async_prefix @ r"
proof -
  have "force_driver (''postgresql+psycopg2://'' @ r) = async_prefix @ r"
    "force_driver (''postgresql+psycopg://'' @ r) = async_prefix @ r"
    "force_driver (''postgresql://'' @ r) = async_prefix @ r"
    "force_driver (''postgres://'' @ r) = async_prefix @ r"
    "force_driver (''postgresql+asyncpg://'' @ r) = ''postgresql+asyncpg://'' @ r"
    by (simp_all add: force_driver_def starts_with_simps)
  then show ?thesis
    using assms unfolding pg_prefixes_def async_prefix_def list.set insert_iff empty_iff
    by (elim disjE) (simp_all only:)
qed

lemma plain_not_space: "plain_url_char c \<Longrightarrow> \<not> py_space c"
  by (auto simp: plain_url_char_def py_space_def Let_def)

lemma plain_strip: "list_all plain_url_char u \<Longrightarrow> py_strip u = u"
proof (rule py_strip_id)
  assume p: "list_all plain_url_char u"
  have "plain_url_char (hd u) \<and> plain_url_char (last u)" if "u \<noteq> []"
    using p that hd_in_set last_in_set unfolding list_all_iff by blast
  then show "u = [] \<or> \<not> py_space (hd u) \<and> \<not> py_space (last u)" using plain_not_space by blast
qed

lemma plain_code: "plain_url_char c \<Longrightarrow> 32 < code_of c"
  by (simp only: plain_url_char_def)

lemma plain_clean: "list_all plain_url_char u \<Longrightarrow> url_clean u = u"
proof -
  assume p: "list_all plain_url_char u"
  have "\<not> code_of (hd u) \<le> 32" if "u \<noteq> []"
    using p that hd_in_set plain_code unfolding list_all_iff by (metis not_le)
  then have "dropWhile (\<lambda>c. code_of c \<le> 32) u = u" unfolding dropWhile_eq_self_iff by blast
  moreover have "code_of c \<notin> {9, 10, 13}" if "c \<in> set u" for c
  proof -
    have "n \<notin> {9, 10, 13}" if "32 < n" for n :: nat using that by auto
    moreover have "32 < code_of c" using p that plain_code unfolding list_all_iff by blast
    ultimately show ?thesis by blast
  qed
  then have "filter (\<lambda>c. code_of c \<notin> {9, 10, 13}) u = u" by (simp only: filter_id_conv) blast
  ultimately show ?thesis by (simp only: url_clean_def)
qed

lemma prefix_plain: "pre \<in> set pg_prefixes \<Longrightarrow> list_all plain_url_char pre"
  by (auto simp: pg_prefixes_def async_prefix_def plain_url_char_def)

text \<open>How such a URL splits and joins again.\<close>

definition pg_parts :: "string \<Rightarrow> string \<Rightarrow> string \<Rightarrow> url_parts" where
  "pg_parts net path q =
     \<lparr>scheme = ''postgresql+asyncpg'', netloc = net, url_path = path, url_query = q, url_fragment = []\<rparr>"

lemma partition_none: "sep \<notin> set a \<Longrightarrow> partition_at sep a = (a, None)"
proof -
  assume "sep \<notin> set a"
  then have "takeWhile (\<lambda>c. c \<noteq> sep) a = a \<and> dropWhile (\<lambda>c. c \<noteq> sep) a = []"
    by (auto simp: takeWhile_eq_all_conv)
  then show ?thesis by (simp add: partition_at_def)
qed

lemma async_scheme: "split_scheme (async_prefix @ r) = (''postgresql+asyncpg'', ''//'' @ r)"
proof -
  have "partition_at (CHR '':'') (''postgresql+asyncpg'' @ CHR '':'' # ''//'' @ r) =
      (''postgresql+asyncpg'', Some (''//'' @ r))"
    by (rule partition_at_first) simp
  moreover have "async_prefix @ r = ''postgresql+asyncpg'' @ CHR '':'' # ''//'' @ r" by (simp add: async_prefix_def)
  moreover have "list_all scheme_char ''postgresql+asyncpg''" "is_alpha (hd ''postgresql+asyncpg'')"
    "py_lower ''postgresql+asyncpg'' = ''postgresql+asyncpg''" by code_simp+
  ultimately show ?thesis by (simp add: split_scheme_def async_prefix_def)
qed

lemma split_location:
  assumes "location_ok net path"
  shows "split_netloc (''//'' @ net @ path @ query_part q) = (net, path @ query_part q)"
proof -
  have net: "\<forall>c \<in> set net. \<not> net_end c"
    using assms by (auto simp: location_ok_def net_end_def plain_url_char_def list_all_iff)
  have stop: "takeWhile (\<lambda>c. \<not> net_end c) (path @ query_part q) = [] \<and>
      dropWhile (\<lambda>c. \<not> net_end c) (path @ query_part q) = path @ query_part q"
    using assms by (cases path) (auto simp: location_ok_def query_part_def net_end_def)
  show ?thesis using net stop by (simp add: split_netloc_def starts_with_def takeWhile_append dropWhile_append)
qed

lemma split_pg_url:
  assumes "location_ok net path" "list_all plain_url_char q"
  shows "split_url ip_ok (async_prefix @ net @ path @ query_part q) = Inr (pg_parts net path q)"
proof -
  have "list_all plain_url_char (async_prefix @ net @ path @ query_part q)"
    using assms prefix_plain [of async_prefix]
    by (auto simp: location_ok_def query_part_def list_all_iff pg_prefixes_def plain_url_char_def)
  then have clean: "url_clean (async_prefix @ net @ path @ query_part q) = async_prefix @ net @ path @ query_part q"
    by (rule plain_clean)
  have hash: "partition_at (CHR ''#'') (path @ query_part q) = (path @ query_part q, None)"
    using assms by (intro partition_none) (auto simp: location_ok_def query_part_def list_all_iff plain_url_char_def)
  have path: "CHR ''?'' \<notin> set path" using assms(1) by (auto simp: location_ok_def list_all_iff)
  then have "partition_at (CHR ''?'') (path @ query_part q) = (path, if q = [] then None else Some q)"
    by (simp add: query_part_def partition_none partition_at_first)
  moreover have "CHR ''['' \<notin> set net" "CHR '']'' \<notin> set net"
    using assms(1) by (auto simp: location_ok_def list_all_iff)
  ultimately show ?thesis
    using clean hash split_location [OF assms(1)] by (simp add: split_url_def async_scheme pg_parts_def)
qed

lemma unsplit_pg_parts:
  assumes "location_ok net path"
  shows "urlunsplit (pg_parts net path q) = async_prefix @ net @ path @ query_part q"
  using assms by (auto simp: urlunsplit_def pg_parts_def location_ok_def query_part_def async_prefix_def)

lemma plain_by_code: "32 < code_of c \<Longrightarrow> code_of c \<noteq> 35 \<Longrightarrow> plain_url_char c"
proof -
  have "code_of (CHR ''#'') = 35" by simp
  then show "32 < code_of c \<Longrightarrow> code_of c \<noteq> 35 \<Longrightarrow> plain_url_char c" unfolding plain_url_char_def by metis
qed

lemma quote_char_plain:
  assumes "c \<in> set (quote_char d)"
  shows "plain_url_char c"
proof -
  have hex: "plain_url_char (hex_upper n)" if "n < 16" for n
    by (rule plain_by_code) (simp_all only: hex_upper_code [OF that] split: if_split, simp_all)
  have low: "code_of d div 16 < 16" "code_of d mod 16 < 16" by (rule less_mult_imp_div_less, simp, simp)
  have safe: "plain_url_char d" if "url_safe d"
    by (rule plain_by_code)
      (use that in \<open>auto simp: url_safe_def is_lower_def is_upper_def is_digit_def\<close>)
  have signs: "plain_url_char (CHR ''+'')" "plain_url_char (CHR ''%'')" by (simp_all add: plain_url_char_def)
  show ?thesis
  proof (cases "url_safe d")
    case True
    then show ?thesis using assms safe by (simp add: quote_char_def)
  next
    case False
    then have "c = CHR ''+'' \<or> c = CHR ''%'' \<or> c = hex_upper (code_of d div 16) \<or> c = hex_upper (code_of d mod 16)"
      using assms by (simp add: quote_char_def split: if_splits)
    then show ?thesis using signs hex [OF low(1)] hex [OF low(2)] by blast
  qed
qed

lemma set_py_join: "c \<in> set (py_join sep ws) \<Longrightarrow> c \<in> set sep \<or> (\<exists>w \<in> set ws. c \<in> set w)"
  by (induction sep ws rule: py_join.induct) auto

lemma encoded_plain: "list_all plain_url_char (urlencode kvs)"
proof -
  have sep: "plain_url_char (CHR ''&'')" "plain_url_char (CHR ''='')" by (simp_all add: plain_url_char_def)
  have "plain_url_char c" if "c \<in> set (quote_plus s)" for c s
    using that quote_char_plain by (auto simp: quote_plus_def)
  then have "plain_url_char c" if "c \<in> set (encode_pair kv)" for c kv
    using that sep by (auto simp: encode_pair_def)
  then show ?thesis using sep by (auto simp: urlencode_def list_all_iff dest!: set_py_join)
qed

text \<open>
  C30. A PostgreSQL URL with a host is rewritten to the async driver with its location and path untouched;
  its query keeps every parameter in its place except that \<open>sslmode\<close>, in any case, becomes \<open>ssl\<close> with
  the same value and \<open>channel_binding\<close> goes; so no libpq spelling is left, a demand for TLS is never
  lost, and normalising the result once more changes nothing.
\<close>
theorem database_url_rewritten:
  assumes "pre \<in> set pg_prefixes" "location_ok net path" "list_all plain_url_char q"
    "new = rewrite_params (parse_qsl q)"
    "out = async_prefix @ net @ path @ query_part (if q = [] then [] else urlencode new)"
  shows "normalise_database_url ip_ok (pre @ net @ path @ query_part q) = Inr out \<and>
    normalise_database_url ip_ok out = Inr out \<and>
    (q \<noteq> [] \<longrightarrow> parse_qsl (urlencode new) = new) \<and>
    (\<forall>(k, v) \<in> set new. py_lower k \<noteq> ''sslmode'' \<and> py_lower k \<noteq> ''channel_binding'') \<and>
    (\<forall>(k, v) \<in> set (parse_qsl q). py_lower k = ''sslmode'' \<longrightarrow> (''ssl'', v) \<in> set new) \<and>
    filter (\<lambda>kv. py_lower (fst kv) \<notin> {''sslmode'', ''ssl'', ''channel_binding''}) new =
      filter (\<lambda>kv. py_lower (fst kv) \<notin> {''sslmode'', ''ssl'', ''channel_binding''}) (parse_qsl q)"
proof -
  have plain: "list_all plain_url_char (p @ net @ path @ query_part x)"
    if "p \<in> set pg_prefixes" "list_all plain_url_char x" for p x
    using assms(2) that prefix_plain [of p]
    by (auto simp: location_ok_def query_part_def list_all_iff plain_url_char_def)
  have here: "CHR ''?'' \<notin> set (async_prefix @ net @ path)"
    using assms(2) by (auto simp: location_ok_def list_all_iff async_prefix_def)
  have run: "normalise_database_url ip_ok (p @ net @ path @ query_part x) =
      Inr (async_prefix @ net @ path @ query_part (if x = [] then [] else urlencode (rewrite_params (parse_qsl x))))"
    if p: "p \<in> set pg_prefixes" and x: "list_all plain_url_char x" for p x
  proof -
    have "p \<noteq> []" using p by (auto simp: pg_prefixes_def async_prefix_def)
    then have v: "normalise_database_url ip_ok (p @ net @ path @ query_part x) =
        normalise_postgres_query_params ip_ok (async_prefix @ net @ path @ query_part x)"
      using plain_strip [OF plain [OF p x]] force_driver_prefix [OF p]
      by (simp add: normalise_database_url_def starts_with_append)
    show ?thesis
    proof (cases "x = []")
      case True
      then show ?thesis using here unfolding v by (simp add: normalise_postgres_query_params_def query_part_def)
    next
      case False
      have "pg_parts net path x\<lparr>url_query := y\<rparr> = pg_parts net path y" for y by (simp add: pg_parts_def)
      moreover have "url_query (pg_parts net path x) = x" by (simp add: pg_parts_def)
      ultimately show ?thesis unfolding v normalise_postgres_query_params_def
        using False split_pg_url [OF assms(2) x] unsplit_pg_parts [OF assms(2)]
        by (simp add: query_part_def)
    qed
  qed
  let ?x = "if q = [] then [] else urlencode new"
  have "rewrite_params new = new" using rewrite_params_idem assms(4) by simp
  then have again: "(if ?x = [] then [] else urlencode (rewrite_params (parse_qsl ?x))) = ?x"
    by (simp add: parse_urlencode)
  have one: "normalise_database_url ip_ok (pre @ net @ path @ query_part q) = Inr out"
    using run [OF assms(1,3)] assms(4,5) by simp
  have x: "list_all plain_url_char ?x" using encoded_plain by simp
  have "async_prefix \<in> set pg_prefixes" by (simp add: pg_prefixes_def)
  then have two: "normalise_database_url ip_ok out = Inr out"
    using run [OF _ x] again assms(5) by simp
  show ?thesis
    using one two parse_urlencode rewritten_keys ssl_kept others_kept unfolding assms(4) by blast
qed

theorem database_url_rewritten_witness:
  "normalise_database_url (\<lambda>_. False) ''postgres://u:p@host:5432/db?SSLMode=require&channel_binding=require&a=b+c'' =
     Inr ''postgresql+asyncpg://u:p@host:5432/db?ssl=require&a=b+c''"
proof -
  have pre: "''postgres://'' \<in> set pg_prefixes" by (simp add: pg_prefixes_def)
  have loc: "location_ok ''u:p@host:5432'' ''/db''" by code_simp
  have q: "list_all plain_url_char ''SSLMode=require&channel_binding=require&a=b+c''" by code_simp
  have new: "[(''ssl'', ''require''), (''a'', ''b c'')] =
      rewrite_params (parse_qsl ''SSLMode=require&channel_binding=require&a=b+c'')" by code_simp
  have "urlencode [(''ssl'', ''require''), (''a'', ''b c'')] = ''ssl=require&a=b+c''" by code_simp
  then show ?thesis
    using database_url_rewritten [OF pre loc q new refl, of "\<lambda>_. False"] by (simp add: query_part_def async_prefix_def)
qed

text \<open>
  A URL for a Unix socket has no host. \<open>urlunsplit\<close> drops the two slashes of an empty location for a
  scheme it does not know, and the result no longer is a database URL.
\<close>

lemma socket_url_is_spoiled:
  "normalise_database_url (\<lambda>_. False) ''postgresql:///db?host=/tmp'' = Inr ''postgresql+asyncpg:/db?host=%2Ftmp''"
  by code_simp

text \<open>The engine gets pool options for a PostgreSQL URL, whatever its driver, and none otherwise.\<close>

lemma engine_options:
  "backend_name ''postgresql+asyncpg'' = ''postgresql''" "backend_name ''sqlite+aiosqlite'' = ''sqlite''"
  by code_simp+

end
