(* ===== verification/Sessions.thy ===== *)
theory Sessions
  imports Trading Db_Url
begin

text \<open>
  \<open>app/db/database.py\<close>: the engine, the session factory and the request-scoped session of \<open>get_db\<close>.
  SQLAlchemy's session is a parameter, known by the interface \<open>unit_of_work\<close>; the session of this theory
  over a world provides it, and shows that a statement and its commit in a request, with the rollback of
  whoever handles the error, is the \<open>db_commit\<close> the services are modelled with.
\<close>

section \<open>Engine and factory\<close>

record engine =
  en_url :: string
  en_echo :: bool
  en_options :: "(string \<times> engine_value) list"

definition create_engine :: "(string \<Rightarrow> string) \<Rightarrow> settings \<Rightarrow> engine" where
  "create_engine drivername s =
     \<lparr>en_url = DATABASE_URL s, en_echo = DB_ECHO s,
      en_options = build_engine_kwargs drivername s (DATABASE_URL s)\<rparr>"

record session_factory =
  sf_bind :: engine
  sf_autoflush :: bool
  sf_expire_on_commit :: bool

definition AsyncSessionLocal :: "engine \<Rightarrow> session_factory" where
  "AsyncSessionLocal en = \<lparr>sf_bind = en, sf_autoflush = False, sf_expire_on_commit = False\<rparr>"

section \<open>The session of a request\<close>

text \<open>
  How a request's code ends: it returns, raises an \<open>Exception\<close>, or is cancelled - by a
  \<open>BaseException\<close>, which \<open>except Exception\<close> does not see.
\<close>

datatype 'a ended = Returned 'a | Raised exn | Cancelled

record 's session_lib =
  sl_open :: "'s \<Rightarrow> 's"
  sl_rollback :: "'s \<Rightarrow> exn option \<times> 's"
  sl_close :: "'s \<Rightarrow> 's"

text \<open>A rollback that raises replaces the error it was called for; \<open>async with\<close> closes in every case.\<close>

definition get_db :: "'s session_lib \<Rightarrow> ('s \<Rightarrow> 'a ended \<times> 's) \<Rightarrow> 's \<Rightarrow> 'a ended \<times> 's" where
  "get_db L body s =
     (case body (sl_open L s) of
        (Raised x, s1) \<Rightarrow>
          (case sl_rollback L s1 of
             (None, s2) \<Rightarrow> (Raised x, sl_close L s2)
           | (Some y, s2) \<Rightarrow> (Raised y, sl_close L s2))
      | (r, s1) \<Rightarrow> (r, sl_close L s1))"

text \<open>
  What the code relies on: other connections see what has been committed; opening, rolling back and
  closing commit nothing, and a closed session has no transaction and holds no connection.
\<close>

locale unit_of_work =
  fixes L :: "'s session_lib"
    and stored :: "'s \<Rightarrow> 'd"
    and pending :: "'s \<Rightarrow> bool"
    and holds_connection :: "'s \<Rightarrow> bool"
  assumes open_stored: "stored (sl_open L s) = stored s"
    and rollback_stored: "sl_rollback L s = (x, s') \<Longrightarrow> stored s' = stored s"
    and close_stored: "stored (sl_close L s) = stored s"
    and closed: "\<not> pending (sl_close L s)" "\<not> holds_connection (sl_close L s)"
begin

lemma request_ends_clean:
  assumes "get_db L body s = (r, s')"
  shows "\<not> pending s' \<and> \<not> holds_connection s' \<and> stored s' = stored (snd (body (sl_open L s)))"
proof -
  obtain x s1 where b: "body (sl_open L s) = (x, s1)" by (cases "body (sl_open L s)") auto
  obtain y s2 where y: "sl_rollback L s1 = (y, s2)" by (cases "sl_rollback L s1") auto
  have "\<exists>s3. s' = sl_close L s3 \<and> stored s3 = stored s1"
    using assms b y rollback_stored [OF y]
    by (cases x; cases y) (auto simp: get_db_def)
  then show ?thesis using closed close_stored b by auto
qed

lemma request_outcome:
  assumes "get_db L body s = (r, s')" "body (sl_open L s) = (x, s1)"
  shows "r = x \<or> (\<exists>y z. x = Raised y \<and> r = Raised z \<and> fst (sl_rollback L s1) = Some z)"
  using assms by (cases x; cases "sl_rollback L s1"; cases "fst (sl_rollback L s1)") (auto simp: get_db_def)

text \<open>A request that committed nothing has changed nothing.\<close>

lemma uncommitted_is_lost:
  assumes "get_db L body s = (r, s')" "\<And>s. stored (snd (body s)) = stored s"
  shows "stored s' = stored s"
  using request_ends_clean [OF assms(1)] assms(2) open_stored by simp

end

section \<open>A session over a world\<close>

text \<open>
  The tables as the open transaction sees them, if there is one, and whether a connection is checked
  out. Statements begin a transaction by themselves; a rollback discards its work but for the sequences.
\<close>

record session =
  ss_world :: world
  ss_work :: "db option"
  ss_connected :: bool

definition working :: "session \<Rightarrow> db" where
  "working s = (case ss_work s of None \<Rightarrow> w_db (ss_world s) | Some d \<Rightarrow> d)"

definition session_open :: "session \<Rightarrow> session" where
  "session_open s = s\<lparr>ss_work := None, ss_connected := False\<rparr>"

definition session_execute :: "(db \<Rightarrow> (sql_error, 'a) result \<times> db) \<Rightarrow> session \<Rightarrow> (sql_error, 'a) result \<times> session" where
  "session_execute stmt s =
     (case stmt (working s) of (r, d) \<Rightarrow> (r, s\<lparr>ss_work := Some d, ss_connected := True\<rparr>))"

definition session_rollback :: "session \<Rightarrow> session" where
  "session_rollback s =
     s\<lparr>ss_world := (ss_world s)\<lparr>w_db := rolled_back (w_db (ss_world s)) (working s)\<rparr>,
       ss_work := None, ss_connected := False\<rparr>"

definition session_commit :: "env \<Rightarrow> session \<Rightarrow> (sql_error, unit) result \<times> session" where
  "session_commit e s =
     (let w = ss_world s; idle = s\<lparr>ss_work := None, ss_connected := False\<rparr>
      in if commit_ok e (tick w) then (Inr (), idle\<lparr>ss_world := advance (w\<lparr>w_db := working s\<rparr>)\<rparr>)
         else (Inl OperationalError,
           (if commit_landed e (tick w) then idle else s)\<lparr>ss_world :=
              advance (w\<lparr>w_db := if commit_landed e (tick w) then working s else w_db w\<rparr>)\<rparr>))"

text \<open>Closing rolls back what was not committed.\<close>

definition world_sessions :: "session session_lib" where
  "world_sessions =
     \<lparr>sl_open = session_open, sl_rollback = (\<lambda>s. (None, session_rollback s)), sl_close = session_rollback\<rparr>"

text \<open>What others see of the tables; the sequences are not part of them.\<close>

definition seen :: "session \<Rightarrow> user list \<times> trade list" where
  "seen s = (users (w_db (ss_world s)), trades (w_db (ss_world s)))"

interpretation requests: unit_of_work world_sessions seen "\<lambda>s. ss_work s \<noteq> None" ss_connected
  by unfold_locales (auto simp: world_sessions_def session_open_def session_rollback_def seen_def)

section \<open>A statement and its commit\<close>

text \<open>What every service does with its session: one statement, then a commit; an error escapes to \<open>get_db\<close>.\<close>

definition commit_one ::
  "env \<Rightarrow> (db \<Rightarrow> (sql_error, 'a) result \<times> db) \<Rightarrow> session \<Rightarrow> 'a ended \<times> session" where
  "commit_one e stmt s =
     (case session_execute stmt s of
        (Inl x, s1) \<Rightarrow> (Raised (SqlExn x), s1)
      | (Inr v, s1) \<Rightarrow>
          (case session_commit e s1 of
             (Inl x, s2) \<Rightarrow> (Raised (SqlExn x), s2)
           | (Inr _, s2) \<Rightarrow> (Returned v, s2)))"

text \<open>A statement that fails changes nothing but the sequences.\<close>

definition atomic :: "(db \<Rightarrow> (sql_error, 'a) result \<times> db) \<Rightarrow> bool" where
  "atomic stmt \<longleftrightarrow> (\<forall>d x d'. stmt d = (Inl x, d') \<longrightarrow> d' = rolled_back d d')"

lemma statements_atomic:
  "atomic (insert_trade t)" "atomic (insert_user u)" "atomic (claim_stmt tid now)" "atomic (flush_trade now old new)"
  unfolding atomic_def
  by (auto simp: insert_trade_def insert_user_def claim_stmt_def rolled_back_def Let_def
      split: option.splits if_splits prod.splits elim!: flush_trade_cases)

definition ended_as :: "(sql_error, 'a) result \<Rightarrow> 'a ended" where
  "ended_as r = (case r of Inl x \<Rightarrow> Raised (SqlExn x) | Inr v \<Rightarrow> Returned v)"

text \<open>
  The service layer's transactions are sessions: one statement and its commit in a request's session,
  cleaned up by \<open>get_db\<close>, ends with the result and the tables that \<open>db_commit\<close> gives, whether the
  statement is refused, the COMMIT goes through, is rolled back, or takes effect unheard; and no
  transaction stays open and no connection checked out.
\<close>
lemma transaction_is_db_commit:
  assumes "atomic stmt" "db_commit e stmt w = (r, w')"
  shows "\<exists>s'. get_db world_sessions (commit_one e stmt) \<lparr>ss_world = w, ss_work = None, ss_connected = False\<rparr> =
      (ended_as r, s') \<and> w_db (ss_world s') = w_db w' \<and> requests (ss_world s') = requests w' \<and>
    ss_work s' = None \<and> \<not> ss_connected s'"
proof -
  have idle: "rolled_back d d = d" for d by (simp add: rolled_back_def)
  obtain x d where x: "stmt (w_db w) = (x, d)" by (cases "stmt (w_db w)") auto
  have "rolled_back (w_db w) d = d" if "x = Inl y" for y
    using assms(1) x that unfolding atomic_def by metis
  then show ?thesis
    using assms(2) x
    by (cases x)
       (auto simp: get_db_def commit_one_def world_sessions_def session_open_def session_execute_def session_commit_def
          session_rollback_def working_def db_commit_def ended_as_def idle advance_def Let_def rolled_back_def
          split: if_splits)
qed

text \<open>A claim whose COMMIT fails: the trade is as it was, the session is closed.\<close>

lemma transaction_is_db_commit_witness:
  "\<exists>s'. get_db world_sessions (commit_one ((test_env TimedOut)\<lparr>commit_ok := \<lambda>_. False\<rparr>) (claim_stmt 1 5))
      \<lparr>ss_world = trade_world, ss_work = None, ss_connected = False\<rparr> = (Raised (SqlExn OperationalError), s') \<and>
    trades (w_db (ss_world s')) = [test_trade] \<and> ss_work s' = None \<and> \<not> ss_connected s'"
proof -
  let ?e = "(test_env TimedOut)\<lparr>commit_ok := \<lambda>_. False\<rparr>"
  obtain w' where w: "db_commit ?e (claim_stmt 1 5) trade_world = (Inl OperationalError, w')" "trades (w_db w') = [test_trade]"
    by (simp add: db_commit_def claim_stmt_def update_claim_def test_env_def trade_world_def trade_db_def)
  from transaction_is_db_commit [OF statements_atomic(3) w(1)] w(2) show ?thesis
    by (auto simp: ended_as_def)
qed

lemma request_leaves_nothing_open:
  "get_db world_sessions body s = (r, s') \<Longrightarrow>
    ss_work s' = None \<and> \<not> ss_connected s' \<and> seen s' = seen (snd (body (session_open s)))"
  using requests.request_ends_clean [of body s r s'] by (simp add: world_sessions_def)

end
