(* ===== verification/Columns.thy ===== *)
theory Columns
  imports Interleaving
begin

text \<open>
  The types of the columns as an invariant: what every row of the tables satisfies in every state the
  running system can reach, because each statement stores its values in the columns' types. A stored
  trade can therefore be printed, unless the exchange reported a NaN.
\<close>

definition user_fits :: "user \<Rightarrow> bool" where
  "user_fits u = (varchar_ok 320 (Some (email u)) \<and> varchar_ok 128 (Some (password_hash u)))"

definition columns_hold :: "db \<Rightarrow> bool" where
  "columns_hold d = (list_all (\<lambda>t. store_row t = Some t) (trades d) \<and> list_all user_fits (users d))"

lemma store_row_submitted: "store_row t = Some t \<Longrightarrow> store_row (mark_submitted now t) = Some (mark_submitted now t)"
  by (simp add: store_row_fixed mark_submitted_def)

lemma db_step_columns: "db_step d d' \<Longrightarrow> columns_hold d \<Longrightarrow> columns_hold d'"
proof (induction rule: db_step.induct)
  case (insert_trade t d r d')
  then show ?case
    by (auto simp: insert_trade_def columns_hold_def Let_def dest: store_row_idem split: option.splits if_splits)
next
  case (insert_user u d r d')
  then show ?case
    by (auto simp: insert_user_def columns_hold_def user_fits_def Let_def split: if_splits)
next
  case (claim tid now d n d')
  have "users d' = users d" using update_claim_only [OF claim.hyps] by (simp add: only_rows_def)
  then show ?case using claim.prems update_claim_law [OF claim.hyps]
    by (auto simp: columns_hold_def list_all_iff store_row_submitted)
next
  case (flush now old new d r d')
  then show ?case
    by (auto simp: flush_trade_def columns_hold_def replace_row_def list_all_iff dest: store_row_idem
        split: if_splits option.splits)
qed (simp add: columns_hold_def)

lemma db_steps_columns: "db_step\<^sup>*\<^sup>* d d' \<Longrightarrow> columns_hold d \<Longrightarrow> columns_hold d'"
  by (induction rule: rtranclp_induct) (use db_step_columns in blast)+

section \<open>Every step of the system is a sequence of statements\<close>

lemma db_commit_steps:
  assumes "db_commit e stmt w = (r, w')" "\<And>x d'. stmt (w_db w) = (x, d') \<Longrightarrow> db_step (w_db w) d'"
  shows "db_step\<^sup>*\<^sup>* (w_db w) (w_db w')"
  using assms(1)
proof (cases rule: db_commit_cases)
  case (lost v d')
  then show ?thesis using db_step_seq [OF assms(2)] by (auto intro: db_step.rollback)
qed (use assms(2) in \<open>auto intro: r_into_rtranclp\<close>)

lemma create_pending_trade_steps:
  assumes "create_pending_trade e p owner w = (r, w')"
  shows "db_step\<^sup>*\<^sup>* (w_db w) (w_db w')"
proof -
  let ?t = "new_trade p owner (clock e (tick w)) (clock e (tick (advance w)))"
  obtain q w3 where q: "db_commit e (insert_trade ?t) (advance (advance w)) = (q, w3)"
    by (cases "db_commit e (insert_trade ?t) (advance (advance w))") auto
  then have "w' = w3"
    using assms by (auto simp: create_pending_trade_def utc_now_def split: sum.splits sql_error.splits)
  then show ?thesis using db_commit_steps [OF q] by (auto intro: db_step.insert_trade)
qed

lemma accept_signal_steps:
  assumes "accept_signal e s p w = (r, w')"
  shows "db_step\<^sup>*\<^sup>* (w_db w) (w_db w')"
  using assms create_pending_trade_steps resolve_trade_owner_id_store unfolding accept_signal_def
  by (fastforce split: sum.splits prod.splits)

lemma claim_steps:
  assumes "claim_for_submission e tid w = (r, w')"
  shows "db_step\<^sup>*\<^sup>* (w_db w) (w_db w')"
  using assms by (cases rule: claim_for_submission_cases) (auto intro: db_step.claim r_into_rtranclp)

lemma commit_object_steps:
  assumes "commit_object e old new w = (r, w')"
  shows "db_step\<^sup>*\<^sup>* (w_db w) (w_db w')"
  using assms unfolding commit_object_def utc_now_def Let_def
  by (auto dest!: db_commit_steps split: prod.splits intro: db_step.flush)

lemma commit_or_raise_steps:
  assumes "commit_or_raise e old new w = (r, w')"
  shows "db_step\<^sup>*\<^sup>* (w_db w) (w_db w')"
  using assms commit_object_steps unfolding commit_or_raise_def by (fastforce split: prod.splits sum.splits)

lemma commit_or_report_steps:
  assumes "commit_or_report e old new w = (r, w')"
  shows "db_step\<^sup>*\<^sup>* (w_db w) (w_db w')"
  using assms by (rule commit_or_report_raise) (rule commit_or_raise_steps)

context exchange_api
begin

lemma record_outcome_steps:
  assumes "record_outcome e api t x w = (r, w')" "\<not> is_uncertain x"
  shows "db_step\<^sup>*\<^sup>* (w_db w) (w_db w')"
proof (cases x)
  case (Inr res)
  then show ?thesis using assms(1) commit_or_report_steps by (auto simp: record_outcome_def finalise_success_def)
next
  case (Inl y)
  show ?thesis
  proof (cases y)
    case (BinanceExn z)
    then show ?thesis using assms Inl commit_or_report_steps
      by (cases z) (auto simp: record_outcome_def finalise_failure_def)
  qed (use assms(1) Inl in \<open>simp_all add: record_outcome_def\<close>)
qed

lemma run_task_steps:
  assumes "run_task e api k w = (new, w')"
  shows "db_step\<^sup>*\<^sup>* (w_db w) (w_db w')"
proof (cases k)
  case (Claim tid)
  then show ?thesis using assms claim_steps by (auto split: prod.splits sum.splits option.splits)
next
  case (Place t)
  then show ?thesis using assms place_store by (auto simp: Let_def split: prod.splits)
next
  case (Record t x)
  show ?thesis
  proof (cases "is_uncertain x")
    case True
    then show ?thesis using assms Record commit_or_raise_steps by (auto split: prod.splits sum.splits)
  next
    case False
    then have "w' = snd (record_outcome e api t x w)" using assms Record by simp
    then show ?thesis using record_outcome_steps [OF _ False] by (metis prod.collapse)
  qed
next
  case (Ask t)
  then show ?thesis using assms query_store by (fastforce split: if_splits prod.splits sum.splits)
next
  case (Note t a)
  then have "w' = snd (commit_object e t (reconciled_object a (clock e (tick w)) t) (advance w))"
    using assms by (simp add: utc_now_def)
  then show ?thesis using commit_object_steps [of e t _ "advance w"] by (metis advance_simps(1) prod.collapse)
qed

lemma sys_step_statements:
  assumes "sys_step e api s S S'"
  shows "db_step\<^sup>*\<^sup>* (w_db (world S)) (w_db (world S'))"
  using assms
proof (cases rule: sys_step.cases)
  case (receive rid p)
  then show ?thesis using accept_signal_steps
    by (fastforce simp: receive_def split: prod.splits sum.splits if_splits)
next
  case (phase xs k ys new w)
  then show ?thesis using run_task_steps by simp
next
  case (register u r w)
  from register(2) have "db_step\<^sup>*\<^sup>* (w_db (world S)) (w_db w)"
    by (rule db_commit_steps) (rule db_step.insert_user)
  then show ?thesis using register(1) by simp
qed simp_all

lemma sys_steps_statements:
  "(sys_step e api s)\<^sup>*\<^sup>* S S' \<Longrightarrow> db_step\<^sup>*\<^sup>* (w_db (world S)) (w_db (world S'))"
  by (induction rule: rtranclp_induct) (use sys_step_statements in \<open>auto intro: rtranclp_trans\<close>)

end

section \<open>What can be printed\<close>

definition no_nan :: "decimal option \<Rightarrow> bool" where
  "no_nan x = (x \<noteq> Some NaN)"

lemma numeric_finite: "numeric_28_12 d = Some d \<Longrightarrow> d \<noteq> NaN \<Longrightarrow> fits28 d"
  by (cases d) (auto simp: numeric_28_12.simps(2) dest: numeric_28_12_fits)

lemma serialise_stored:
  assumes "numeric_opt x = Some x" "no_nan x"
  shows "\<exists>r. serialise_decimal x = Inr r"
proof (cases x)
  case (Some d)
  then have "numeric_28_12 d = Some d" "d \<noteq> NaN" using assms by (auto simp: numeric_opt_def no_nan_def)
  then have "fits28 d" by (rule numeric_finite)
  then obtain s where "format_decimal d = Inr s" using format_decimal_normal fits28_Fin by metis
  then show ?thesis using Some by (simp add: serialise_decimal_def)
qed (simp add: serialise_decimal_def)

lemma stored_trade_prints:
  assumes "store_row t = Some t" "quantity t \<noteq> NaN" "no_nan (executed_quantity t)"
    "no_nan (cumulative_quote_quantity t)"
  shows "\<exists>r. trade_read_of t = Inr r"
proof -
  have f: "numeric_28_12 (quantity t) = Some (quantity t)" "numeric_opt (executed_quantity t) = Some (executed_quantity t)"
    "numeric_opt (cumulative_quote_quantity t) = Some (cumulative_quote_quantity t)"
    using assms(1) by (simp_all add: store_row_fixed)
  obtain q where "format_decimal (quantity t) = Inr q"
    using numeric_finite [OF f(1) assms(2)] format_decimal_normal fits28_Fin by metis
  then show ?thesis using serialise_stored [OF f(2) assms(3)] serialise_stored [OF f(3) assms(4)]
    by (auto simp: trade_read_of_def)
qed

text \<open>
  Columns keep their types: in every state the running system reaches from one whose rows fit, under
  any interleaving, crash and answer of the exchange, identifiers fit their VARCHARs (64, 36, 20), order
  ids fit a BIGINT, and each decimal is a NaN or an integral number of 10^-12 below 10^16 in magnitude;
  and every row without a NaN can be printed in a response.
\<close>
theorem reachable_rows_fit_their_columns:
  assumes "columns_hold (w_db (world S))" "(sys_step e (binance_client e' c) s)\<^sup>*\<^sup>* S S'"
    "t \<in> set (trades (w_db (world S')))"
  shows "length (signal_id t) \<le> 64 \<and> length (client_order_id t) \<le> 36 \<and> length (symbol t) \<le> 20 \<and>
    bigint_ok (binance_order_id t) \<and> varchar_ok 32 (binance_status t) \<and> varchar_ok 64 (error_code t) \<and>
    (\<forall>d \<in> {quantity t} \<union> set_option (executed_quantity t) \<union> set_option (cumulative_quote_quantity t).
       d = NaN \<or> (\<exists>neg n. d = Fin neg n (- 12) \<and> n < 10 ^ 28)) \<and>
    (quantity t \<noteq> NaN \<and> no_nan (executed_quantity t) \<and> no_nan (cumulative_quote_quantity t) \<longrightarrow>
       (\<exists>r. trade_read_of t = Inr r))"
proof -
  have "columns_hold (w_db (world S'))"
    using db_steps_columns [OF testnet.sys_steps_statements [OF assms(2)] assms(1)] .
  then have fits: "store_row t = Some t" using assms(3) by (simp add: columns_hold_def list_all_iff)
  have stored: "d = NaN \<or> (\<exists>neg n. d = Fin neg n (- 12) \<and> n < 10 ^ 28)" if "numeric_28_12 d = Some d" for d
    using that by (cases d) (auto simp: numeric_28_12.simps Let_def split: if_splits)
  have "numeric_28_12 d = Some d"
    if "d \<in> {quantity t} \<union> set_option (executed_quantity t) \<union> set_option (cumulative_quote_quantity t)" for d
    using that fits by (auto simp: store_row_fixed numeric_opt_def split: option.splits)
  then show ?thesis using fits stored stored_trade_prints [OF fits] by (auto simp: store_row_fixed varchar_ok_def)
qed

theorem reachable_rows_fit_their_columns_witness:
  "\<exists>S'. (sys_step (test_env filled_answer) (binance_client (test_env filled_answer) test_client) test_settings)\<^sup>*\<^sup>*
      \<lparr>world = trade_world, jobs = new_queue 10, tasks = []\<rparr> S' \<and> tasks S' = [Ask test_trade] \<and>
     (\<exists>r. trade_read_of test_trade = Inr r)"
proof -
  let ?S = "\<lparr>world = trade_world, jobs = new_queue 10, tasks = []\<rparr>"
  let ?S' = "?S\<lparr>tasks := tasks ?S @ [Ask test_trade]\<rparr>"
  have here: "test_trade \<in> set (trades (w_db (world ?S)))" by (simp add: trade_world_def trade_db_def)
  have "sys_step (test_env filled_answer) (binance_client (test_env filled_answer) test_client) test_settings ?S ?S'"
    by (rule sys_step.load [OF here])
  then have run: "(sys_step (test_env filled_answer) (binance_client (test_env filled_answer) test_client)
      test_settings)\<^sup>*\<^sup>* ?S ?S'" by (rule r_into_rtranclp)
  have fits: "columns_hold (w_db (world ?S))"
    by (simp add: columns_hold_def trade_world_def trade_db_def user_fits_def test_owner_def store_row_fixed
        test_trade_def numeric_28_12.simps numeric_opt_def bigint_ok_def varchar_ok_def)
  have there: "test_trade \<in> set (trades (w_db (world ?S')))" using here by simp
  have "\<exists>r. trade_read_of test_trade = Inr r"
    using reachable_rows_fit_their_columns [OF fits run there] by (simp add: test_trade_def no_nan_def)
  then show ?thesis using run by auto
qed

end
