(* ===== verification/Request_Context.thy ===== *)
theory Request_Context
  imports Routes_Contract
begin

text \<open>
  \<open>app/core/middleware.py\<close> and \<open>app/core/logging_config.py\<close>: the id of a request, the response messages
  the middleware passes on, and the logger tree \<open>configure_logging\<close> leaves behind. An application is
  what it sends for a request id, and what escapes it. Starlette runs the handler of \<open>Exception\<close> outside
  all middleware and every other handler inside; \<open>serve\<close> puts the layers together in that order.
\<close>

section \<open>The middleware\<close>

datatype message = Start int "(string \<times> string) list" | Body

datatype log_level = DEBUG | INFO | WARNING | ERROR | CRITICAL

type_synonym app_run = "message list \<times> exn option"

definition REQUEST_ID_HEADER :: string where
  "REQUEST_ID_HEADER = ''X-Request-ID''"

text \<open>Header names of a scope are lower case; the first match counts.\<close>

definition inbound_id :: "(string \<times> string) list \<Rightarrow> string option" where
  "inbound_id headers = map_option snd (find (\<lambda>h. fst h = py_lower REQUEST_ID_HEADER) headers)"

definition request_id_of :: "(string \<times> string) list \<Rightarrow> string \<Rightarrow> string" where
  "request_id_of headers fresh =
     take 64 (case inbound_id headers of None \<Rightarrow> fresh | Some v \<Rightarrow> if v = [] then fresh else v)"

fun send_wrapper :: "string \<Rightarrow> message \<Rightarrow> message" where
  "send_wrapper rid (Start code hs) = Start code (hs @ [(REQUEST_ID_HEADER, rid)])"
| "send_wrapper rid Body = Body"

text \<open>The status the access log names: that of the last start of a response, 500 before any.\<close>

definition logged_status :: "message list \<Rightarrow> int" where
  "logged_status ms = foldl (\<lambda>code m. case m of Start c _ \<Rightarrow> c | Body \<Rightarrow> code) 500 ms"

definition request_middleware ::
  "bool \<Rightarrow> (string \<times> string) list \<Rightarrow> string \<Rightarrow> string \<Rightarrow> (string \<Rightarrow> app_run) \<Rightarrow> app_run \<times> (log_level \<times> string) list" where
  "request_middleware http headers fresh line app =
     (if \<not> http then (app ''-'', [])
      else
        (let rid = request_id_of headers fresh; (sent, raised) = app rid;
             out = map (send_wrapper rid) sent
         in case raised of
              Some x \<Rightarrow> ((out, Some x), [(INFO, ''--> '' @ line), (ERROR, ''<-- '' @ line @ '' failed'')])
            | None \<Rightarrow> ((out, None),
                [(INFO, ''--> '' @ line), (INFO, ''<-- '' @ line @ '' '' @ str_int (logged_status sent))])))"

section \<open>The layers around a route\<close>

text \<open>What a route's outcome becomes inside the middleware: a response, or an exception that goes on.\<close>

definition send_response :: "int \<Rightarrow> (string \<times> string) list \<Rightarrow> message list" where
  "send_response code hs = [Start code hs, Body]"

fun handled_inside :: "exn \<Rightarrow> bool" where
  "handled_inside (AppExn _) = True"
| "handled_inside (SqlExn _) = True"
| "handled_inside _ = False"

definition inner_app :: "(string \<Rightarrow> (exn, int) result) \<Rightarrow> string \<Rightarrow> app_run" where
  "inner_app route rid =
     (case route rid of
        Inr code \<Rightarrow> (send_response code [], None)
      | Inl x \<Rightarrow>
          if handled_inside x
          then (send_response (er_status (handle_exception rid x)) (er_headers (handle_exception rid x)), None)
          else ([], Some x))"

definition serve :: "(string \<times> string) list \<Rightarrow> string \<Rightarrow> string \<Rightarrow> (string \<Rightarrow> (exn, int) result) \<Rightarrow> message list" where
  "serve headers fresh line route =
     (case fst (request_middleware True headers fresh line (inner_app route)) of
        (sent, None) \<Rightarrow> sent
      | (sent, Some x) \<Rightarrow>
          sent @ send_response (er_status (handle_exception (request_id_of headers fresh) x))
            (er_headers (handle_exception (request_id_of headers fresh) x)))"

section \<open>Logging\<close>

text \<open>A logger: its own level if it has one, how many handlers it has, and whether records go on to its parent.\<close>

record logger =
  own_level :: "log_level option"
  handlers :: "string list"
  propagate :: bool

type_synonym loggers = "(string \<times> logger) list"

fun level_no :: "log_level \<Rightarrow> nat" where
  "level_no DEBUG = 10" | "level_no INFO = 20" | "level_no WARNING = 30" | "level_no ERROR = 40"
| "level_no CRITICAL = 50"

definition new_logger :: logger where
  "new_logger = \<lparr>own_level = None, handlers = [], propagate = True\<rparr>"

definition logger_named :: "loggers \<Rightarrow> string \<Rightarrow> logger" where
  "logger_named L n = (case map_of L n of None \<Rightarrow> new_logger | Some l \<Rightarrow> l)"

definition change :: "string \<Rightarrow> (logger \<Rightarrow> logger) \<Rightarrow> loggers \<Rightarrow> loggers" where
  "change n f L = (n, f (logger_named L n)) # filter (\<lambda>p. fst p \<noteq> n) L"

text \<open>\<open>getattr(logging, name.upper(), logging.INFO)\<close> for the names of levels; any other name is taken as INFO.\<close>

definition level_of_name :: "string \<Rightarrow> log_level" where
  "level_of_name n =
     (case map_of [(''DEBUG'', DEBUG), (''INFO'', INFO), (''WARNING'', WARNING), (''WARN'', WARNING),
                   (''ERROR'', ERROR), (''CRITICAL'', CRITICAL), (''FATAL'', CRITICAL)] (py_upper n) of
        None \<Rightarrow> INFO | Some l \<Rightarrow> l)"

text \<open>The root logger has the empty name.\<close>

definition uvicorn_loggers :: "string list" where
  "uvicorn_loggers = [''uvicorn'', ''uvicorn.error'', ''uvicorn.access'']"

definition http_loggers :: "string list" where
  "http_loggers = [''httpx2'', ''httpcore2'', ''httpx'', ''httpcore'']"

definition configure_logging :: "settings \<Rightarrow> loggers \<Rightarrow> loggers" where
  "configure_logging s L =
     (let root = change [] (\<lambda>l. l\<lparr>handlers := [''stdout''], own_level := Some (level_of_name (LOG_LEVEL s))\<rparr>) L;
          uvi = fold (\<lambda>n. change n (\<lambda>l. l\<lparr>handlers := [], propagate := True\<rparr>)) uvicorn_loggers root;
          sql = change ''sqlalchemy.engine'' (\<lambda>l. l\<lparr>own_level := Some (if DB_ECHO s then INFO else WARNING)\<rparr>) uvi
      in fold (\<lambda>n. change n (\<lambda>l. l\<lparr>own_level := Some WARNING\<rparr>)) http_loggers sql)"

text \<open>\<open>a.b.c\<close> has the parent \<open>a.b\<close>; the ancestors from the logger itself to the root.\<close>

definition parent_name :: "string \<Rightarrow> string" where
  "parent_name n = (case rpartition_at (CHR ''.'') n of (None, _) \<Rightarrow> [] | (Some p, _) \<Rightarrow> p)"

lemma parent_name_shorter: "n \<noteq> [] \<Longrightarrow> length (parent_name n) < length n"
proof -
  assume n: "n \<noteq> []"
  let ?b = "takeWhile (\<lambda>c. c \<noteq> CHR ''.'') (rev n)" and ?a = "dropWhile (\<lambda>c. c \<noteq> CHR ''.'') (rev n)"
  have "length ?a \<le> length n" by (metis length_dropWhile_le length_rev)
  moreover have "0 < length n" using n by simp
  ultimately have "length ?a - Suc 0 < length n" by linarith
  then show ?thesis using n by (simp add: parent_name_def rpartition_at_def)
qed

function ancestors :: "string \<Rightarrow> string list" where
  "ancestors n = (if n = [] then [[]] else n # ancestors (parent_name n))"
  by auto
termination
  by (relation "measure length") (simp_all add: parent_name_shorter)

declare ancestors.simps [simp del]

definition effective_level :: "loggers \<Rightarrow> string \<Rightarrow> log_level" where
  "effective_level L n =
     (case find (\<lambda>m. own_level (logger_named L m) \<noteq> None) (ancestors n) of
        None \<Rightarrow> WARNING | Some m \<Rightarrow> the (own_level (logger_named L m)))"

text \<open>The handlers a record reaches on its way up.\<close>

fun reached :: "loggers \<Rightarrow> string list \<Rightarrow> string list" where
  "reached L [] = []"
| "reached L (m # ms) = handlers (logger_named L m) @ (if propagate (logger_named L m) then reached L ms else [])"

definition emitted :: "loggers \<Rightarrow> string \<Rightarrow> log_level \<Rightarrow> string list" where
  "emitted L n l = (if level_no (effective_level L n) \<le> level_no l then reached L (ancestors n) else [])"

section \<open>The id of a request\<close>

definition envelope_request_id :: "error_response \<Rightarrow> string option" where
  "envelope_request_id er =
     (case er_body er of
        JObj [(''error'', JObj kvs)] \<Rightarrow> (case json_get ''request_id'' kvs of Some (JStr rid) \<Rightarrow> Some rid | _ \<Rightarrow> None)
      | _ \<Rightarrow> None)"

lemma envelope_has_id: "envelope_request_id (error_response_of rid n c m d h) = Some rid"
  by (cases d) (simp_all add: envelope_request_id_def error_response_of_def json_get_def)

lemma exception_envelope_id: "envelope_request_id (handle_exception rid x) = Some rid"
  by (cases x) (simp_all add: handle_exception_def handle_app_error_def handle_database_error_def
      handle_unexpected_error_def envelope_has_id)

lemma request_id_bounds: "length (request_id_of headers fresh) \<le> 64" "fresh \<noteq> [] \<Longrightarrow> request_id_of headers fresh \<noteq> []"
  by (auto simp: request_id_of_def split: option.split)

text \<open>
  C35. Every request has an id of 1 to 64 characters, the caller's if it sent one and a fresh one otherwise:
  it is in every error envelope, and it is the last header of the response whenever the route answers
  or raises a domain or database error. For any other exception the handler runs outside the
  middleware: the response is a 500 whose envelope has the id and whose headers do not.
\<close>
theorem request_id_reaches_the_caller:
  assumes "fresh \<noteq> []" "rid = request_id_of headers fresh"
  shows "rid \<noteq> [] \<and> length rid \<le> 64 \<and>
    (\<forall>v. inbound_id headers = Some v \<and> v \<noteq> [] \<longrightarrow> rid = take 64 v) \<and>
    (case route rid of
       Inr code \<Rightarrow> serve headers fresh line route = [Start code [(''X-Request-ID'', rid)], Body]
     | Inl x \<Rightarrow> envelope_request_id (handle_exception rid x) = Some rid \<and>
         serve headers fresh line route =
           [if handled_inside x
            then Start (er_status (handle_exception rid x)) (er_headers (handle_exception rid x) @ [(''X-Request-ID'', rid)])
            else Start 500 [], Body])"
proof -
  have ids: "rid \<noteq> []" "length rid \<le> 64" using request_id_bounds assms by auto
  moreover have "rid = take 64 v" if "inbound_id headers = Some v" "v \<noteq> []" for v
    using that by (simp add: assms(2) request_id_of_def)
  moreover have "case route rid of
       Inr code \<Rightarrow> serve headers fresh line route = [Start code [(''X-Request-ID'', rid)], Body]
     | Inl x \<Rightarrow> envelope_request_id (handle_exception rid x) = Some rid \<and>
         serve headers fresh line route =
           [if handled_inside x
            then Start (er_status (handle_exception rid x)) (er_headers (handle_exception rid x) @ [(''X-Request-ID'', rid)])
            else Start 500 [], Body]"
  proof (cases "route rid")
    case (Inr code)
    then show ?thesis
      by (simp add: serve_def request_middleware_def inner_app_def send_response_def REQUEST_ID_HEADER_def
          flip: assms(2))
  next
    case (Inl x)
    have "\<not> handled_inside x \<Longrightarrow> er_status (handle_exception rid x) = 500 \<and> er_headers (handle_exception rid x) = []"
      by (cases x) (simp_all add: handle_exception_def handle_unexpected_error_def)
    then show ?thesis using Inl exception_envelope_id [of rid x]
      by (simp add: serve_def request_middleware_def inner_app_def send_response_def REQUEST_ID_HEADER_def
          flip: assms(2))
  qed
  ultimately show ?thesis by blast
qed

theorem request_id_reaches_the_caller_witness:
  "serve [(''x-request-id'', ''abc'')] ''fresh'' ''GET /trades'' (\<lambda>_. Inl (login_refused ''no'')) =
     [Start 401 [(''WWW-Authenticate'', ''Bearer''), (''X-Request-ID'', ''abc'')], Body] \<and>
   serve [] ''fresh'' ''GET /trades'' (\<lambda>_. Inl (PyExn ''KeyError'')) = [Start 500 [], Body]"
proof -
  have n: "''fresh'' \<noteq> []" by simp
  have "py_lower REQUEST_ID_HEADER = ''x-request-id''" by code_simp
  then have a: "''abc'' = request_id_of [(''x-request-id'', ''abc'')] ''fresh''"
    by (simp add: request_id_of_def inbound_id_def)
  have b: "''fresh'' = request_id_of [] ''fresh''" by (simp add: request_id_of_def inbound_id_def)
  show ?thesis
    using request_id_reaches_the_caller [OF n a, where route = "\<lambda>_. Inl (login_refused ''no'')" and line = "''GET /trades''"]
      request_id_reaches_the_caller [OF n b, where route = "\<lambda>_. Inl (PyExn ''KeyError'')" and line = "''GET /trades''"]
    by (simp add: login_refused_def [of "''no''"]) (simp flip: login_refused_def)
qed

section \<open>What is not logged\<close>

lemma logger_named_change: "logger_named (change n f L) m = (if m = n then f (logger_named L n) else logger_named L m)"
proof -
  have "map_of (filter (\<lambda>p. fst p \<noteq> n) L) m = (if m = n then None else map_of L m)"
    by (induction L) auto
  then show ?thesis by (auto simp: change_def logger_named_def)
qed

lemma logger_named_fold:
  "distinct ns \<Longrightarrow> logger_named (fold (\<lambda>n. change n f) ns L) m = (if m \<in> set ns then f (logger_named L m) else logger_named L m)"
  by (induction ns arbitrary: L) (auto simp: logger_named_change)

lemma http_logger_level:
  "n \<in> set http_loggers \<Longrightarrow> own_level (logger_named (configure_logging s L) n) = Some WARNING"
proof -
  have "distinct http_loggers" by (simp add: http_loggers_def)
  then show "n \<in> set http_loggers \<Longrightarrow> ?thesis" by (simp add: configure_logging_def Let_def logger_named_fold)
qed

text \<open>
  The HTTP libraries log each request's URL, signature included, at INFO: whatever level the settings
  name, and whatever was configured before, no handler gets such a record.
\<close>

lemma signed_urls_are_not_logged:
  assumes "n \<in> set http_loggers"
  shows "emitted (configure_logging s L) n INFO = [] \<and> emitted (configure_logging s L) n DEBUG = []"
proof -
  have "n \<noteq> []" using assms by (auto simp: http_loggers_def)
  then have "effective_level (configure_logging s L) n = WARNING"
    using http_logger_level [OF assms] by (simp add: effective_level_def ancestors.simps [of n])
  then show ?thesis by (simp add: emitted_def)
qed

end
