(* ===== verification/Load_Scripts.thy ===== *)
theory Load_Scripts
  imports Payload_Contract "HOL-Library.Multiset"
begin

text \<open>
  \<open>scripts/benchmark_webhook.py\<close> and \<open>scripts/simulate_trades.py\<close>: the signals they send, what they record
  of the replies, and the numbers they report. Requests run concurrently, so the order in which replies
  are recorded is any order. Times are rationals; starting servers, printing and argument parsing are
  left out.

  The lemmas show that every signal of the benchmark is a new valid one, that the counts add up, and
  what the percentiles mean; and how many signals of a simulation repeat an earlier one.
\<close>

section \<open>Signals\<close>

record signal_body =
  sb_signal_id :: string
  sb_symbol :: string
  sb_action :: string
  sb_quantity :: string

text \<open>\<open>f"{index:05d}"\<close>\<close>

definition pad5 :: "nat \<Rightarrow> string" where
  "pad5 n = replicate (5 - length (str_nat n)) (CHR ''0'') @ str_nat n"

definition alternating_action :: "nat \<Rightarrow> string" where
  "alternating_action i = (if i mod 2 = 0 then ''BUY'' else ''SELL'')"

definition bench_payload :: "string \<Rightarrow> string \<Rightarrow> string \<Rightarrow> nat \<Rightarrow> signal_body" where
  "bench_payload run_id sy qty i =
     \<lparr>sb_signal_id = ''bench-'' @ run_id @ ''-'' @ pad5 i, sb_symbol = sy,
      sb_action = alternating_action i, sb_quantity = qty\<rparr>"

definition SYMBOLS :: "string list" where
  "SYMBOLS = [''BTCUSDT'', ''ETHUSDT'', ''BNBUSDT'', ''SOLUSDT'', ''XRPUSDT'']"

text \<open>Which index a signal's id carries; \<open>N\<close> is the argument of \<open>--duplicate-every\<close>, 0 for never.\<close>

definition sim_index :: "int \<Rightarrow> nat \<Rightarrow> nat" where
  "sim_index N i = (if N \<noteq> 0 \<and> i \<noteq> 0 \<and> int i mod N = 0 then i - 1 else i)"

definition sim_payload :: "string \<Rightarrow> int \<Rightarrow> string option \<Rightarrow> string \<Rightarrow> nat \<Rightarrow> signal_body" where
  "sim_payload run_id N sy qty i =
     \<lparr>sb_signal_id = ''sim-'' @ run_id @ ''-'' @ pad5 (sim_index N i),
      sb_symbol = (case sy of None \<Rightarrow> SYMBOLS ! (i mod length SYMBOLS)
        | Some y \<Rightarrow> if y = [] then SYMBOLS ! (i mod length SYMBOLS) else y),
      sb_action = alternating_action i, sb_quantity = qty\<rparr>"

section \<open>Results\<close>

type_synonym counter = "(int \<times> nat) list"

fun count_code :: "int \<Rightarrow> counter \<Rightarrow> counter" where
  "count_code c [] = [(c, 1)]"
| "count_code c ((k, n) # r) = (if k = c then (k, n + 1) # r else (k, n) # count_code c r)"

definition code_count :: "(int \<Rightarrow> bool) \<Rightarrow> counter \<Rightarrow> nat" where
  "code_count P cs = sum_list (map snd (filter (\<lambda>kn. P (fst kn)) cs))"

record bench_result =
  latencies_ms :: "rat list"
  status_codes :: counter
  errors :: nat
  wall_seconds :: rat

definition empty_result :: bench_result where
  "empty_result = \<lparr>latencies_ms = [], status_codes = [], errors = 0, wall_seconds = 0\<rparr>"

text \<open>One request: a transport error, or a status and the time it took.\<close>

datatype reply = NoReply | Replied int rat

definition record_reply :: "reply \<Rightarrow> bench_result \<Rightarrow> bench_result" where
  "record_reply x r =
     (case x of
        NoReply \<Rightarrow> r\<lparr>errors := errors r + 1\<rparr>
      | Replied c t \<Rightarrow> r\<lparr>latencies_ms := latencies_ms r @ [t], status_codes := count_code c (status_codes r)\<rparr>)"

text \<open>\<open>run_load\<close>: the replies of the requests, recorded in the order they come in.\<close>

definition run_load :: "(nat \<Rightarrow> reply) \<Rightarrow> nat list \<Rightarrow> rat \<Rightarrow> bench_result" where
  "run_load replies order wall = (foldl (\<lambda>r i. record_reply (replies i) r) empty_result order)\<lparr>wall_seconds := wall\<rparr>"

definition total :: "bench_result \<Rightarrow> nat" where
  "total r = length (latencies_ms r) + errors r"

definition successes :: "bench_result \<Rightarrow> nat" where
  "successes r = code_count (\<lambda>c. 200 \<le> c \<and> c < 300) (status_codes r)"

definition failures :: "bench_result \<Rightarrow> int" where
  "failures r = int (total r) - int (successes r)"

definition error_rate :: "bench_result \<Rightarrow> rat" where
  "error_rate r = (if total r \<noteq> 0 then of_int (failures r) / of_nat (total r) * 100 else 0)"

definition rps :: "bench_result \<Rightarrow> rat" where
  "rps r = (if wall_seconds r \<noteq> 0 then of_nat (total r) / wall_seconds r else 0)"

definition pct :: "nat \<Rightarrow> bench_result \<Rightarrow> rat" where
  "pct p r =
     (if latencies_ms r = [] then 0
      else let ordered = sort (latencies_ms r)
           in ordered ! min (length ordered * p div 100) (length ordered - 1))"

definition mean_ms :: "bench_result \<Rightarrow> rat" where
  "mean_ms r = (if latencies_ms r = [] then 0 else sum_list (latencies_ms r) / of_nat (length (latencies_ms r)))"

text \<open>The gain of \<open>--compare\<close> at one concurrency level.\<close>

definition pct_gain :: "nat \<Rightarrow> bench_result \<Rightarrow> bench_result \<Rightarrow> rat" where
  "pct_gain p before after = (if pct p before \<noteq> 0 then (pct p before - pct p after) / pct p before * 100 else 0)"

text \<open>\<open>simulate\<close>: what it reports and exits with, from the same records.\<close>

definition sim_accepted :: "bench_result \<Rightarrow> nat" where
  "sim_accepted r = code_count (\<lambda>c. c = 202) (status_codes r)"

definition sim_duplicates :: "bench_result \<Rightarrow> nat" where
  "sim_duplicates r = code_count (\<lambda>c. c = 409) (status_codes r)"

definition sim_other_failures :: "bench_result \<Rightarrow> nat" where
  "sim_other_failures r = code_count (\<lambda>c. c \<noteq> 202 \<and> c \<noteq> 409) (status_codes r) + errors r"

definition sim_exit :: "nat \<Rightarrow> bench_result \<Rightarrow> int" where
  "sim_exit sent r = (if sim_accepted r + sim_duplicates r = sent then 0 else 1)"

section \<open>Counting\<close>

lemma count_code_count: "code_count P (count_code c cs) = code_count P cs + (if P c then 1 else 0)"
  by (induction c cs rule: count_code.induct) (auto simp: code_count_def)

definition replied :: "(int \<Rightarrow> bool) \<Rightarrow> reply \<Rightarrow> bool" where
  "replied P x = (case x of NoReply \<Rightarrow> False | Replied c _ \<Rightarrow> P c)"

lemma run_load_fields:
  "wall_seconds (run_load replies order wall) = wall"
  "errors (run_load replies order wall) = length (filter (\<lambda>i. replies i = NoReply) order)"
  "code_count P (status_codes (run_load replies order wall)) = length (filter (\<lambda>i. replied P (replies i)) order)"
  "length (latencies_ms (run_load replies order wall)) = length (filter (\<lambda>i. replies i \<noteq> NoReply) order)"
proof -
  have "errors (foldl (\<lambda>r i. record_reply (replies i) r) r order) =
      errors r + length (filter (\<lambda>i. replies i = NoReply) order) \<and>
    code_count P (status_codes (foldl (\<lambda>r i. record_reply (replies i) r) r order)) =
      code_count P (status_codes r) + length (filter (\<lambda>i. replied P (replies i)) order) \<and>
    length (latencies_ms (foldl (\<lambda>r i. record_reply (replies i) r) r order)) =
      length (latencies_ms r) + length (filter (\<lambda>i. replies i \<noteq> NoReply) order)" for r
    by (induction order arbitrary: r)
      (auto simp: record_reply_def replied_def count_code_count split: reply.splits)
  then show "wall_seconds (run_load replies order wall) = wall"
    "errors (run_load replies order wall) = length (filter (\<lambda>i. replies i = NoReply) order)"
    "code_count P (status_codes (run_load replies order wall)) = length (filter (\<lambda>i. replied P (replies i)) order)"
    "length (latencies_ms (run_load replies order wall)) = length (filter (\<lambda>i. replies i \<noteq> NoReply) order)"
    by (simp_all add: run_load_def empty_result_def code_count_def)
qed

lemma total_run_load: "total (run_load replies order wall) = length order"
  using sum_length_filter_compl [of "\<lambda>i. replies i = NoReply" order] by (simp add: total_def run_load_fields)

section \<open>Percentiles\<close>

lemma sorted_below:
  fixes xs :: "rat list"
  assumes "sorted xs" "k < length xs"
  shows "Suc k \<le> length (filter (\<lambda>x. x \<le> xs ! k) xs)"
proof -
  have "filter (\<lambda>x. x \<le> xs ! k) (take (Suc k) xs) = take (Suc k) xs"
  proof -
    have "xs ! i \<le> xs ! k" if "i \<le> k" for i by (rule sorted_nth_mono [OF assms(1) that assms(2)])
    then show ?thesis by (auto simp: filter_id_conv in_set_conv_nth less_Suc_eq_le)
  qed
  then have "Suc k \<le> length (filter (\<lambda>x. x \<le> xs ! k) (take (Suc k) xs))" using assms(2) by simp
  also have "\<dots> \<le> length (filter (\<lambda>x. x \<le> xs ! k) xs)"
    by (metis append_take_drop_id filter_append le_add1 length_append)
  finally show ?thesis .
qed

lemma filter_sort_length: "length (filter P (sort xs)) = length (filter P (xs :: rat list))"
  by (metis mset_filter mset_sort size_mset)

definition pct_rank :: "nat \<Rightarrow> nat \<Rightarrow> nat" where
  "pct_rank p n = min (n * p div 100) (n - 1)"

lemma pct_rank_less: "0 < n \<Longrightarrow> pct_rank p n < n"
  by (simp add: pct_rank_def min_less_iff_disj)

lemma pct_nth: "latencies_ms r \<noteq> [] \<Longrightarrow> pct p r = sort (latencies_ms r) ! pct_rank p (length (latencies_ms r))"
  by (simp add: pct_def pct_rank_def Let_def)

lemma pct_covers:
  assumes "latencies_ms r \<noteq> []" "p \<le> 100"
  shows "p * length (latencies_ms r) \<le> 100 * length (filter (\<lambda>x. x \<le> pct p r) (latencies_ms r))"
proof -
  let ?n = "length (latencies_ms r)" and ?k = "pct_rank p (length (latencies_ms r))"
  have n: "0 < ?n" using assms(1) by simp
  have "Suc ?k \<le> length (filter (\<lambda>x. x \<le> pct p r) (latencies_ms r))"
    using sorted_below [OF sorted_sort, of ?k "latencies_ms r"] pct_rank_less [OF n] assms(1)
    by (simp add: pct_nth filter_sort_length)
  moreover have "p * ?n \<le> 100 * Suc ?k"
  proof (cases "?n * p div 100 \<le> ?n - 1")
    case True
    then have "?k = ?n * p div 100" by (simp add: pct_rank_def)
    moreover have "?n * p < 100 * Suc (?n * p div 100)" by (simp add: mult.commute dividend_less_times_div)
    ultimately show ?thesis by (simp add: mult.commute)
  next
    case False
    then have "Suc ?k = ?n" using n by (simp add: pct_rank_def)
    then show ?thesis using assms(2) by (metis mult_le_mono1)
  qed
  ultimately show ?thesis by (meson le_trans mult_le_mono2)
qed

lemma pct_mono: "p \<le> p' \<Longrightarrow> pct p r \<le> pct p' r"
proof (cases "latencies_ms r = []")
  case False
  assume "p \<le> p'"
  then have "length (latencies_ms r) * p div 100 \<le> length (latencies_ms r) * p' div 100"
    by (intro div_le_mono mult_le_mono2)
  then have "pct_rank p (length (latencies_ms r)) \<le> pct_rank p' (length (latencies_ms r))"
    by (auto simp: pct_rank_def)
  moreover have "pct_rank p' (length (latencies_ms r)) < length (sort (latencies_ms r))"
    using False pct_rank_less by simp
  ultimately show ?thesis using False by (simp add: pct_nth sorted_nth_mono)
qed (simp add: pct_def)

lemma pct_in: "latencies_ms r \<noteq> [] \<Longrightarrow> pct p r \<in> set (latencies_ms r)"
proof -
  assume n: "latencies_ms r \<noteq> []"
  then have "pct_rank p (length (latencies_ms r)) < length (sort (latencies_ms r))" using pct_rank_less by simp
  then have "sort (latencies_ms r) ! pct_rank p (length (latencies_ms r)) \<in> set (sort (latencies_ms r))" by (rule nth_mem)
  then show ?thesis using n by (simp add: pct_nth)
qed

section \<open>Signals are new and valid\<close>

lemma str_nat_inject: "str_nat m = str_nat n \<longleftrightarrow> m = n"
  by (metis nat_of_str_nat)

lemma pad5_value: "nat_of_str (pad5 n) = n"
proof -
  have "nat_of_str (replicate k (CHR ''0'')) = 0" for k
    using nat_of_str_zeros [of k] by (simp add: zeros_def)
  then show ?thesis by (simp add: pad5_def nat_of_str_append)
qed

lemma pad5_inject: "pad5 m = pad5 n \<longleftrightarrow> m = n"
  by (metis pad5_value)

lemma pad5_digits: "list_all is_digit (pad5 n)"
  using str_nat_digits [of n] by (auto simp: pad5_def list_all_iff is_digit_def)

lemma signal_digits: "is_digit c \<Longrightarrow> signal_char c"
  by (simp add: signal_char_def)

lemma bench_signal_ok:
  assumes "length run_id = 8" "list_all signal_char run_id" "length (pad5 i) \<le> 49"
  shows "SIGNAL_ID_PATTERN (sb_signal_id (bench_payload run_id sy qty i))"
proof -
  have "list_all signal_char ''bench-''" "signal_char (CHR ''-'')" by code_simp+
  moreover have "list_all signal_char (pad5 i)"
    using pad5_digits [of i] signal_digits by (auto simp: list_all_iff)
  ultimately show ?thesis using assms by (simp add: SIGNAL_ID_PATTERN_def bench_payload_def)
qed

text \<open>
  The benchmark measures what it says: its signals have pairwise different ids, so that none is a
  duplicate, and valid ones; whatever the order in which replies come in, the result counts each
  request once, as a reply or a transport error, successes are the 2xx replies and failures the rest;
  a percentile is one of the measured latencies, at least that share of the sample is not above it,
  and a higher percentile is never smaller.
\<close>
theorem benchmark_counts_every_request:
  assumes "mset arrivals = mset [0..<n]" "length run_id = 8" "list_all signal_char run_id"
    "r = run_load replies arrivals wall"
  shows "distinct (map (\<lambda>i. sb_signal_id (bench_payload run_id sy qty i)) arrivals) \<and>
    (\<forall>i < n. length (pad5 i) \<le> 49 \<longrightarrow> SIGNAL_ID_PATTERN (sb_signal_id (bench_payload run_id sy qty i))) \<and>
    total r = n \<and>
    successes r = card {i. i < n \<and> (\<exists>c t. replies i = Replied c t \<and> 200 \<le> c \<and> c < 300)} \<and>
    failures r = int n - int (successes r) \<and> 0 \<le> failures r \<and>
    (latencies_ms r \<noteq> [] \<longrightarrow>
      (\<forall>p \<le> 100. pct p r \<in> set (latencies_ms r) \<and>
        p * length (latencies_ms r) \<le> 100 * length (filter (\<lambda>x. x \<le> pct p r) (latencies_ms r)))) \<and>
    (\<forall>p p'. p \<le> p' \<longrightarrow> pct p r \<le> pct p' r)"
proof -
  let ?ok = "{i. i < n \<and> (\<exists>c t. replies i = Replied c t \<and> 200 \<le> c \<and> c < 300)}"
  have arr: "distinct arrivals" "set arrivals = {..<n}" "length arrivals = n"
    using mset_eq_imp_distinct_iff [OF assms(1)] mset_eq_setD [OF assms(1)] mset_eq_length [OF assms(1)]
    by (simp_all add: atLeast_upt lessThan_atLeast0)
  have ids: "distinct (map (\<lambda>i. sb_signal_id (bench_payload run_id sy qty i)) arrivals)"
    using arr(1) by (simp add: distinct_map inj_on_def bench_payload_def pad5_inject)
  have tot: "total r = n" using total_run_load arr(3) assms(4) by simp
  have "successes r = length (filter (\<lambda>i. replied (\<lambda>c. 200 \<le> c \<and> c < 300) (replies i)) arrivals)"
    by (simp add: successes_def assms(4) run_load_fields)
  also have "\<dots> = card (set (filter (\<lambda>i. replied (\<lambda>c. 200 \<le> c \<and> c < 300) (replies i)) arrivals))"
    by (rule distinct_card [symmetric]) (simp add: arr(1))
  also have "set (filter (\<lambda>i. replied (\<lambda>c. 200 \<le> c \<and> c < 300) (replies i)) arrivals) = ?ok"
  proof (rule set_eqI)
    fix i
    show "i \<in> set (filter (\<lambda>i. replied (\<lambda>c. 200 \<le> c \<and> c < 300) (replies i)) arrivals) \<longleftrightarrow> i \<in> ?ok"
      by (cases "replies i") (simp_all add: arr(2) replied_def)
  qed
  finally have suc: "successes r = card ?ok" .
  have "card ?ok \<le> card {..<n}" by (rule card_mono) auto
  then have "failures r = int n - int (successes r) \<and> 0 \<le> failures r" by (simp add: failures_def tot suc)
  moreover have "\<forall>p \<le> 100. pct p r \<in> set (latencies_ms r) \<and>
      p * length (latencies_ms r) \<le> 100 * length (filter (\<lambda>x. x \<le> pct p r) (latencies_ms r))"
    if "latencies_ms r \<noteq> []"
    using that pct_in pct_covers by blast
  ultimately show ?thesis
    using ids tot suc bench_signal_ok [OF assms(2,3)] pct_mono by blast
qed

theorem benchmark_counts_every_request_witness:
  "total (run_load (\<lambda>i. if i = 1 then NoReply else Replied 202 (of_nat i)) [2, 0, 1] 1) = 3 \<and>
   successes (run_load (\<lambda>i. if i = 1 then NoReply else Replied 202 (of_nat i)) [2, 0, 1] 1) = 2"
proof -
  have arr: "mset [2, 0, 1] = mset [0..<3]" by (simp add: upt_rec numeral_eq_Suc)
  have run_id: "length ''0123abcd'' = 8" "list_all signal_char ''0123abcd''" by code_simp+
  let ?replies = "\<lambda>i. if i = 1 then NoReply else Replied 202 (rat_of_nat i)"
  have "{i. i < 3 \<and> (\<exists>c t. ?replies i = Replied c t \<and> 200 \<le> c \<and> c < 300)} = {0, 2 :: nat}" by auto
  then show ?thesis
    using benchmark_counts_every_request [OF arr run_id refl, where replies = ?replies and wall = 1] by simp
qed

section \<open>Repeated signals of a simulation\<close>

text \<open>
  With \<open>--duplicate-every N\<close> for N of at least two, each N-th signal repeats the id before it; with N = 1
  only the second signal repeats one, and every later signal takes an id that was never sent.
\<close>

lemma simulated_duplicates:
  assumes "2 \<le> N"
  shows "sim_index (int N) ` {..<n} = {i. i < n \<and> \<not> (i \<noteq> 0 \<and> N dvd i)}"
proof (intro equalityI subsetI)
  fix x assume "x \<in> sim_index (int N) ` {..<n}"
  then obtain i where i: "i < n" "x = sim_index (int N) i" by auto
  have dvd: "int i mod int N = 0 \<longleftrightarrow> N dvd i" by (simp add: dvd_eq_mod_eq_0 flip: zmod_int)
  show "x \<in> {i. i < n \<and> \<not> (i \<noteq> 0 \<and> N dvd i)}"
  proof (cases "i \<noteq> 0 \<and> N dvd i")
    case True
    have "\<not> N dvd i - 1"
    proof
      assume "N dvd i - 1"
      then have "N dvd i - (i - 1)" using True by (blast intro: dvd_diff_nat)
      then show False using True assms by simp
    qed
    then show ?thesis using True i dvd assms by (auto simp: sim_index_def)
  next
    case False
    then show ?thesis using i dvd assms by (auto simp: sim_index_def)
  qed
next
  fix x assume x: "x \<in> {i. i < n \<and> \<not> (i \<noteq> 0 \<and> N dvd i)}"
  have "int x mod int N = 0 \<longleftrightarrow> N dvd x" by (simp add: dvd_eq_mod_eq_0 flip: zmod_int)
  then have "sim_index (int N) x = x" using x by (auto simp: sim_index_def)
  then show "x \<in> sim_index (int N) ` {..<n}" using x by force
qed

lemma every_signal_a_duplicate: "sim_index 1 ` {..<Suc (Suc n)} = {..n}"
proof -
  have "sim_index 1 i = i - 1" for i by (simp add: sim_index_def)
  then have "sim_index 1 ` {..<Suc (Suc n)} = (\<lambda>i. i - 1) ` {..<Suc (Suc n)}" by simp
  also have "\<dots> = {..n}" by (force simp: image_iff less_Suc_eq_le)
  finally show ?thesis .
qed

end
