(* ===== verification/Ops_Scripts.thy ===== *)
theory Ops_Scripts
  imports Trading_Contract Load_Scripts
begin

text \<open>
  The operator's scripts: \<open>scripts/reconcile.py\<close>, \<open>scripts/check_setup.py\<close> and how the load scripts find
  the secret. What the scripts import or open is an argument: the settings as loaded, the answer of
  the database to a connection, its table names.

  The lemmas show that neither script places an order, that the check writes nothing, and what its exit
  code means.
\<close>

section \<open>\<open>scripts/reconcile.py\<close>\<close>

definition summary_line :: "summary \<Rightarrow> string" where
  "summary_line x =
     ''Reconciliation complete: checked='' @ str_nat (checked x) @ '' changed='' @ str_nat (changed x) @
     '' unchanged='' @ str_nat (unchanged x)"

text \<open>\<open>run\<close>: the exit code, what is printed, and the world after it.\<close>

definition run_reconcile :: "env \<Rightarrow> settings \<Rightarrow> int \<Rightarrow> nat \<Rightarrow> world \<Rightarrow> int \<times> string list \<times> world" where
  "run_reconcile e s older_than limit w =
     (case make_client e s None None None None None None of
        Inl _ \<Rightarrow> (1, [], w)
      | Inr c \<Rightarrow>
          (case reconcile_pending_trades e (binance_client e c) older_than limit w of
             (Inl _, w1) \<Rightarrow> (1, [], w1)
           | (Inr x, w1) \<Rightarrow> (0, [summary_line x], w1)))"

section \<open>The secret of the load scripts\<close>

definition secret_line :: string where
  "secret_line = ''WEBHOOK_SECRET=''"

text \<open>The lines of \<open>.env\<close> if it is a file, and the variable of the environment.\<close>

definition read_secret :: "string list option \<Rightarrow> string option \<Rightarrow> string option" where
  "read_secret env_lines env_var =
     (case Option.bind env_lines (find (starts_with secret_line)) of
        Some line \<Rightarrow> (case partition_at (CHR ''='') line of (_, Some v) \<Rightarrow> Some (py_strip v) | (_, None) \<Rightarrow> Some [])
      | None \<Rightarrow> env_var)"

section \<open>\<open>scripts/check_setup.py\<close>\<close>

definition OK_mark :: string where "OK_mark = ''[ OK ]''"
definition FAIL_mark :: string where "FAIL_mark = ''[FAIL]''"
definition WARN_mark :: string where "WARN_mark = ''[WARN]''"

definition check_tables :: "string list \<Rightarrow> string list" where
  "check_tables tables = filter (\<lambda>t. t \<notin> set tables) [''trades'', ''users'']"

text \<open>The last check: it only warns.\<close>

definition check_binance :: "env \<Rightarrow> settings \<Rightarrow> world \<Rightarrow> string \<times> world" where
  "check_binance e s w =
     (case make_client e s None None None None None None of
        Inl _ \<Rightarrow> (WARN_mark, w)
      | Inr c \<Rightarrow>
          (case ping e c w of
             (False, w1) \<Rightarrow> (WARN_mark, w1)
           | (True, w1) \<Rightarrow>
               (case get_server_time e c w1 of
                  (Inl _, w2) \<Rightarrow> (WARN_mark, w2) | (Inr _, w2) \<Rightarrow> (OK_mark, w2))))"

text \<open>The marks of the report in their order, and the exit code.\<close>

definition check_setup ::
  "env \<Rightarrow> (string list, settings) result \<Rightarrow> (exn, string) result \<Rightarrow> string list \<Rightarrow> world \<Rightarrow> int \<times> string list \<times> world" where
  "check_setup e config version tables w =
     (case config of
        Inl _ \<Rightarrow> (1, [FAIL_mark], w)
      | Inr s \<Rightarrow>
          (case version of
             Inl _ \<Rightarrow> (1, [OK_mark, OK_mark, FAIL_mark], w)
           | Inr _ \<Rightarrow>
               (let missing = check_tables tables;
                    schema = (if missing = [] then OK_mark else FAIL_mark);
                    owner = (if missing \<noteq> [] then []
                      else if select_user_by_email (WEBHOOK_TRADE_OWNER_EMAIL s) (w_db w) = None then [WARN_mark]
                      else [OK_mark]);
                    failed = (if missing \<noteq> [] then 1 else 0) + (if owner = [WARN_mark] then 1 else 0 :: nat);
                    (b, w1) = check_binance e s w
                in (if failed = 0 then 0 else 1, [OK_mark, OK_mark, OK_mark, schema] @ owner @ [b], w1))))"

section \<open>What they leave alone\<close>

lemma get_request_log:
  assumes "do_request e c GET path ps sg w = (r, w')"
  shows "same_store w w' \<and> order_count w' = order_count w"
  using do_request_log [OF assms] by (auto simp: order_count_def is_order_request_def)

lemma check_binance_quiet:
  assumes "check_binance e s w = (m, w')"
  shows "same_store w w' \<and> order_count w' = order_count w"
proof (cases "make_client e s None None None None None None")
  case (Inl x)
  then show ?thesis using assms by (simp add: check_binance_def)
next
  case (Inr c)
  obtain q w1 where q: "do_request e c GET ''/api/v3/ping'' [] False w = (q, w1)"
    by (cases "do_request e c GET ''/api/v3/ping'' [] False w") auto
  obtain t w2 where t: "do_request e c GET ''/api/v3/time'' [] False w1 = (t, w2)"
    by (cases "do_request e c GET ''/api/v3/time'' [] False w1") auto
  have "w' = w1 \<or> w' = w2"
    using assms Inr q t
    by (auto simp: check_binance_def ping_def get_server_time_def split: sum.splits option.splits)
  then show ?thesis using get_request_log [OF q] get_request_log [OF t] by (auto simp: same_store_def)
qed

lemma check_tables_none: "check_tables tables = [] \<longleftrightarrow> {''users'', ''trades''} \<subseteq> set tables"
  by (auto simp: check_tables_def)

text \<open>
  C40. The set-up check writes nothing and places no order, and its exit code is about this server: it is 0
  exactly when the settings load, the database answers, both tables exist and the webhook owner is
  registered, whatever Binance answers; and with exit code 0 a fresh process finds the owner of its
  trades, so that no signal is turned away for a missing account.
\<close>
theorem setup_check_is_sound:
  assumes "check_setup e config version tables w = (code, marks, w')"
  shows "same_store w w' \<and> order_count w' = order_count w \<and>
    (code = 0 \<longleftrightarrow> (\<exists>s v u. config = Inr s \<and> version = Inr v \<and> {''users'', ''trades''} \<subseteq> set tables \<and>
       select_user_by_email (WEBHOOK_TRADE_OWNER_EMAIL s) (w_db w) = Some u)) \<and>
    (\<forall>s. code = 0 \<and> config = Inr s \<and> owner_cache w = None \<longrightarrow>
       (\<exists>u \<in> set (users (w_db w)). fst (resolve_trade_owner_id s w') = Inr (u_id u)))"
proof (cases config)
  case (Inl x)
  then show ?thesis using assms by (auto simp: check_setup_def)
next
  case s: (Inr s)
  show ?thesis
  proof (cases version)
    case (Inl x)
    then show ?thesis using assms s by (auto simp: check_setup_def)
  next
    case v: (Inr v)
    obtain b w1 where b: "check_binance e s w = (b, w1)" by (cases "check_binance e s w") auto
    have w: "w' = w1" using assms s v b by (simp add: check_setup_def Let_def)
    have quiet: "same_store w w' \<and> order_count w' = order_count w" using check_binance_quiet [OF b] w by simp
    have marks: "OK_mark \<noteq> WARN_mark" by (simp add: OK_mark_def WARN_mark_def)
    have code: "code = 0 \<longleftrightarrow> check_tables tables = [] \<and>
        select_user_by_email (WEBHOOK_TRADE_OWNER_EMAIL s) (w_db w) \<noteq> None"
      using assms s v b marks by (auto simp: check_setup_def Let_def split: if_splits)
    have "\<exists>u \<in> set (users (w_db w)). fst (resolve_trade_owner_id s w') = Inr (u_id u)"
      if zero: "code = 0" and empty: "owner_cache w = None"
    proof -
      obtain u where u: "select_user_by_email (WEBHOOK_TRADE_OWNER_EMAIL s) (w_db w) = Some u"
        using code zero by (cases "select_user_by_email (WEBHOOK_TRADE_OWNER_EMAIL s) (w_db w)") simp_all
      then have "u \<in> set (users (w_db w))" unfolding select_user_by_email_def by (metis find_key)
      then show ?thesis using quiet empty u by (auto simp: resolve_trade_owner_id_def same_store_def)
    qed
    then show ?thesis using quiet code check_tables_none [of tables] s v by auto
  qed
qed

theorem setup_check_is_sound_witness:
  "\<exists>marks w'. check_setup (test_env TimedOut) (Inr test_settings) (Inr ''PostgreSQL 16'') [''users'', ''trades'', ''alembic_version'']
     test_world = (0, marks, w') \<and> fst (resolve_trade_owner_id test_settings w') = Inr 1"
proof -
  obtain code marks w' where run: "check_setup (test_env TimedOut) (Inr test_settings) (Inr ''PostgreSQL 16'')
      [''users'', ''trades'', ''alembic_version''] test_world = (code, marks, w')"
    using prod_cases3 by blast
  have owner: "select_user_by_email (WEBHOOK_TRADE_OWNER_EMAIL test_settings) (w_db test_world) = Some test_owner"
    by (simp add: select_user_by_email_def test_settings_def test_world_def test_db_def test_owner_def)
  note sound = setup_check_is_sound [OF run]
  have zero: "code = 0" using sound owner by auto
  have "owner_cache test_world = None" by (simp add: test_world_def)
  then have "\<exists>u \<in> set (users (w_db test_world)). fst (resolve_trade_owner_id test_settings w') = Inr (u_id u)"
    using sound zero by blast
  then show ?thesis using run zero by (auto simp: test_world_def test_db_def test_owner_def)
qed

text \<open>A reconciliation run from the shell places no order, and exits with 0 only after a whole run.\<close>

lemma run_reconcile_quiet:
  assumes "run_reconcile e s older limit w = (code, out, w')"
  shows "order_count w' = order_count w \<and> code \<in> {0, 1} \<and> (db_ok (w_db w) \<longrightarrow> db_ok (w_db w'))"
proof (cases "make_client e s None None None None None None")
  case (Inl x)
  then show ?thesis using assms by (simp add: run_reconcile_def)
next
  case (Inr c)
  obtain ts where ts: "find_reconcilable_trades e older limit w = (ts, advance w)"
    using find_reconcilable_set(1) by (metis prod.collapse)
  obtain r w1 where r: "reconcile_loop e (binance_client e c) ts \<lparr>checked = 0, changed = 0, unchanged = 0\<rparr> (advance w) = (r, w1)"
    by (cases "reconcile_loop e (binance_client e c) ts \<lparr>checked = 0, changed = 0, unchanged = 0\<rparr> (advance w)") auto
  have run: "w' = w1 \<and> code \<in> {0, 1}"
    using assms Inr ts r by (auto simp: run_reconcile_def reconcile_pending_trades_def split: sum.splits)
  note eff = testnet.reconcile_loop_effect [OF r]
  have "order_count w1 = order_count w" using eff by (simp add: order_count_def)
  moreover have "db_ok (w_db w1)" if "db_ok (w_db w)" using eff that only_rows_ok by (metis advance_simps(1))
  ultimately show ?thesis using run by blast
qed

end
