(* ===== verification/Migration.thy ===== *)
theory Migration
  imports Models
begin

text \<open>
  The schema as data: the columns, keys and indexes that \<open>app/db/models.py\<close> declares, the DDL that the
  migration \<open>0001_initial\<close> issues in \<open>upgrade\<close> and \<open>downgrade\<close>, and a catalogue the DDL acts on, with the
  errors the server raises for it. Foreign keys refer to primary keys; tables, indexes and the indexes
  of primary keys share one name space, as in PostgreSQL.

  What the migration promises is in theory Migration_Contract.
\<close>

section \<open>Types, columns, tables\<close>

datatype col_type =
  SaInteger | SaBigInteger | SaString nat | SaText | SaBoolean | SaDateTime bool | SaNumeric nat nat
| SaEnum string "string list" nat

datatype sqlval = VNull | VInt int | VText string | VBool bool | VTime int | VDec decimal

text \<open>\<open>sa.text("...")\<close> is SQL as it stands (so is \<open>func.now()\<close>); a plain string becomes a literal.\<close>

datatype server_default = SqlText string | SqlString string

datatype default_value = Now | Const sqlval

fun default_meaning :: "col_type \<Rightarrow> server_default \<Rightarrow> default_value option" where
  "default_meaning SaBoolean (SqlText s) = (if s = ''true'' then Some (Const (VBool True)) else None)"
| "default_meaning SaBoolean (SqlString s) = (if s = ''true'' then Some (Const (VBool True)) else None)"
| "default_meaning (SaDateTime _) (SqlText s) = (if s = ''now()'' then Some Now else None)"
| "default_meaning (SaString _) (SqlString s) = Some (Const (VText s))"
| "default_meaning (SaString _) (SqlText s) =
     (if 2 \<le> length s \<and> hd s = CHR 0x27 \<and> last s = CHR 0x27 then Some (Const (VText (butlast (tl s)))) else None)"
| "default_meaning _ _ = None"

record column =
  col_name :: string
  col_type_of :: col_type
  col_nullable :: bool
  col_default :: "server_default option"
  col_auto :: bool

record foreign_key =
  fk_name :: "string option"
  fk_columns :: "string list"
  fk_table :: string
  fk_refs :: "string list"
  fk_ondelete :: "string option"

record table_def =
  tab_name :: string
  tab_columns :: "column list"
  tab_pk_name :: "string option"
  tab_pk :: "string list"
  tab_fks :: "foreign_key list"

record index_def =
  ix_name :: string
  ix_table :: string
  ix_columns :: "string list"
  ix_unique :: bool

record catalogue =
  cat_tables :: "table_def list"
  cat_indexes :: "index_def list"

definition empty_catalogue :: catalogue where
  "empty_catalogue = \<lparr>cat_tables = [], cat_indexes = []\<rparr>"

definition col_names :: "table_def \<Rightarrow> string list" where
  "col_names t = map col_name (tab_columns t)"

text \<open>The name PostgreSQL gives the index of an unnamed primary key.\<close>

definition pk_name :: "table_def \<Rightarrow> string" where
  "pk_name t = (case tab_pk_name t of Some n \<Rightarrow> n | None \<Rightarrow> tab_name t @ ''_pkey'')"

definition relation_names :: "catalogue \<Rightarrow> string list" where
  "relation_names c = map tab_name (cat_tables c) @ map pk_name (cat_tables c) @ map ix_name (cat_indexes c)"

definition find_table :: "string \<Rightarrow> catalogue \<Rightarrow> table_def option" where
  "find_table n c = find (\<lambda>t. tab_name t = n) (cat_tables c)"

section \<open>DDL\<close>

datatype ddl = CreateTable table_def | CreateIndex index_def | DropIndex string | DropTable string

datatype ddl_error =
  DuplicateRelation | DuplicateColumn | UndefinedTable | UndefinedColumn | UndefinedObject
| InvalidForeignKey | DependentObjectsStillExist

definition fk_valid :: "table_def \<Rightarrow> catalogue \<Rightarrow> foreign_key \<Rightarrow> bool" where
  "fk_valid t c k =
     (set (fk_columns k) \<subseteq> set (col_names t) \<and>
      (case find_table (fk_table k) c of None \<Rightarrow> False | Some r \<Rightarrow> fk_refs k = tab_pk r))"

definition create_table :: "table_def \<Rightarrow> catalogue \<Rightarrow> (ddl_error, catalogue) result" where
  "create_table t c =
     (let c' = c\<lparr>cat_tables := cat_tables c @ [t]\<rparr>
      in if tab_name t \<in> set (relation_names c) \<or> pk_name t \<in> set (relation_names c) \<or> pk_name t = tab_name t
         then Inl DuplicateRelation
         else if \<not> distinct (col_names t) then Inl DuplicateColumn
         else if \<not> set (tab_pk t) \<subseteq> set (col_names t) then Inl UndefinedColumn
         else if \<not> list_all (fk_valid t c') (tab_fks t) then Inl InvalidForeignKey
         else Inr c')"

definition create_index :: "index_def \<Rightarrow> catalogue \<Rightarrow> (ddl_error, catalogue) result" where
  "create_index i c =
     (case find_table (ix_table i) c of
        None \<Rightarrow> Inl UndefinedTable
      | Some t \<Rightarrow>
          if ix_name i \<in> set (relation_names c) then Inl DuplicateRelation
          else if \<not> set (ix_columns i) \<subseteq> set (col_names t) then Inl UndefinedColumn
          else Inr (c\<lparr>cat_indexes := cat_indexes c @ [i]\<rparr>))"

definition drop_index :: "string \<Rightarrow> catalogue \<Rightarrow> (ddl_error, catalogue) result" where
  "drop_index n c =
     (if n \<notin> ix_name ` set (cat_indexes c) then Inl UndefinedObject
      else Inr (c\<lparr>cat_indexes := filter (\<lambda>i. ix_name i \<noteq> n) (cat_indexes c)\<rparr>))"

definition refers_to :: "string \<Rightarrow> table_def \<Rightarrow> bool" where
  "refers_to n t = list_ex (\<lambda>k. fk_table k = n) (tab_fks t)"

definition drop_table :: "string \<Rightarrow> catalogue \<Rightarrow> (ddl_error, catalogue) result" where
  "drop_table n c =
     (if n \<notin> tab_name ` set (cat_tables c) then Inl UndefinedTable
      else if list_ex (\<lambda>t. tab_name t \<noteq> n \<and> refers_to n t) (cat_tables c) then Inl DependentObjectsStillExist
      else Inr (c\<lparr>cat_tables := filter (\<lambda>t. tab_name t \<noteq> n) (cat_tables c),
                  cat_indexes := filter (\<lambda>i. ix_table i \<noteq> n) (cat_indexes c)\<rparr>))"

fun exec :: "ddl \<Rightarrow> catalogue \<Rightarrow> (ddl_error, catalogue) result" where
  "exec (CreateTable t) c = create_table t c"
| "exec (CreateIndex i) c = create_index i c"
| "exec (DropIndex n) c = drop_index n c"
| "exec (DropTable n) c = drop_table n c"

text \<open>A migration is a sequence of operations that stops at the first error.\<close>

fun run_steps :: "('o \<Rightarrow> 'c \<Rightarrow> ('e, 'c) result) \<Rightarrow> 'o list \<Rightarrow> 'c \<Rightarrow> ('e, 'c) result" where
  "run_steps ex [] c = Inr c"
| "run_steps ex (x # xs) c = (case ex x c of Inl e \<Rightarrow> Inl e | Inr c' \<Rightarrow> run_steps ex xs c')"

definition run_ddl :: "ddl list \<Rightarrow> catalogue \<Rightarrow> (ddl_error, catalogue) result" where
  "run_ddl = run_steps exec"

text \<open>\<open>alembic/env.py\<close> runs the migrations in one transaction: an error leaves the catalogue as it was.\<close>

definition do_run_migrations :: "ddl list \<Rightarrow> catalogue \<Rightarrow> ddl_error option \<times> catalogue" where
  "do_run_migrations xs c = (case run_ddl xs c of Inl e \<Rightarrow> (Some e, c) | Inr c' \<Rightarrow> (None, c'))"

section \<open>The migration\<close>

definition users_table :: table_def where
  "users_table =
     \<lparr>tab_name = ''users'',
      tab_columns = [
       \<lparr>col_name = ''id'', col_type_of = SaInteger, col_nullable = False, col_default = None, col_auto = True\<rparr>,
       \<lparr>col_name = ''email'', col_type_of = SaString 320, col_nullable = False, col_default = None, col_auto = False\<rparr>,
       \<lparr>col_name = ''password_hash'', col_type_of = SaString 128, col_nullable = False, col_default = None, col_auto = False\<rparr>,
       \<lparr>col_name = ''is_active'', col_type_of = SaBoolean, col_nullable = False, col_default = Some (SqlText ''true''), col_auto = False\<rparr>,
       \<lparr>col_name = ''created_at'', col_type_of = SaDateTime True, col_nullable = False, col_default = Some (SqlText ''now()''), col_auto = False\<rparr>,
       \<lparr>col_name = ''updated_at'', col_type_of = SaDateTime True, col_nullable = False, col_default = Some (SqlText ''now()''), col_auto = False\<rparr>],
      tab_pk_name = Some ''pk_users'', tab_pk = [''id''], tab_fks = []\<rparr>"

definition users_email_index :: index_def where
  "users_email_index = \<lparr>ix_name = ''ix_users_email'', ix_table = ''users'', ix_columns = [''email''], ix_unique = True\<rparr>"

definition trades_table :: table_def where
  "trades_table =
     \<lparr>tab_name = ''trades'',
      tab_columns = [
       \<lparr>col_name = ''id'', col_type_of = SaInteger, col_nullable = False, col_default = None, col_auto = True\<rparr>,
       \<lparr>col_name = ''user_id'', col_type_of = SaInteger, col_nullable = False, col_default = None, col_auto = False\<rparr>,
       \<lparr>col_name = ''signal_id'', col_type_of = SaString 64, col_nullable = False, col_default = None, col_auto = False\<rparr>,
       \<lparr>col_name = ''client_order_id'', col_type_of = SaString 36, col_nullable = False, col_default = None, col_auto = False\<rparr>,
       \<lparr>col_name = ''symbol'', col_type_of = SaString 20, col_nullable = False, col_default = None, col_auto = False\<rparr>,
       \<lparr>col_name = ''side'', col_type_of = SaEnum ''orderside'' [''BUY'', ''SELL''] 8, col_nullable = False, col_default = None, col_auto = False\<rparr>,
       \<lparr>col_name = ''order_type'', col_type_of = SaString 20, col_nullable = False, col_default = Some (SqlText (CHR 0x27 # ''MARKET'' @ [CHR 0x27])), col_auto = False\<rparr>,
       \<lparr>col_name = ''quantity'', col_type_of = SaNumeric 28 12, col_nullable = False, col_default = None, col_auto = False\<rparr>,
       \<lparr>col_name = ''status'', col_type_of = SaEnum ''tradestatus'' [''PENDING'', ''UNKNOWN'', ''NEW'', ''PARTIALLY_FILLED'', ''FILLED'', ''CANCELLED'', ''REJECTED'', ''EXPIRED'', ''FAILED''] 20, col_nullable = False, col_default = None, col_auto = False\<rparr>,
       \<lparr>col_name = ''binance_order_id'', col_type_of = SaBigInteger, col_nullable = True, col_default = None, col_auto = False\<rparr>,
       \<lparr>col_name = ''binance_status'', col_type_of = SaString 32, col_nullable = True, col_default = None, col_auto = False\<rparr>,
       \<lparr>col_name = ''executed_quantity'', col_type_of = SaNumeric 28 12, col_nullable = True, col_default = None, col_auto = False\<rparr>,
       \<lparr>col_name = ''cumulative_quote_quantity'', col_type_of = SaNumeric 28 12, col_nullable = True, col_default = None, col_auto = False\<rparr>,
       \<lparr>col_name = ''error_code'', col_type_of = SaString 64, col_nullable = True, col_default = None, col_auto = False\<rparr>,
       \<lparr>col_name = ''error_message'', col_type_of = SaText, col_nullable = True, col_default = None, col_auto = False\<rparr>,
       \<lparr>col_name = ''submitted_at'', col_type_of = SaDateTime True, col_nullable = True, col_default = None, col_auto = False\<rparr>,
       \<lparr>col_name = ''reconciled_at'', col_type_of = SaDateTime True, col_nullable = True, col_default = None, col_auto = False\<rparr>,
       \<lparr>col_name = ''created_at'', col_type_of = SaDateTime True, col_nullable = False, col_default = Some (SqlText ''now()''), col_auto = False\<rparr>,
       \<lparr>col_name = ''updated_at'', col_type_of = SaDateTime True, col_nullable = False, col_default = Some (SqlText ''now()''), col_auto = False\<rparr>],
      tab_pk_name = Some ''pk_trades'', tab_pk = [''id''],
      tab_fks = [\<lparr>fk_name = Some ''fk_trades_user_id_users'', fk_columns = [''user_id''], fk_table = ''users'',
                 fk_refs = [''id''], fk_ondelete = Some ''CASCADE''\<rparr>]\<rparr>"

definition trades_indexes :: "index_def list" where
  "trades_indexes =
     [\<lparr>ix_name = ''ix_trades_signal_id'', ix_table = ''trades'', ix_columns = [''signal_id''], ix_unique = True\<rparr>,
      \<lparr>ix_name = ''ix_trades_client_order_id'', ix_table = ''trades'', ix_columns = [''client_order_id''], ix_unique = True\<rparr>,
      \<lparr>ix_name = ''ix_trades_user_id'', ix_table = ''trades'', ix_columns = [''user_id''], ix_unique = False\<rparr>,
      \<lparr>ix_name = ''ix_trades_status'', ix_table = ''trades'', ix_columns = [''status''], ix_unique = False\<rparr>,
      \<lparr>ix_name = ''ix_trades_binance_order_id'', ix_table = ''trades'', ix_columns = [''binance_order_id''], ix_unique = False\<rparr>,
      \<lparr>ix_name = ''ix_trades_created_at'', ix_table = ''trades'', ix_columns = [''created_at''], ix_unique = False\<rparr>,
      \<lparr>ix_name = ''ix_trades_user_id_created_at'', ix_table = ''trades'', ix_columns = [''user_id'', ''created_at''], ix_unique = False\<rparr>,
      \<lparr>ix_name = ''ix_trades_status_created_at'', ix_table = ''trades'', ix_columns = [''status'', ''created_at''], ix_unique = False\<rparr>]"

definition upgrade :: "ddl list" where
  "upgrade =
     [CreateTable users_table, CreateIndex users_email_index, CreateTable trades_table]
     @ map CreateIndex trades_indexes"

definition downgrade :: "ddl list" where
  "downgrade =
     map DropIndex
       [''ix_trades_status_created_at'', ''ix_trades_user_id_created_at'', ''ix_trades_created_at'',
        ''ix_trades_binance_order_id'', ''ix_trades_status'', ''ix_trades_user_id'',
        ''ix_trades_client_order_id'', ''ix_trades_signal_id'']
     @ [DropTable ''trades'', DropIndex ''ix_users_email'', DropTable ''users'']"

section \<open>The models\<close>

text \<open>
  \<open>mapped_column(...)\<close>: the type is the one given, or inferred from the annotation; \<open>mapped n ty\<close> is a
  column that is not nullable and has nothing else.
\<close>

record mapped_column =
  mc_name :: string
  mc_type :: col_type
  mc_pk :: bool
  mc_nullable :: bool
  mc_index :: bool
  mc_unique :: bool
  mc_fk :: "(string \<times> string \<times> string) option"
  mc_default :: "server_default option"

definition mapped :: "string \<Rightarrow> col_type \<Rightarrow> mapped_column" where
  "mapped n ty = \<lparr>mc_name = n, mc_type = ty, mc_pk = False, mc_nullable = False, mc_index = False,
     mc_unique = False, mc_fk = None, mc_default = None\<rparr>"

record model =
  mod_table :: string
  mod_columns :: "mapped_column list"
  mod_args :: "index_def list"

definition timestamp :: "string \<Rightarrow> mapped_column" where
  "timestamp n = (mapped n (SaDateTime True))\<lparr>mc_default := Some (SqlText ''now()'')\<rparr>"

definition User_model :: model where
  "User_model =
     \<lparr>mod_table = ''users'',
      mod_columns =
        [(mapped ''id'' SaInteger)\<lparr>mc_pk := True\<rparr>,
         (mapped ''email'' (SaString 320))\<lparr>mc_unique := True, mc_index := True\<rparr>,
         mapped ''password_hash'' (SaString 128),
         (mapped ''is_active'' SaBoolean)\<lparr>mc_default := Some (SqlString ''true'')\<rparr>,
         timestamp ''created_at'', timestamp ''updated_at''],
      mod_args = []\<rparr>"

definition Trade_model :: model where
  "Trade_model =
     \<lparr>mod_table = ''trades'',
      mod_columns =
        [(mapped ''id'' SaInteger)\<lparr>mc_pk := True\<rparr>,
         (mapped ''user_id'' SaInteger)\<lparr>mc_fk := Some (''users'', ''id'', ''CASCADE''), mc_index := True\<rparr>,
         (mapped ''signal_id'' (SaString 64))\<lparr>mc_unique := True, mc_index := True\<rparr>,
         (mapped ''client_order_id'' (SaString 36))\<lparr>mc_unique := True, mc_index := True\<rparr>,
         mapped ''symbol'' (SaString 20),
         mapped ''side'' (SaEnum ''orderside'' (map side_value [BUY, SELL]) 8),
         (mapped ''order_type'' (SaString 20))\<lparr>mc_default := Some (SqlString ''MARKET'')\<rparr>,
         mapped ''quantity'' (SaNumeric 28 12),
         (mapped ''status'' (SaEnum ''tradestatus'' (map status_value enum_class.enum) 20))\<lparr>mc_index := True\<rparr>,
         (mapped ''binance_order_id'' SaBigInteger)\<lparr>mc_nullable := True, mc_index := True\<rparr>,
         (mapped ''binance_status'' (SaString 32))\<lparr>mc_nullable := True\<rparr>,
         (mapped ''executed_quantity'' (SaNumeric 28 12))\<lparr>mc_nullable := True\<rparr>,
         (mapped ''cumulative_quote_quantity'' (SaNumeric 28 12))\<lparr>mc_nullable := True\<rparr>,
         (mapped ''error_code'' (SaString 64))\<lparr>mc_nullable := True\<rparr>,
         (mapped ''error_message'' SaText)\<lparr>mc_nullable := True\<rparr>,
         (mapped ''submitted_at'' (SaDateTime True))\<lparr>mc_nullable := True\<rparr>,
         (mapped ''reconciled_at'' (SaDateTime True))\<lparr>mc_nullable := True\<rparr>,
         (timestamp ''created_at'')\<lparr>mc_index := True\<rparr>, timestamp ''updated_at''],
      mod_args =
        [\<lparr>ix_name = ''ix_trades_user_id_created_at'', ix_table = ''trades'',
          ix_columns = [''user_id'', ''created_at''], ix_unique = False\<rparr>,
         \<lparr>ix_name = ''ix_trades_status_created_at'', ix_table = ''trades'',
          ix_columns = [''status'', ''created_at''], ix_unique = False\<rparr>]\<rparr>"

text \<open>
  What SQLAlchemy makes of a declaration. Keys are unnamed, \<open>index=True\<close> makes an index named after
  table and column, unique when \<open>unique=True\<close> stands beside it, and a unique column without an index a
  constraint under the server's name. An integer primary key that is no foreign key counts up.
\<close>

definition model_column :: "mapped_column \<Rightarrow> column" where
  "model_column m = \<lparr>col_name = mc_name m, col_type_of = mc_type m, col_nullable = mc_nullable m,
     col_default = mc_default m, col_auto = (mc_pk m \<and> mc_type m = SaInteger \<and> mc_fk m = None)\<rparr>"

definition model_fk :: "mapped_column \<Rightarrow> foreign_key list" where
  "model_fk m = (case mc_fk m of None \<Rightarrow> [] | Some (t, c, act) \<Rightarrow>
     [\<lparr>fk_name = None, fk_columns = [mc_name m], fk_table = t, fk_refs = [c], fk_ondelete = Some act\<rparr>])"

definition model_index :: "string \<Rightarrow> mapped_column \<Rightarrow> index_def list" where
  "model_index t m =
     (if mc_index m then
        [\<lparr>ix_name = ''ix_'' @ t @ ''_'' @ mc_name m, ix_table = t, ix_columns = [mc_name m], ix_unique = mc_unique m\<rparr>]
      else if mc_unique m then
        [\<lparr>ix_name = t @ ''_'' @ mc_name m @ ''_key'', ix_table = t, ix_columns = [mc_name m], ix_unique = True\<rparr>]
      else [])"

definition model_table :: "model \<Rightarrow> table_def" where
  "model_table m = \<lparr>tab_name = mod_table m, tab_columns = map model_column (mod_columns m), tab_pk_name = None,
     tab_pk = map mc_name (filter mc_pk (mod_columns m)), tab_fks = concat (map model_fk (mod_columns m))\<rparr>"

definition model_indexes :: "model \<Rightarrow> index_def list" where
  "model_indexes m = concat (map (model_index (mod_table m)) (mod_columns m)) @ mod_args m"

definition create_all :: "model list \<Rightarrow> ddl list" where
  "create_all ms = concat (map (\<lambda>m. CreateTable (model_table m) # map CreateIndex (model_indexes m)) ms)"

text \<open>What Alembic's comparison looks at: everything but the names of keys and the order of indexes.\<close>

definition column_shape :: "column \<Rightarrow> string \<times> col_type \<times> bool \<times> default_value option option \<times> bool" where
  "column_shape k =
     (col_name k, col_type_of k, col_nullable k, map_option (default_meaning (col_type_of k)) (col_default k), col_auto k)"

definition table_shape :: "table_def \<Rightarrow> _" where
  "table_shape t = (tab_name t, map column_shape (tab_columns t), tab_pk t,
     map (\<lambda>k. (fk_columns k, fk_table k, fk_refs k, fk_ondelete k)) (tab_fks t))"

definition schema_shape :: "catalogue \<Rightarrow> _" where
  "schema_shape c = (map table_shape (cat_tables c), set (cat_indexes c))"

end
