(* ===== verification/Row_Store.thy ===== *)
theory Row_Store
  imports Migration Database
begin

text \<open>
  What a server does with rows under a catalogue: the values a column type stores, NOT NULL, the CHECK of
  an enumeration, unique keys, foreign keys, defaults and counters, and a DELETE with its cascade. All of
  it is driven by the catalogue; nothing here knows the tables of the application.
\<close>

section \<open>Values\<close>

fun numeric_store :: "nat \<Rightarrow> nat \<Rightarrow> decimal \<Rightarrow> decimal option" where
  "numeric_store p s (Fin neg c e) =
     (let q = (if - int s \<le> e then c * 10 ^ nat (e + int s)
               else let k = 10 ^ nat (- int s - e)
                    in if k \<le> 2 * (c mod k) then c div k + 1 else c div k)
      in if q < 10 ^ p then Some (Fin (neg \<and> q \<noteq> 0) q (- int s)) else None)"
| "numeric_store p s (Infinite _) = None"
| "numeric_store p s NaN = Some NaN"

declare numeric_store.simps [simp del]

fun store_val :: "col_type \<Rightarrow> sqlval \<Rightarrow> sqlval option" where
  "store_val _ VNull = Some VNull"
| "store_val SaInteger (VInt i) = (if int32 i then Some (VInt i) else None)"
| "store_val SaBigInteger (VInt i) = (if bigint_ok (Some i) then Some (VInt i) else None)"
| "store_val (SaString n) (VText s) = (if varchar_ok n (Some s) then Some (VText s) else None)"
| "store_val SaText (VText s) = (if nul_free s then Some (VText s) else None)"
| "store_val SaBoolean (VBool b) = Some (VBool b)"
| "store_val (SaDateTime _) (VTime i) = Some (VTime i)"
| "store_val (SaNumeric p s) (VDec d) = map_option VDec (numeric_store p s d)"
| "store_val (SaEnum _ _ n) (VText s) = (if varchar_ok n (Some s) then Some (VText s) else None)"
| "store_val _ _ = None"

fun check_ok :: "col_type \<Rightarrow> sqlval \<Rightarrow> bool" where
  "check_ok (SaEnum _ vs _) (VText s) = (s \<in> set vs)"
| "check_ok _ _ = True"

section \<open>Rows\<close>

type_synonym row = "sqlval list"

record row_store =
  rs_rows :: "string \<Rightarrow> row list"
  rs_next :: "string \<Rightarrow> int"

definition cell :: "table_def \<Rightarrow> row \<Rightarrow> string \<Rightarrow> sqlval" where
  "cell t r n = (case map_of (zip (col_names t) r) n of None \<Rightarrow> VNull | Some v \<Rightarrow> v)"

definition store_cols :: "column list \<Rightarrow> row \<Rightarrow> row option" where
  "store_cols ks r = those (map2 (\<lambda>k. store_val (col_type_of k)) ks r)"

definition unique_keys :: "catalogue \<Rightarrow> table_def \<Rightarrow> string list list" where
  "unique_keys c t = tab_pk t # map ix_columns (filter (\<lambda>i. ix_unique i \<and> ix_table i = tab_name t) (cat_indexes c))"

definition same_key :: "table_def \<Rightarrow> row \<Rightarrow> row \<Rightarrow> string list \<Rightarrow> bool" where
  "same_key t r r' ks = list_all (\<lambda>k. cell t r k \<noteq> VNull \<and> cell t r k = cell t r' k) ks"

definition fk_met :: "catalogue \<Rightarrow> row_store \<Rightarrow> table_def \<Rightarrow> row \<Rightarrow> foreign_key \<Rightarrow> bool" where
  "fk_met c st t r k =
     (list_ex (\<lambda>n. cell t r n = VNull) (fk_columns k) \<or>
      (case find_table (fk_table k) c of
         None \<Rightarrow> False
       | Some u \<Rightarrow> list_ex (\<lambda>r'. map (cell u r') (fk_refs k) = map (cell t r) (fk_columns k)) (rs_rows st (fk_table k))))"

definition row_allowed :: "catalogue \<Rightarrow> row_store \<Rightarrow> table_def \<Rightarrow> row \<Rightarrow> bool" where
  "row_allowed c st t r =
     (list_all2 (\<lambda>k v. (col_nullable k \<or> v \<noteq> VNull) \<and> check_ok (col_type_of k) v) (tab_columns t) r \<and>
      list_all (\<lambda>ks. \<not> list_ex (\<lambda>r'. same_key t r r' ks) (rs_rows st (tab_name t))) (unique_keys c t) \<and>
      list_all (fk_met c st t r) (tab_fks t))"

section \<open>INSERT\<close>

text \<open>The value of a column: the one given, else the counter's, else the server default, else NULL.\<close>

definition column_value :: "int \<Rightarrow> int \<Rightarrow> (string \<times> sqlval) list \<Rightarrow> column \<Rightarrow> sqlval" where
  "column_value now next_id given k =
     (case map_of given (col_name k) of
        Some v \<Rightarrow> v
      | None \<Rightarrow>
          if col_auto k then VInt next_id
          else case col_default k of
                 None \<Rightarrow> VNull
               | Some x \<Rightarrow> (case default_meaning (col_type_of k) x of
                             Some Now \<Rightarrow> VTime now | Some (Const v) \<Rightarrow> v | None \<Rightarrow> VNull))"

definition insert_row ::
  "catalogue \<Rightarrow> int \<Rightarrow> string \<Rightarrow> (string \<times> sqlval) list \<Rightarrow> row_store \<Rightarrow> ((sql_error, row) result \<times> row_store) option"
where
  "insert_row c now n given st =
     (case find_table n c of
        None \<Rightarrow> None
      | Some t \<Rightarrow>
          let r = map (column_value now (rs_next st n) given) (tab_columns t);
              counts = list_ex (\<lambda>k. col_auto k \<and> col_name k \<notin> fst ` set given) (tab_columns t);
              st1 = (if counts then st\<lparr>rs_next := (rs_next st)(n := rs_next st n + 1)\<rparr> else st)
          in Some (case store_cols (tab_columns t) r of
                     None \<Rightarrow> (Inl DataError, st1)
                   | Some s \<Rightarrow>
                       if row_allowed c st t s
                       then (Inr r, st1\<lparr>rs_rows := (rs_rows st)(n := rs_rows st n @ [s])\<rparr>)
                       else (Inl IntegrityError, st1)))"

section \<open>DELETE\<close>

text \<open>
  Deleting rows takes the rows that refer to them along, or is refused where a foreign key has no CASCADE.
  The fuel is the number of tables a chain of cascades may pass.
\<close>

definition referring :: "catalogue \<Rightarrow> string \<Rightarrow> (table_def \<times> foreign_key) list" where
  "referring c n =
     concat (map (\<lambda>t. map (Pair t) (filter (\<lambda>k. fk_table k = n) (tab_fks t))) (cat_tables c))"

definition refers_to_rows :: "table_def \<Rightarrow> row list \<Rightarrow> table_def \<times> foreign_key \<Rightarrow> row \<Rightarrow> bool" where
  "refers_to_rows u gone tk r =
     (let t = fst tk; k = snd tk
      in list_all (\<lambda>n. cell t r n \<noteq> VNull) (fk_columns k) \<and>
         list_ex (\<lambda>g. map (cell u g) (fk_refs k) = map (cell t r) (fk_columns k)) gone)"

fun delete_rows :: "nat \<Rightarrow> catalogue \<Rightarrow> string \<Rightarrow> (row \<Rightarrow> bool) \<Rightarrow> row_store \<Rightarrow> row_store option" where
  "delete_rows 0 c n p st = None"
| "delete_rows (Suc f) c n p st =
     (case find_table n c of
        None \<Rightarrow> None
      | Some u \<Rightarrow>
          let gone = filter p (rs_rows st n);
              st1 = st\<lparr>rs_rows := (rs_rows st)(n := filter (\<lambda>r. \<not> p r) (rs_rows st n))\<rparr>
          in fold (\<lambda>tk acc. case acc of None \<Rightarrow> None | Some s \<Rightarrow>
                let hits = refers_to_rows u gone tk
                in if \<not> list_ex hits (rs_rows s (tab_name (fst tk))) then Some s
                   else if fk_ondelete (snd tk) = Some ''CASCADE'' then delete_rows f c (tab_name (fst tk)) hits s
                   else None)
               (referring c n) (Some st1))"

end
