(* ===== verification/Migration_Contract.thy ===== *)
theory Migration_Contract
  imports Migration "HOL-Library.Multiset"
begin

text \<open>
  What the migration promises. DDL keeps a catalogue well formed and every CREATE is undone by its DROP,
  so \<open>downgrade\<close> takes back \<open>upgrade\<close> on whatever was there before; on an empty database the migration
  makes the schema the models declare.
\<close>

section \<open>Undoing a sequence of operations\<close>

locale undoable =
  fixes ok :: "'c \<Rightarrow> bool" and ex :: "'o \<Rightarrow> 'c \<Rightarrow> ('e, 'c) result" and creates :: "'o \<Rightarrow> bool"
    and inverse :: "'o \<Rightarrow> 'o"
  assumes ex_ok: "ok c \<Longrightarrow> ex x c = Inr c' \<Longrightarrow> ok c'"
    and undo: "ok c \<Longrightarrow> creates x \<Longrightarrow> ex x c = Inr c' \<Longrightarrow> ex (inverse x) c' = Inr c"
begin

lemma run_ok: "ok c \<Longrightarrow> run_steps ex xs c = Inr c' \<Longrightarrow> ok c'"
  by (induction xs arbitrary: c) (auto split: sum.splits intro: ex_ok)

lemma run_append:
  "run_steps ex (xs @ ys) c = (case run_steps ex xs c of Inl e \<Rightarrow> Inl e | Inr c' \<Rightarrow> run_steps ex ys c')"
  by (induction xs arbitrary: c) (auto split: sum.splits)

lemma run_undo:
  assumes "ok c" "list_all creates xs" "run_steps ex xs c = Inr c'"
  shows "run_steps ex (rev (map inverse xs)) c' = Inr c"
  using assms
proof (induction xs arbitrary: c)
  case (Cons x xs)
  then obtain c1 where x: "ex x c = Inr c1" "run_steps ex xs c1 = Inr c'" by (auto split: sum.splits)
  then have "run_steps ex (rev (map inverse xs)) c' = Inr c1" using Cons ex_ok by auto
  then show ?case using undo Cons.prems x by (simp add: run_append)
qed simp

end

section \<open>Well-formed catalogues\<close>

definition table_ok :: "catalogue \<Rightarrow> table_def \<Rightarrow> bool" where
  "table_ok c t = (distinct (col_names t) \<and> set (tab_pk t) \<subseteq> set (col_names t) \<and> list_all (fk_valid t c) (tab_fks t))"

definition index_ok :: "catalogue \<Rightarrow> index_def \<Rightarrow> bool" where
  "index_ok c i = (case find_table (ix_table i) c of None \<Rightarrow> False | Some t \<Rightarrow> set (ix_columns i) \<subseteq> set (col_names t))"

definition cat_ok :: "catalogue \<Rightarrow> bool" where
  "cat_ok c = (distinct (relation_names c) \<and> list_all (table_ok c) (cat_tables c) \<and> list_all (index_ok c) (cat_indexes c))"

lemma cat_ok_empty: "cat_ok empty_catalogue"
  by (simp add: cat_ok_def empty_catalogue_def relation_names_def)

lemma find_append: "find P (xs @ ys) = (case find P xs of None \<Rightarrow> find P ys | Some x \<Rightarrow> Some x)"
  by (induction xs) auto

lemma find_table_grow:
  "find_table n c = Some t \<Longrightarrow> find_table n (c\<lparr>cat_tables := cat_tables c @ ts\<rparr>) = Some t"
  by (simp add: find_table_def find_append)

lemma find_table_indexes [simp]: "find_table n (c\<lparr>cat_indexes := is\<rparr>) = find_table n c"
  by (simp add: find_table_def)

lemma find_table_name: "find_table n c = Some t \<Longrightarrow> t \<in> set (cat_tables c) \<and> tab_name t = n"
  unfolding find_table_def by (auto simp: find_Some_iff)

lemma fk_valid_indexes [simp]: "fk_valid t (c\<lparr>cat_indexes := is\<rparr>) = fk_valid t c"
  by (intro ext) (simp add: fk_valid_def)

lemma fk_valid_grow: "fk_valid t c k \<Longrightarrow> fk_valid t (c\<lparr>cat_tables := cat_tables c @ ts\<rparr>) k"
  using find_table_grow by (auto simp: fk_valid_def split: option.splits)

lemma create_table_ok:
  assumes "cat_ok c" "create_table t c = Inr c'"
  shows "cat_ok c'"
proof -
  have c': "c' = c\<lparr>cat_tables := cat_tables c @ [t]\<rparr>" "tab_name t \<notin> set (relation_names c)"
      "pk_name t \<notin> set (relation_names c)" "pk_name t \<noteq> tab_name t" "table_ok c' t"
    using assms(2) by (auto simp: create_table_def Let_def table_ok_def split: if_splits)
  have "table_ok c' u" if "table_ok c u" for u
    using that fk_valid_grow unfolding c'(1) table_ok_def by (fastforce simp: list_all_iff)
  moreover have "index_ok c' i" if "index_ok c i" for i
    using that find_table_grow unfolding c'(1) index_ok_def by (fastforce split: option.splits)
  moreover have "distinct (relation_names c')"
    using assms(1) c'(2-4) unfolding c'(1) by (auto simp: cat_ok_def relation_names_def)
  ultimately show ?thesis using assms(1) c'(5) by (auto simp: cat_ok_def list_all_iff c'(1))
qed

lemma create_index_ok:
  assumes "cat_ok c" "create_index i c = Inr c'"
  shows "cat_ok c'"
proof -
  obtain t where t: "find_table (ix_table i) c = Some t" "ix_name i \<notin> set (relation_names c)"
      "set (ix_columns i) \<subseteq> set (col_names t)" "c' = c\<lparr>cat_indexes := cat_indexes c @ [i]\<rparr>"
    using assms(2) by (auto simp: create_index_def split: option.splits if_splits)
  have "index_ok c' j \<longleftrightarrow> index_ok c j" "table_ok c' u \<longleftrightarrow> table_ok c u" for j u
    by (simp_all add: t(4) index_ok_def table_ok_def)
  moreover have "index_ok c i" using t by (simp add: index_ok_def)
  ultimately show ?thesis using assms(1) t(2) by (auto simp: cat_ok_def list_all_iff relation_names_def t(4))
qed

lemma distinct_map_filter_left: "distinct (map f xs @ ys) \<Longrightarrow> distinct (map f (filter P xs) @ ys)"
  by (induction xs) auto

lemma drop_index_ok:
  assumes "cat_ok c" "drop_index n c = Inr c'"
  shows "cat_ok c'"
proof -
  have c': "c' = c\<lparr>cat_indexes := filter (\<lambda>i. ix_name i \<noteq> n) (cat_indexes c)\<rparr>"
    using assms(2) by (auto simp: drop_index_def split: if_splits)
  have "index_ok c' j \<longleftrightarrow> index_ok c j" "table_ok c' u \<longleftrightarrow> table_ok c u" for j u
    by (simp_all add: c' index_ok_def table_ok_def)
  then show ?thesis using assms(1)
    by (auto simp: cat_ok_def list_all_iff relation_names_def c' distinct_map_filter)
qed

lemma find_filter_other: "m \<noteq> n \<Longrightarrow> find (\<lambda>t. f t = m) (filter (\<lambda>t. f t \<noteq> n) ts) = find (\<lambda>t. f t = m) ts"
  by (induction ts) auto

lemma find_table_drop:
  "m \<noteq> n \<Longrightarrow> find_table m (c\<lparr>cat_tables := filter (\<lambda>t. tab_name t \<noteq> n) (cat_tables c), cat_indexes := is\<rparr>) = find_table m c"
  by (simp add: find_table_def find_filter_other)

lemma drop_table_ok:
  assumes "cat_ok c" "drop_table n c = Inr c'"
  shows "cat_ok c'"
proof -
  have c': "c' = c\<lparr>cat_tables := filter (\<lambda>t. tab_name t \<noteq> n) (cat_tables c),
                 cat_indexes := filter (\<lambda>i. ix_table i \<noteq> n) (cat_indexes c)\<rparr>"
      "list_all (\<lambda>t. tab_name t \<noteq> n \<longrightarrow> \<not> refers_to n t) (cat_tables c)"
    using assms(2) by (auto simp: drop_table_def list_all_iff list_ex_iff split: if_splits)
  have "table_ok c' u" if "table_ok c u" "\<not> refers_to n u" for u
    using that find_table_drop [where n = n and c = c] unfolding c'(1) table_ok_def fk_valid_def refers_to_def
    by (fastforce simp: list_all_iff list_ex_iff)
  moreover have "index_ok c' i" if "index_ok c i" "ix_table i \<noteq> n" for i
    using that find_table_drop [where n = n and c = c] unfolding c'(1) index_ok_def by simp
  moreover have "distinct (relation_names c')"
    using assms(1) unfolding c'(1) by (auto simp: cat_ok_def relation_names_def distinct_map_filter)
  ultimately show ?thesis using assms(1) c'(2) by (auto simp: cat_ok_def list_all_iff c'(1))
qed

lemma exec_ok: "cat_ok c \<Longrightarrow> exec x c = Inr c' \<Longrightarrow> cat_ok c'"
  by (cases x) (auto intro: create_table_ok create_index_ok drop_index_ok drop_table_ok)

text \<open>Every CREATE, and the DROP that takes it back.\<close>

fun creates :: "ddl \<Rightarrow> bool" where
  "creates (CreateTable _) = True"
| "creates (CreateIndex _) = True"
| "creates _ = False"

fun inverse_ddl :: "ddl \<Rightarrow> ddl" where
  "inverse_ddl (CreateTable t) = DropTable (tab_name t)"
| "inverse_ddl (CreateIndex i) = DropIndex (ix_name i)"
| "inverse_ddl x = x"

lemma filter_other: "n \<notin> f ` set xs \<Longrightarrow> filter (\<lambda>x. f x \<noteq> n) xs = xs"
  by (induction xs) auto

lemma find_table_exists: "find_table n c = Some t \<Longrightarrow> n \<in> tab_name ` set (cat_tables c)"
  using find_table_name by blast

lemma cat_ok_refers:
  assumes "cat_ok c" "t \<in> set (cat_tables c)" "refers_to n t"
  shows "n \<in> tab_name ` set (cat_tables c)"
proof -
  obtain k where k: "k \<in> set (tab_fks t)" "fk_table k = n"
    using assms(3) by (auto simp: refers_to_def list_ex_iff)
  then have "fk_valid t c k" using assms(1,2) by (simp add: cat_ok_def list_all_iff table_ok_def)
  then show ?thesis using k(2) find_table_exists by (simp add: fk_valid_def split: option.splits)
qed

lemma cat_ok_index_table:
  assumes "cat_ok c" "i \<in> set (cat_indexes c)"
  shows "ix_table i \<in> tab_name ` set (cat_tables c)"
proof -
  have "index_ok c i" using assms by (simp add: cat_ok_def list_all_iff)
  then show ?thesis using find_table_exists by (simp add: index_ok_def split: option.splits)
qed

lemma undo_create:
  assumes "cat_ok c" "creates x" "exec x c = Inr c'"
  shows "exec (inverse_ddl x) c' = Inr c"
proof (cases x)
  case (CreateTable t)
  then have c': "c' = c\<lparr>cat_tables := cat_tables c @ [t]\<rparr>" "tab_name t \<notin> tab_name ` set (cat_tables c)"
    using assms(3) by (auto simp: create_table_def Let_def relation_names_def split: if_splits)
  have "\<not> refers_to (tab_name t) u" if "u \<in> set (cat_tables c)" for u
    using cat_ok_refers [OF assms(1) that] c'(2) by blast
  moreover have "tab_name t \<notin> ix_table ` set (cat_indexes c)"
    using cat_ok_index_table [OF assms(1)] c'(2) by fastforce
  ultimately show ?thesis using CreateTable c'
    by (simp add: drop_table_def list_ex_iff filter_other)
next
  case (CreateIndex i)
  then have "c' = c\<lparr>cat_indexes := cat_indexes c @ [i]\<rparr>" "ix_name i \<notin> ix_name ` set (cat_indexes c)"
    using assms(3) by (auto simp: create_index_def relation_names_def split: option.splits if_splits)
  then show ?thesis using CreateIndex by (simp add: drop_index_def filter_other)
qed (use assms(2) in simp_all)

interpretation migration: undoable cat_ok exec creates inverse_ddl
  by unfold_locales (rule exec_ok undo_create; assumption)+

section \<open>The migration runs, or changes nothing\<close>

text \<open>The names the migration takes, and the catalogue it leaves.\<close>

definition schema_names :: "string list" where
  "schema_names = [''users'', ''trades'', ''pk_users'', ''pk_trades'', ''ix_users_email''] @ map ix_name trades_indexes"

definition upgraded :: "catalogue \<Rightarrow> catalogue" where
  "upgraded c = \<lparr>cat_tables = cat_tables c @ [users_table, trades_table],
     cat_indexes = cat_indexes c @ users_email_index # trades_indexes\<rparr>"

fun grow :: "ddl \<Rightarrow> catalogue \<Rightarrow> catalogue" where
  "grow (CreateTable t) c = c\<lparr>cat_tables := cat_tables c @ [t]\<rparr>"
| "grow (CreateIndex i) c = c\<lparr>cat_indexes := cat_indexes c @ [i]\<rparr>"
| "grow _ c = c"

lemma exec_grows: "creates x \<Longrightarrow> exec x c = Inr c' \<Longrightarrow> c' = grow x c"
  by (cases x) (auto simp: create_table_def create_index_def Let_def split: if_splits option.splits)

lemma run_grows: "list_all creates xs \<Longrightarrow> run_steps exec xs c = Inr c' \<Longrightarrow> c' = fold grow xs c"
  by (induction xs arbitrary: c) (auto split: sum.splits dest: exec_grows)

lemma upgrade_creates: "list_all creates upgrade"
  by (simp add: upgrade_def list_all_iff)

lemma grow_indexes: "fold grow (map CreateIndex is) c = c\<lparr>cat_indexes := cat_indexes c @ is\<rparr>"
  by (induction "is" arbitrary: c) simp_all

lemma upgrade_grows: "fold grow upgrade c = upgraded c"
  by (simp add: upgrade_def upgraded_def grow_indexes)

lemma downgrade_reverses: "downgrade = rev (map inverse_ddl upgrade)"
  by (simp add: downgrade_def upgrade_def trades_indexes_def users_table_def trades_table_def users_email_index_def)

lemma upgraded_names: "mset (relation_names (upgraded c)) = mset (schema_names @ relation_names c)"
  by (simp add: relation_names_def upgraded_def schema_names_def users_table_def trades_table_def pk_name_def
      users_email_index_def)

lemma schema_names_distinct: "distinct schema_names"
  by (simp add: schema_names_def trades_indexes_def)

lemma create_table_runs:
  assumes "tab_name t \<notin> set (relation_names c)" "pk_name t \<notin> set (relation_names c)" "pk_name t \<noteq> tab_name t"
    "table_ok (grow (CreateTable t) c) t"
  shows "create_table t c = Inr (grow (CreateTable t) c)"
  using assms by (simp add: create_table_def table_ok_def)

lemma create_indexes_run:
  assumes "find_table n c = Some t" "list_all (\<lambda>i. ix_table i = n \<and> set (ix_columns i) \<subseteq> set (col_names t)) is"
    "distinct (map ix_name is)" "set (map ix_name is) \<inter> set (relation_names c) = {}"
  shows "run_steps exec (map CreateIndex is) c = Inr (c\<lparr>cat_indexes := cat_indexes c @ is\<rparr>)"
  using assms
proof (induction "is" arbitrary: c)
  case (Cons i "is")
  let ?c = "c\<lparr>cat_indexes := cat_indexes c @ [i]\<rparr>"
  have "create_index i c = Inr ?c" using Cons.prems by (simp add: create_index_def)
  moreover have "run_steps exec (map CreateIndex is) ?c = Inr (?c\<lparr>cat_indexes := cat_indexes ?c @ is\<rparr>)"
    using Cons.prems by (intro Cons.IH) (auto simp: relation_names_def)
  ultimately show ?case by simp
qed simp

lemma find_none: "n \<notin> f ` set xs \<Longrightarrow> find (\<lambda>x. f x = n) xs = None"
  by (induction xs) auto

lemma find_table_new:
  assumes "tab_name t \<notin> set (relation_names c)"
  shows "find_table (tab_name t) (grow (CreateTable t) c) = Some t"
  using assms by (simp add: find_table_def find_append find_none relation_names_def)

lemma upgrade_runs:
  assumes "set schema_names \<inter> set (relation_names c) = {}"
  shows "run_steps exec upgrade c = Inr (upgraded c)"
proof -
  let ?c1 = "grow (CreateTable users_table) c"
  let ?c2 = "?c1\<lparr>cat_indexes := cat_indexes ?c1 @ [users_email_index]\<rparr>"
  let ?c3 = "grow (CreateTable trades_table) ?c2"
  have fresh: "n \<notin> set (relation_names c)" if "n \<in> set schema_names" for n using assms that by blast
  note names = fresh [of "''users''"] fresh [of "''pk_users''"] fresh [of "''trades''"] fresh [of "''pk_trades''"]
    fresh [of "''ix_users_email''"]
  have u: "create_table users_table c = Inr ?c1"
    by (rule create_table_runs) (use names in \<open>simp_all add: users_table_def pk_name_def table_ok_def col_names_def schema_names_def\<close>)
  have f1: "find_table ''users'' ?c1 = Some users_table"
    using find_table_new [of users_table c] names by (simp add: users_table_def schema_names_def)
  have e: "create_index users_email_index ?c1 = Inr ?c2"
    using f1 names
    by (simp add: create_index_def users_email_index_def relation_names_def users_table_def pk_name_def
        col_names_def schema_names_def)
  have r2: "n \<notin> set (relation_names ?c2)" if "n = ''trades'' \<or> n = ''pk_trades''" for n
    using that names
    by (auto simp: relation_names_def users_table_def pk_name_def users_email_index_def schema_names_def)
  have f2: "find_table ''users'' ?c3 = Some users_table"
    using find_table_grow [of "''users''" ?c2 users_table "[trades_table]"] f1 by (simp only: grow.simps find_table_indexes)
  have "list_all (fk_valid trades_table ?c3) (tab_fks trades_table)"
    using f2 unfolding fk_valid_def by (simp add: trades_table_def users_table_def col_names_def)
  then have t: "create_table trades_table ?c2 = Inr ?c3"
    by (intro create_table_runs) (use r2 in \<open>simp_all add: trades_table_def pk_name_def table_ok_def col_names_def\<close>)
  have f3: "find_table ''trades'' ?c3 = Some trades_table"
    using find_table_new [of trades_table ?c2] r2 by (simp add: trades_table_def)
  have "run_steps exec (map CreateIndex trades_indexes) ?c3 = Inr (?c3\<lparr>cat_indexes := cat_indexes ?c3 @ trades_indexes\<rparr>)"
  proof (rule create_indexes_run [OF f3])
    have "set (map ix_name trades_indexes) \<inter> set (relation_names c) = {}" using assms by (auto simp: schema_names_def)
    then show "set (map ix_name trades_indexes) \<inter> set (relation_names ?c3) = {}"
      by (auto simp: relation_names_def users_table_def trades_table_def pk_name_def users_email_index_def trades_indexes_def)
  qed (simp_all add: trades_indexes_def trades_table_def col_names_def)
  then show ?thesis using u e t by (simp add: upgrade_def upgraded_def)
qed

lemma run_upgrade_iff:
  assumes "cat_ok c"
  shows "run_steps exec upgrade c = Inr c' \<longleftrightarrow> c' = upgraded c \<and> set schema_names \<inter> set (relation_names c) = {}"
proof
  assume r: "run_steps exec upgrade c = Inr c'"
  then have "c' = upgraded c" using run_grows [OF upgrade_creates] by (simp add: upgrade_grows)
  moreover have "cat_ok c'" by (rule migration.run_ok [OF assms r])
  ultimately have "distinct (schema_names @ relation_names c)"
    using mset_eq_imp_distinct_iff [OF upgraded_names] by (simp add: cat_ok_def)
  with \<open>c' = upgraded c\<close> show "c' = upgraded c \<and> set schema_names \<inter> set (relation_names c) = {}" by simp
qed (use upgrade_runs in simp)

text \<open>
  C33. The migration either finds one of its names taken and changes nothing, or adds the two tables with
  their indexes behind what was there; \<open>downgrade\<close> then restores exactly what was there before.
\<close>

theorem migration_roundtrip:
  assumes "cat_ok c"
  shows "if set schema_names \<inter> set (relation_names c) = {}
     then do_run_migrations upgrade c = (None, upgraded c) \<and> cat_ok (upgraded c) \<and>
          do_run_migrations downgrade (upgraded c) = (None, c)
     else \<exists>e. do_run_migrations upgrade c = (Some e, c)"
proof (cases "set schema_names \<inter> set (relation_names c) = {}")
  case True
  then have r: "run_steps exec upgrade c = Inr (upgraded c)" by (rule upgrade_runs)
  show ?thesis
    using True r migration.run_ok [OF assms r] migration.run_undo [OF assms upgrade_creates r]
    by (simp add: do_run_migrations_def run_ddl_def downgrade_reverses)
next
  case False
  then obtain e where "run_steps exec upgrade c = Inl e"
    using run_upgrade_iff [OF assms] by (cases "run_steps exec upgrade c") auto
  then show ?thesis using False by (simp add: do_run_migrations_def run_ddl_def)
qed

text \<open>A database with a table of its own, as \<open>alembic_version\<close> is; and the migration run twice.\<close>

definition versioned_catalogue :: catalogue where
  "versioned_catalogue = empty_catalogue\<lparr>cat_tables :=
     [\<lparr>tab_name = ''alembic_version'',
       tab_columns = [\<lparr>col_name = ''version_num'', col_type_of = SaString 32, col_nullable = False,
                       col_default = None, col_auto = False\<rparr>],
       tab_pk_name = Some ''alembic_version_pkc'', tab_pk = [''version_num''], tab_fks = []\<rparr>]\<rparr>"

lemma versioned_catalogue_ok: "cat_ok versioned_catalogue"
  by (simp add: cat_ok_def versioned_catalogue_def empty_catalogue_def relation_names_def table_ok_def col_names_def
      pk_name_def)

lemma versioned_catalogue_fresh: "set schema_names \<inter> set (relation_names versioned_catalogue) = {}"
  by (simp add: versioned_catalogue_def empty_catalogue_def relation_names_def schema_names_def trades_indexes_def
      pk_name_def)

theorem migration_roundtrip_witness:
  "do_run_migrations upgrade versioned_catalogue = (None, upgraded versioned_catalogue) \<and>
   do_run_migrations downgrade (upgraded versioned_catalogue) = (None, versioned_catalogue)"
  using migration_roundtrip [OF versioned_catalogue_ok] versioned_catalogue_fresh by simp

text \<open>
  C34. On an empty database the migration, written by hand, makes the schema that the models declare:
  the same tables, columns, types, defaults, keys, cascades and indexes.
\<close>

theorem migration_makes_the_models_schema:
  "\<exists>c c'. run_ddl upgrade empty_catalogue = Inr c \<and>
     run_ddl (create_all [User_model, Trade_model]) empty_catalogue = Inr c' \<and>
     schema_shape c = schema_shape c'"
proof -
  have "run_ddl upgrade empty_catalogue = Inr (upgraded empty_catalogue)"
    unfolding run_ddl_def by (rule upgrade_runs) (simp add: relation_names_def empty_catalogue_def)
  moreover have "case run_ddl (create_all [User_model, Trade_model]) empty_catalogue of
      Inl e \<Rightarrow> False | Inr c' \<Rightarrow> schema_shape (upgraded empty_catalogue) = schema_shape c'"
    by code_simp
  ultimately show ?thesis by (auto split: sum.splits)
qed

end
