(* ===== verification/Schema_Refinement.thy ===== *)
theory Schema_Refinement
  imports Row_Store Migration_Contract Fixtures
begin

text \<open>
  The statements of theory Database are what the migrated schema makes of an INSERT. \<open>tables_of\<close> maps the
  tables of theory Database to rows of values; under it \<open>insert_trade\<close> and \<open>insert_user\<close> are the INSERT that
  theory Row_Store derives from the catalogue, with every column type, NOT NULL, CHECK, unique index and
  foreign key of the migration. Deleting a user takes the trades along and keeps the tables intact.
\<close>

section \<open>Rows of the application\<close>

definition nullable :: "('a \<Rightarrow> sqlval) \<Rightarrow> 'a option \<Rightarrow> sqlval" where
  "nullable f x = (case x of None \<Rightarrow> VNull | Some a \<Rightarrow> f a)"

definition user_row :: "user \<Rightarrow> row" where
  "user_row u = [VInt (u_id u), VText (email u), VText (password_hash u), VBool (is_active u),
     VTime (u_created_at u), VTime (u_updated_at u)]"

definition trade_row :: "trade \<Rightarrow> row" where
  "trade_row t =
     [VInt (t_id t), VInt (user_id t), VText (signal_id t), VText (client_order_id t), VText (symbol t),
      VText (side_value (side t)), VText (order_type t), VDec (quantity t), VText (status_value (status t)),
      nullable VInt (binance_order_id t), nullable VText (binance_status t), nullable VDec (executed_quantity t),
      nullable VDec (cumulative_quote_quantity t), nullable VText (error_code t), nullable VText (error_message t),
      nullable VTime (submitted_at t), nullable VTime (reconciled_at t), VTime (created_at t), VTime (updated_at t)]"

definition tables_of :: "db \<Rightarrow> row_store" where
  "tables_of d =
     \<lparr>rs_rows = (\<lambda>n. if n = ''users'' then map user_row (users d)
                     else if n = ''trades'' then map trade_row (trades d) else []),
      rs_next = (\<lambda>n. if n = ''users'' then user_seq d else if n = ''trades'' then trade_seq d else 1)\<rparr>"

text \<open>What the mapped objects hand to an INSERT: every column but the counted id.\<close>

definition user_values :: "user \<Rightarrow> (string \<times> sqlval) list" where
  "user_values u = tl (zip (col_names users_table) (user_row u))"

definition trade_values :: "trade \<Rightarrow> (string \<times> sqlval) list" where
  "trade_values t = tl (zip (col_names trades_table) (trade_row t))"

definition trades_fk :: foreign_key where
  "trades_fk = \<lparr>fk_name = Some ''fk_trades_user_id_users'', fk_columns = [''user_id''], fk_table = ''users'',
     fk_refs = [''id''], fk_ondelete = Some ''CASCADE''\<rparr>"

section \<open>The schema in a catalogue\<close>

definition schema_in :: "catalogue \<Rightarrow> bool" where
  "schema_in c =
     (find_table ''users'' c = Some users_table \<and> find_table ''trades'' c = Some trades_table \<and>
      unique_keys c users_table = [[''id''], [''email'']] \<and>
      unique_keys c trades_table = [[''id''], [''signal_id''], [''client_order_id'']] \<and>
      referring c ''users'' = [(trades_table, trades_fk)] \<and> referring c ''trades'' = [])"

lemma filter_none: "n \<notin> f ` set xs \<Longrightarrow> filter (\<lambda>x. P x \<and> f x = n) xs = []"
  by (auto simp: filter_empty_conv)

lemma referring_none:
  assumes "cat_ok c" "n \<notin> tab_name ` set (cat_tables c)"
  shows "referring c n = []"
proof -
  have "filter (\<lambda>k. fk_table k = n) (tab_fks t) = []" if "t \<in> set (cat_tables c)" for t
    using cat_ok_refers [OF assms(1) that, of n] assms(2) by (auto simp: refers_to_def list_ex_iff filter_empty_conv)
  then show ?thesis by (simp add: referring_def)
qed

lemma schema_in_upgraded:
  assumes "cat_ok c" "set schema_names \<inter> set (relation_names c) = {}"
  shows "schema_in (upgraded c)"
proof -
  have new: "n \<notin> tab_name ` set (cat_tables c)" if "n = ''users'' \<or> n = ''trades''" for n
  proof -
    have "n \<in> set schema_names" using that by (auto simp: schema_names_def)
    then have "n \<notin> set (relation_names c)" using assms(2) by blast
    then show ?thesis by (simp add: relation_names_def)
  qed
  then have f: "find_table n (upgraded c) = find (\<lambda>t. tab_name t = n) [users_table, trades_table]"
    if "n = ''users'' \<or> n = ''trades''" for n
    using new [OF that] by (simp add: find_table_def upgraded_def find_append find_none)
  have i: "filter (\<lambda>i. ix_unique i \<and> ix_table i = n) (cat_indexes c) = []" if "n = ''users'' \<or> n = ''trades''" for n
    using new [OF that] cat_ok_index_table [OF assms(1)] by (intro filter_none) blast
  have "find_table ''users'' (upgraded c) = Some users_table" "find_table ''trades'' (upgraded c) = Some trades_table"
    using f by (simp_all add: users_table_def trades_table_def)
  moreover have "unique_keys (upgraded c) users_table = [[''id''], [''email'']]"
    "unique_keys (upgraded c) trades_table = [[''id''], [''signal_id''], [''client_order_id'']]"
    using i by (simp_all add: unique_keys_def upgraded_def users_table_def trades_table_def users_email_index_def
        trades_indexes_def)
  moreover have "referring (upgraded c) n = referring c n @ referring \<lparr>cat_tables = [users_table, trades_table], cat_indexes = []\<rparr> n" for n
    by (simp add: referring_def upgraded_def)
  ultimately show ?thesis
    using new referring_none [OF assms(1)]
    by (simp add: schema_in_def referring_def users_table_def trades_table_def trades_fk_def)
qed

section \<open>Column types\<close>

lemma numeric_store_28_12: "numeric_store 28 12 d = numeric_28_12 d"
  by (cases d) (simp_all add: numeric_store.simps numeric_28_12.simps Let_def)

lemma those_None: "None \<in> set xs \<Longrightarrow> those xs = None"
  by (induction xs) (auto split: option.splits)

lemma status_check: "status_value s \<in> {''PENDING'', ''UNKNOWN'', ''NEW'', ''PARTIALLY_FILLED'', ''FILLED'',
     ''CANCELLED'', ''REJECTED'', ''EXPIRED'', ''FAILED''}"
  by (cases s) simp_all

lemma side_check: "side_value s \<in> {''BUY'', ''SELL''}"
  by (cases s) simp_all

lemma enum_texts: "varchar_ok 20 (Some (status_value s))" "varchar_ok 8 (Some (side_value x))"
  by (cases s; simp add: varchar_ok_def) (cases x; simp add: varchar_ok_def)

lemma store_nullable:
  "store_val (SaNumeric 28 12) (nullable VDec x) = map_option (nullable VDec) (numeric_opt x)"
  "store_val SaBigInteger (nullable VInt i) = (if bigint_ok i then Some (nullable VInt i) else None)"
  "store_val (SaString n) (nullable VText s) = (if varchar_ok n s then Some (nullable VText s) else None)"
  "store_val SaText (nullable VText s) = (if text_ok s then Some (nullable VText s) else None)"
  "store_val (SaDateTime b) (nullable VTime j) = Some (nullable VTime j)"
  by (auto simp: nullable_def numeric_opt_def numeric_store_28_12 bigint_ok_def varchar_ok_def text_ok_def option.map_comp o_def
      split: option.splits)

lemma trade_columns_store:
  assumes "int32 (t_id t)" "int32 (user_id t)"
  shows "map2 (\<lambda>k. store_val (col_type_of k)) (tab_columns trades_table) (trade_row t) =
    [Some (VInt (t_id t)), Some (VInt (user_id t)),
     if varchar_ok 64 (Some (signal_id t)) then Some (VText (signal_id t)) else None,
     if varchar_ok 36 (Some (client_order_id t)) then Some (VText (client_order_id t)) else None,
     if varchar_ok 20 (Some (symbol t)) then Some (VText (symbol t)) else None,
     Some (VText (side_value (side t))),
     if varchar_ok 20 (Some (order_type t)) then Some (VText (order_type t)) else None,
     map_option VDec (numeric_28_12 (quantity t)), Some (VText (status_value (status t))),
     if bigint_ok (binance_order_id t) then Some (nullable VInt (binance_order_id t)) else None,
     if varchar_ok 32 (binance_status t) then Some (nullable VText (binance_status t)) else None,
     map_option (nullable VDec) (numeric_opt (executed_quantity t)),
     map_option (nullable VDec) (numeric_opt (cumulative_quote_quantity t)),
     if varchar_ok 64 (error_code t) then Some (nullable VText (error_code t)) else None,
     if text_ok (error_message t) then Some (nullable VText (error_message t)) else None,
     Some (nullable VTime (submitted_at t)),
     Some (nullable VTime (reconciled_at t)), Some (VTime (created_at t)), Some (VTime (updated_at t))]"
  using assms by (simp add: trades_table_def trade_row_def store_nullable numeric_store_28_12 enum_texts)

lemma trade_row_stored:
  assumes "int32 (t_id t)" "int32 (user_id t)"
  shows "store_cols (tab_columns trades_table) (trade_row t) = map_option trade_row (store_row t)"
proof (cases "store_row t")
  case None
  then have "None \<in> set (map2 (\<lambda>k. store_val (col_type_of k)) (tab_columns trades_table) (trade_row t))"
    unfolding trade_columns_store [OF assms] by (auto simp: store_row_def split: if_splits option.splits)
  then show ?thesis using None by (simp add: store_cols_def those_None)
next
  case (Some r)
  obtain q x y where q: "numeric_28_12 (quantity t) = Some q" "numeric_opt (executed_quantity t) = Some x"
      "numeric_opt (cumulative_quote_quantity t) = Some y"
      "r = t\<lparr>quantity := q, executed_quantity := x, cumulative_quote_quantity := y\<rparr>"
    using Some by (auto simp: store_row_def split: if_splits option.splits)
  have "varchar_ok 64 (Some (signal_id t))" "varchar_ok 36 (Some (client_order_id t))" "varchar_ok 20 (Some (symbol t))"
      "varchar_ok 20 (Some (order_type t))" "bigint_ok (binance_order_id t)" "varchar_ok 32 (binance_status t)"
      "varchar_ok 64 (error_code t)" "text_ok (error_message t)"
    using Some by (auto simp: store_row_def split: if_splits)
  then show ?thesis unfolding store_cols_def trade_columns_store [OF assms] using Some q by (simp add: trade_row_def)
qed

lemma user_row_stored:
  assumes "int32 (u_id u)"
  shows "store_cols (tab_columns users_table) (user_row u) =
    (if varchar_ok 320 (Some (email u)) \<and> varchar_ok 128 (Some (password_hash u)) then Some (user_row u) else None)"
  using assms by (simp add: store_cols_def users_table_def user_row_def)

section \<open>Constraints\<close>

lemma user_cells [simp]:
  "cell users_table (user_row u) ''id'' = VInt (u_id u)" "cell users_table (user_row u) ''email'' = VText (email u)"
  by (simp_all add: cell_def users_table_def user_row_def col_names_def)

lemma trade_cells [simp]:
  "cell trades_table (trade_row t) ''id'' = VInt (t_id t)"
  "cell trades_table (trade_row t) ''user_id'' = VInt (user_id t)"
  "cell trades_table (trade_row t) ''signal_id'' = VText (signal_id t)"
  "cell trades_table (trade_row t) ''client_order_id'' = VText (client_order_id t)"
  by (simp_all add: cell_def trades_table_def trade_row_def col_names_def)

lemma tables_of_rows [simp]:
  "rs_rows (tables_of d) ''users'' = map user_row (users d)" "rs_rows (tables_of d) ''trades'' = map trade_row (trades d)"
  "rs_next (tables_of d) ''users'' = user_seq d" "rs_next (tables_of d) ''trades'' = trade_seq d"
  by (simp_all add: tables_of_def)

lemma list_ex_map: "list_ex P (map f xs) = list_ex (\<lambda>x. P (f x)) xs"
  by (induction xs) simp_all

lemma list_ex_image:
  "list_ex (\<lambda>x. k = f x) xs \<longleftrightarrow> k \<in> f ` set xs" "list_ex (\<lambda>x. f x = k) xs \<longleftrightarrow> k \<in> f ` set xs"
  by (induction xs) auto

lemma user_row_shape:
  "list_all2 (\<lambda>k v. (col_nullable k \<or> v \<noteq> VNull) \<and> check_ok (col_type_of k) v) (tab_columns users_table) (user_row u)"
  by (simp add: users_table_def user_row_def)

lemma trade_row_shape:
  "list_all2 (\<lambda>k v. (col_nullable k \<or> v \<noteq> VNull) \<and> check_ok (col_type_of k) v) (tab_columns trades_table) (trade_row t)"
  using status_check [of "status t"] side_check [of "side t"] by (simp add: trades_table_def trade_row_def)

lemma user_row_allowed:
  assumes "schema_in c"
  shows "row_allowed c (tables_of d) users_table (user_row u) \<longleftrightarrow>
    u_id u \<notin> u_id ` set (users d) \<and> email u \<notin> email ` set (users d)"
proof -
  have "tab_name users_table = ''users''" "tab_fks users_table = []" by (simp_all add: users_table_def)
  then show ?thesis using assms
    by (simp add: row_allowed_def schema_in_def user_row_shape same_key_def list_ex_map list_ex_image)
qed

lemma trade_row_allowed:
  assumes "schema_in c"
  shows "row_allowed c (tables_of d) trades_table (trade_row t) \<longleftrightarrow>
    t_id t \<notin> t_id ` set (trades d) \<and> signal_id t \<notin> signal_id ` set (trades d) \<and>
    client_order_id t \<notin> client_order_id ` set (trades d) \<and> user_id t \<in> u_id ` set (users d)"
proof -
  have t: "tab_name trades_table = ''trades''" "tab_fks trades_table = [trades_fk]"
    by (simp_all add: trades_table_def trades_fk_def)
  have "fk_met c (tables_of d) trades_table (trade_row t) trades_fk \<longleftrightarrow> user_id t \<in> u_id ` set (users d)"
    using assms by (simp add: fk_met_def schema_in_def trades_fk_def list_ex_map) (simp add: list_ex_image)
  with t show ?thesis using assms
    by (simp add: row_allowed_def schema_in_def trade_row_shape same_key_def list_ex_map list_ex_image)
qed

section \<open>The statements refine the schema\<close>

lemma user_values_row:
  "map (column_value now n (user_values u)) (tab_columns users_table) = user_row (u\<lparr>u_id := n\<rparr>)"
  by (simp add: user_values_def users_table_def col_names_def user_row_def column_value_def)

lemma trade_values_row:
  "map (column_value now n (trade_values t)) (tab_columns trades_table) = trade_row (t\<lparr>t_id := n\<rparr>)"
  by (simp add: trade_values_def trades_table_def col_names_def trade_row_def column_value_def)

lemma ids_counted:
  "list_ex (\<lambda>k. col_auto k \<and> col_name k \<notin> fst ` set (user_values u)) (tab_columns users_table)"
  "list_ex (\<lambda>k. col_auto k \<and> col_name k \<notin> fst ` set (trade_values t)) (tab_columns trades_table)"
  by (simp_all add: user_values_def users_table_def col_names_def user_row_def
      trade_values_def trades_table_def trade_row_def)

lemma tables_of_updates:
  "(tables_of d)\<lparr>rs_next := (rs_next (tables_of d))(''users'' := n)\<rparr> = tables_of (d\<lparr>user_seq := n\<rparr>)"
  "(tables_of d)\<lparr>rs_next := (rs_next (tables_of d))(''trades'' := n)\<rparr> = tables_of (d\<lparr>trade_seq := n\<rparr>)"
  "(tables_of d)\<lparr>rs_rows := (rs_rows (tables_of e))(''users'' := map user_row us)\<rparr> =
     tables_of (d\<lparr>users := us, trades := trades e\<rparr>)"
  "(tables_of d)\<lparr>rs_rows := (rs_rows (tables_of e))(''trades'' := map trade_row ts)\<rparr> =
     tables_of (d\<lparr>users := users e, trades := ts\<rparr>)"
  by (auto simp: tables_of_def fun_eq_iff)

lemma insert_user_refines:
  assumes "schema_in c" "db_ok d" "int32 (user_seq d)"
  shows "insert_row c now ''users'' (user_values u) (tables_of d) =
    Some (map_prod (map_sum id user_row) tables_of (insert_user u d))"
proof -
  have "user_seq d \<notin> u_id ` set (users d)" using assms(2) by (auto simp: db_ok_def list_all_iff)
  moreover have "find_table ''users'' c = Some users_table" using assms(1) by (simp add: schema_in_def)
  ultimately show ?thesis
    using assms ids_counted(1) [of u] tables_of_updates(3) [where e = d and d = "d\<lparr>user_seq := n\<rparr>" for n, of "users d @ [x]" for x]
    by (simp add: insert_row_def insert_user_def Let_def user_values_row user_row_stored user_row_allowed tables_of_updates(1)
        del: fun_upd_apply)
qed

lemma insert_trade_refines:
  assumes "schema_in c" "db_ok d" "int32 (trade_seq d)" "int32 (user_id t)"
  shows "insert_row c now ''trades'' (trade_values t) (tables_of d) =
    Some (map_prod (map_sum id trade_row) tables_of (insert_trade t d))"
proof -
  let ?r = "t\<lparr>t_id := trade_seq d\<rparr>"
  have n: "trade_seq d \<notin> t_id ` set (trades d)" using assms(2) by (auto simp: db_ok_def list_all_iff)
  have f: "find_table ''trades'' c = Some trades_table" using assms(1) by (simp add: schema_in_def)
  show ?thesis
  proof (cases "store_row ?r")
    case None
    then show ?thesis using assms f ids_counted(2) [of t]
      by (simp add: insert_row_def insert_trade_def Let_def trade_values_row trade_row_stored tables_of_updates(2))
  next
    case (Some s)
    then have "row_allowed c (tables_of d) trades_table (trade_row s) \<longleftrightarrow>
        \<not> (user_id t \<notin> u_id ` set (users d) \<or> signal_id t \<in> signal_id ` set (trades d) \<or>
           client_order_id t \<in> client_order_id ` set (trades d))"
      using n by (auto simp: trade_row_allowed [OF assms(1)] store_row_keeps [OF Some])
    then show ?thesis using assms f ids_counted(2) [of t] Some
        tables_of_updates(4) [where e = d and d = "d\<lparr>trade_seq := n\<rparr>" for n, of "trades d @ [x]" for x]
      by (simp add: insert_row_def insert_trade_def Let_def trade_values_row trade_row_stored tables_of_updates(2))
  qed
qed

section \<open>Deleting a user\<close>

text \<open>\<open>ondelete="CASCADE"\<close>: the trades of a deleted user go with the account, and the tables stay intact.\<close>

definition delete_user :: "int \<Rightarrow> db \<Rightarrow> db" where
  "delete_user uid d =
     d\<lparr>users := filter (\<lambda>u. u_id u \<noteq> uid) (users d), trades := filter (\<lambda>t. user_id t \<noteq> uid) (trades d)\<rparr>"

lemma delete_user_ok: "db_ok d \<Longrightarrow> db_ok (delete_user uid d)"
  by (auto simp: db_ok_def trades_ok_def users_ok_def delete_user_def list_all_iff distinct_map_filter)

lemma filter_map_rows: "filter P (map f xs) = map f (filter (\<lambda>x. P (f x)) xs)"
  by (simp add: filter_map o_def)

lemma user_deletion_cascades:
  assumes "schema_in c" "db_ok d"
  shows "delete_rows (Suc (Suc f)) c ''users'' (\<lambda>r. cell users_table r ''id'' = VInt uid) (tables_of d) =
    Some (tables_of (delete_user uid d))"
proof -
  let ?gone = "map user_row (filter (\<lambda>u. u_id u = uid) (users d))"
  have c: "find_table ''users'' c = Some users_table" "find_table ''trades'' c = Some trades_table"
      "referring c ''users'' = [(trades_table, trades_fk)]" "referring c ''trades'' = []"
    using assms(1) by (simp_all add: schema_in_def)
  have n: "tab_name trades_table = ''trades''" by (simp add: trades_table_def)
  have hits: "refers_to_rows users_table ?gone (trades_table, trades_fk) (trade_row t) \<longleftrightarrow> user_id t = uid"
    if "t \<in> set (trades d)" for t
  proof -
    have "user_id t \<in> u_id ` set (users d)" using that assms(2) by (simp add: db_ok_def list_all_iff)
    then obtain g where "g \<in> set (users d)" "u_id g = user_id t" by (metis imageE)
    then show ?thesis by (auto simp: refers_to_rows_def trades_fk_def list_ex_iff)
  qed
  let ?d = "d\<lparr>users := filter (\<lambda>u. u_id u \<noteq> uid) (users d)\<rparr>"
  have st: "(tables_of d)\<lparr>rs_rows := (rs_rows (tables_of d))(''users'' := map user_row (filter (\<lambda>u. u_id u \<noteq> uid) (users d)))\<rparr> =
      tables_of ?d"
    using tables_of_updates(3) [where d = d and e = d] by simp
  have kept: "filter (\<lambda>r. \<not> refers_to_rows users_table ?gone (trades_table, trades_fk) r) (map trade_row (trades d)) =
      map trade_row (filter (\<lambda>t. user_id t \<noteq> uid) (trades d))"
    by (simp add: filter_map_rows hits cong: filter_cong)
  have same: "filter (\<lambda>t. user_id t \<noteq> uid) (trades d) = trades d"
    if "\<not> list_ex (refers_to_rows users_table ?gone (trades_table, trades_fk)) (map trade_row (trades d))"
    using that hits by (auto simp: list_ex_iff filter_id_conv)
  have casc: "fk_ondelete trades_fk = Some ''CASCADE''" by (simp add: trades_fk_def)
  show ?thesis
  proof (cases "list_ex (refers_to_rows users_table ?gone (trades_table, trades_fk)) (map trade_row (trades d))")
    case True
    then show ?thesis using casc kept tables_of_updates(4) [where d = ?d and e = ?d]
      by (simp add: c n st filter_map_rows delete_user_def Let_def del: fun_upd_apply)
  next
    case False
    then show ?thesis using same by (simp add: c n st filter_map_rows delete_user_def Let_def del: fun_upd_apply)
  qed
qed

section \<open>The statements and the schema\<close>

text \<open>
  C12. On a database the migration has set up, what the model of the statements says of an INSERT is what
  the schema makes of it: the same row, the same error, the same tables afterwards, as long as ids fit
  their 32 bits. Deleting a user through the schema removes the account with its trades, nothing else,
  and leaves the tables intact.
\<close>

theorem statements_refine_the_schema:
  assumes "cat_ok c" "set schema_names \<inter> set (relation_names c) = {}"
    "db_ok d" "int32 (user_seq d)" "int32 (trade_seq d)" "int32 (user_id t)"
  shows "\<exists>c'. do_run_migrations upgrade c = (None, c') \<and>
    insert_row c' now ''users'' (user_values u) (tables_of d) =
      Some (map_prod (map_sum id user_row) tables_of (insert_user u d)) \<and>
    insert_row c' now ''trades'' (trade_values t) (tables_of d) =
      Some (map_prod (map_sum id trade_row) tables_of (insert_trade t d)) \<and>
    delete_rows 2 c' ''users'' (\<lambda>r. cell users_table r ''id'' = VInt uid) (tables_of d) =
      Some (tables_of (delete_user uid d)) \<and> db_ok (delete_user uid d)"
proof -
  have s: "schema_in (upgraded c)" using assms(1,2) by (rule schema_in_upgraded)
  have "do_run_migrations upgrade c = (None, upgraded c)"
    using upgrade_runs [OF assms(2)] by (simp add: do_run_migrations_def run_ddl_def)
  moreover have "delete_rows 2 (upgraded c) ''users'' (\<lambda>r. cell users_table r ''id'' = VInt uid) (tables_of d) =
      Some (tables_of (delete_user uid d))"
    using user_deletion_cascades [OF s assms(3), of 0] by (simp only: numeral_2_eq_2)
  ultimately show ?thesis
    using insert_user_refines [OF s assms(3,4)] insert_trade_refines [OF s assms(3,5,6)] delete_user_ok [OF assms(3)]
    by blast
qed

text \<open>A second trade for the signal of \<open>test_trade\<close>: both refuse it. Deleting the owner empties the tables.\<close>

lemma duplicate_trade: "insert_trade test_trade trade_db = (Inl IntegrityError, trade_db\<lparr>trade_seq := 3\<rparr>)"
  by (simp add: insert_trade_def trade_db_def test_trade_def test_owner_def store_row_def numeric_28_12.simps
      numeric_opt_def bigint_ok_def varchar_ok_def)

theorem statements_refine_the_schema_witness:
  "\<exists>c'. do_run_migrations upgrade versioned_catalogue = (None, c') \<and>
    insert_row c' 0 ''trades'' (trade_values test_trade) (tables_of trade_db) =
      Some (Inl IntegrityError, tables_of (trade_db\<lparr>trade_seq := 3\<rparr>)) \<and>
    delete_rows 2 c' ''users'' (\<lambda>r. cell users_table r ''id'' = VInt 1) (tables_of trade_db) =
      Some (tables_of (trade_db\<lparr>users := [], trades := []\<rparr>))"
proof -
  have "int32 (user_seq trade_db)" "int32 (trade_seq trade_db)" "int32 (user_id test_trade)"
    by (simp_all add: int32_def trade_db_def test_trade_def)
  from statements_refine_the_schema [OF versioned_catalogue_ok versioned_catalogue_fresh trade_db_ok this,
      of 0 test_owner 1]
  show ?thesis by (auto simp: duplicate_trade) (simp add: delete_user_def trade_db_def test_owner_def test_trade_def)
qed

end
