(* ===== verification/Lifespan.thy ===== *)
theory Lifespan
  imports Routes
begin

text \<open>
  The life of one server process: the module-level executor and exchange client, \<open>lifespan\<close> of
  \<open>app/main.py\<close> before and after serving, and the draining of the queue in \<open>TradeExecutor.stop\<close>. The
  workers' turns during the drain are \<open>run_worker\<close> with as many turns as were finished before the
  timeout; a turn cut off in its middle is a crash of theory Interleaving.

  The lemmas show that a shutdown leaves nothing running, that it loses no accepted trade however little
  of the queue it drained, and that the next process submits what is left.
\<close>

section \<open>The process-wide instances\<close>

record app_state =
  as_executor :: "executor option"
  as_client :: "client option"
  as_world :: world

definition fresh_process :: "world \<Rightarrow> app_state" where
  "fresh_process w = \<lparr>as_executor = None, as_client = None, as_world = w\<rparr>"

definition get_trade_executor :: "settings \<Rightarrow> app_state \<Rightarrow> executor \<times> app_state" where
  "get_trade_executor s a =
     (case as_executor a of
        Some x \<Rightarrow> (x, a)
      | None \<Rightarrow> (let x = make_executor s None None in (x, a\<lparr>as_executor := Some x\<rparr>)))"

definition set_trade_executor :: "executor option \<Rightarrow> app_state \<Rightarrow> app_state" where
  "set_trade_executor x a = a\<lparr>as_executor := x\<rparr>"

section \<open>Startup\<close>

text \<open>
  \<open>probe\<close> is what \<open>SELECT 1\<close> gave, \<open>listing\<close> whether the query of \<open>resume_pending\<close> went through: if it
  raises, the server does not start. The result says whether \<open>lifespan\<close> holds an executor.
\<close>

definition startup ::
  "settings \<Rightarrow> (exn, unit) result \<Rightarrow> (exn, unit) result \<Rightarrow> string \<Rightarrow> app_state \<Rightarrow> (exn, bool) result \<times> app_state"
where
  "startup s probe listing rid a =
     (let up = check_database_connection probe
      in if \<not> WEBHOOK_ASYNC_EXECUTION s then (Inr False, a)
         else
           (let (x, a1) = get_trade_executor s a; x1 = start x; a2 = a1\<lparr>as_executor := Some x1\<rparr>
            in if \<not> up then (Inr True, a2)
               else (case listing of
                       Inl err \<Rightarrow> (Inl err, a2)
                     | Inr _ \<Rightarrow>
                         (Inr True, a2\<lparr>as_executor :=
                            Some (x1\<lparr>ex_queue := snd (resume_pending (w_db (as_world a2)) rid (ex_queue x1))\<rparr>)\<rparr>))))"

section \<open>Shutdown\<close>

definition drain_and_stop :: "nat \<Rightarrow> env \<Rightarrow> binance_api \<Rightarrow> executor \<Rightarrow> world \<Rightarrow> executor \<times> world" where
  "drain_and_stop n e api x w =
     (if \<not> ex_running x then (x, w)
      else (let (q, w1) = run_worker n e api (ex_queue x) w in (stop (x\<lparr>ex_queue := q\<rparr>), w1)))"

text \<open>After serving: \<open>has_executor\<close> is what startup reported.\<close>

definition shutdown :: "nat \<Rightarrow> env \<Rightarrow> binance_api \<Rightarrow> bool \<Rightarrow> app_state \<Rightarrow> app_state" where
  "shutdown n e api has_executor a =
     (let a1 = (case as_executor a of
                  Some x \<Rightarrow>
                    if has_executor
                    then (let (x1, w1) = drain_and_stop n e api x (as_world a) in a\<lparr>as_executor := Some x1, as_world := w1\<rparr>)
                    else a
                | None \<Rightarrow> a)
      in a1\<lparr>as_client := None\<rparr>)"

section \<open>Lemmas\<close>

lemma run_worker_safe:
  "queue_ok q \<Longrightarrow> db_ok (w_db w) \<Longrightarrow> run_worker n e (binance_client e c) q w = (q', w') \<Longrightarrow>
     queue_ok q' \<and> db_ok (w_db w') \<and> claimable_ids (w_db w') \<subseteq> claimable_ids (w_db w)"
proof (induction n arbitrary: q w)
  case (Suc n)
  show ?case
  proof (cases "queue_get q")
    case None
    then show ?thesis using Suc.prems by (simp add: worker_turn_def)
  next
    case (Some p)
    then obtain tid rid q1 where q1: "queue_get q = Some ((tid, rid), q1)" by (metis prod.collapse)
    obtain q2 where q2: "task_done q1 = Some q2" "queue_ok q2" using task_done_ok [OF Suc.prems(1) q1] by blast
    obtain r w1 where x: "execute e (binance_client e c) tid w = (r, w1)"
      by (cases "execute e (binance_client e c) tid w") auto
    have "run_worker n e (binance_client e c) q2 w1 = (q', w')"
      using Suc.prems(3) q1 q2(1) x by (simp add: worker_turn_def)
    from Suc.IH [OF q2(2) execute_effect(1) [OF Suc.prems(2) x] this] show ?thesis
      using execute_effect(2) [OF Suc.prems(2) x] by blast
  qed
qed simp

text \<open>With every COMMIT going through, each finished turn submits its job, in the order of the queue.\<close>

lemma run_worker_prefix:
  assumes "\<And>n. commit_ok e n"
  shows "queue_ok q \<Longrightarrow> db_ok (w_db w) \<Longrightarrow> run_worker n e (binance_client e c) q w = (q', w') \<Longrightarrow>
    items q' = drop n (items q) \<and>
    claimable_ids (w_db w') = claimable_ids (w_db w) - fst ` set (take n (items q))"
proof (induction n arbitrary: q w)
  case (Suc n)
  show ?case
  proof (cases "items q")
    case Nil
    then show ?thesis using Suc.prems(3) by (simp add: worker_turn_def queue_get_def)
  next
    case (Cons j js)
    then obtain tid rid q1 where q1: "j = (tid, rid)" "queue_get q = Some ((tid, rid), q1)"
      by (cases j) (simp add: queue_get_def)
    obtain q2 where q2: "task_done q1 = Some q2" "queue_ok q2" "items q2 = items q1"
      using task_done_ok [OF Suc.prems(1) q1(2)] by blast
    obtain r w1 where x: "execute e (binance_client e c) tid w = (r, w1)"
      by (cases "execute e (binance_client e c) tid w") auto
    have js: "items q1 = js" using jobs.get_first [OF q1(2)] Cons by simp
    have "run_worker n e (binance_client e c) q2 w1 = (q', w')"
      using Suc.prems(3) q1 q2(1) x by (simp add: worker_turn_def)
    from Suc.IH [OF q2(2) execute_effect(1) [OF Suc.prems(2) x] this] show ?thesis
      using execute_effect(3) [OF Suc.prems(2) x assms] q1(1) q2(3) js Cons by auto
  qed
qed simp

lemma startup_fresh:
  assumes "WEBHOOK_ASYNC_EXECUTION s" "EXECUTOR_QUEUE_SIZE s \<noteq> 0"
  shows "startup s (Inr ()) (Inr ()) rid (fresh_process w) =
    (Inr True, (fresh_process w)\<lparr>as_executor := Some ((start (make_executor s None None))\<lparr>ex_queue :=
       snd (resume_pending (w_db w) rid (new_queue (EXECUTOR_QUEUE_SIZE s)))\<rparr>)\<rparr>)"
  using assms by (simp add: startup_def get_trade_executor_def fresh_process_def check_database_connection_def
      make_executor_def start_def or_int_def Let_def)

lemma shutdown_running:
  assumes "as_executor a = Some x" "ex_running x" "run_worker n e api (ex_queue x) (as_world a) = (q, w1)"
  shows "shutdown n e api True a = \<lparr>as_executor = Some (stop (x\<lparr>ex_queue := q\<rparr>)), as_client = None, as_world = w1\<rparr>"
  using assms by (simp add: shutdown_def drain_and_stop_def)

text \<open>
  C4. Shutting down and starting again: however few turns of the queue the shutdown waited for, it submits
  that many of the oldest jobs, leaves nothing running and no client open; every other accepted trade
  stays unsubmitted in the table. The next process, on a working database, queues them oldest first, as
  many as its queue holds, and one worker taking as many turns empties the queue and leaves none of them
  unsubmitted, whatever the exchange answers - and if the queue could hold them all, none at all.
\<close>

theorem shutdown_and_restart_lose_nothing:
  assumes "db_ok (w_db (as_world a))" "\<And>n. commit_ok e n" "WEBHOOK_ASYNC_EXECUTION s" "0 < EXECUTOR_QUEUE_SIZE s"
    "as_executor a = Some x" "ex_running x" "queue_ok (ex_queue x)"
  shows "\<exists>a1 y b z q w. shutdown n e (binance_client e c) True a = a1 \<and>
    as_executor a1 = Some y \<and> \<not> ex_running y \<and> live_workers y = 0 \<and> ex_binance y = None \<and> as_client a1 = None \<and>
    claimable_ids (w_db (as_world a1)) =
      claimable_ids (w_db (as_world a)) - fst ` set (take n (items (ex_queue x))) \<and>
    startup s (Inr ()) (Inr ()) rid (fresh_process (as_world a1)) = (Inr True, b) \<and>
    as_executor b = Some z \<and> live_workers z = nat (worker_count z) \<and>
    map fst (items (ex_queue z)) = unsubmitted_ids (nat (EXECUTOR_QUEUE_SIZE s)) (w_db (as_world a1)) \<and>
    run_worker (nat (EXECUTOR_QUEUE_SIZE s)) e (binance_client e c) (ex_queue z) (as_world b) = (q, w) \<and>
    items q = [] \<and> db_ok (w_db w) \<and>
    claimable_ids (w_db w) =
      claimable_ids (w_db (as_world a1)) - set (unsubmitted_ids (nat (EXECUTOR_QUEUE_SIZE s)) (w_db (as_world a1))) \<and>
    (length (filter unsubmitted (trades (w_db (as_world a1)))) \<le> nat (EXECUTOR_QUEUE_SIZE s) \<longrightarrow>
       claimable_ids (w_db w) = {})"
proof -
  let ?m = "EXECUTOR_QUEUE_SIZE s" and ?api = "binance_client e c"
  obtain q1 w1 where r1: "run_worker n e ?api (ex_queue x) (as_world a) = (q1, w1)"
    by (cases "run_worker n e ?api (ex_queue x) (as_world a)") auto
  note a1 = shutdown_running [OF assms(5,6) r1]
  have ok1: "db_ok (w_db w1)" using run_worker_safe [OF assms(7,1) r1] by blast
  have ids1: "claimable_ids (w_db w1) = claimable_ids (w_db (as_world a)) - fst ` set (take n (items (ex_queue x)))"
    using run_worker_prefix [OF assms(2,7,1) r1] by blast
  obtain k q2 where q2: "resume_pending (w_db w1) rid (new_queue ?m) = (k, q2)"
    by (cases "resume_pending (w_db w1) rid (new_queue ?m)") auto
  obtain q w where r: "run_worker (nat ?m) e ?api q2 w1 = (q, w)" by (cases "run_worker (nat ?m) e ?api q2 w1") auto
  note res = resumed_trades_submitted [OF ok1 assms(2,4) q2 r]
  show ?thesis
    using a1 ids1 res r q2 assms(6) startup_fresh [OF assms(3), of rid w1] assms(4)
    by (simp add: stop_def fresh_process_def start_def make_executor_def) auto
qed

text \<open>A shutdown that waits for nothing: the trade of \<open>trade_world\<close> is left, and submitted after the restart.\<close>

definition async_settings :: settings where
  "async_settings = test_settings\<lparr>WEBHOOK_ASYNC_EXECUTION := True, EXECUTOR_QUEUE_SIZE := 10, EXECUTOR_WORKERS := 4\<rparr>"

definition running_executor :: executor where
  "running_executor = (start (make_executor async_settings None None))\<lparr>ex_queue :=
     snd (submit 1 ''rid'' (new_queue 10))\<rparr>"

theorem shutdown_and_restart_lose_nothing_witness:
  "\<exists>a1 b z q w. shutdown 0 (test_env TimedOut) (binance_client (test_env TimedOut) test_client) True
      ((fresh_process trade_world)\<lparr>as_executor := Some running_executor\<rparr>) = a1 \<and>
    claimable_ids (w_db (as_world a1)) = {1} \<and>
    startup async_settings (Inr ()) (Inr ()) ''-'' (fresh_process (as_world a1)) = (Inr True, b) \<and>
    as_executor b = Some z \<and> map fst (items (ex_queue z)) = [1] \<and>
    run_worker 10 (test_env TimedOut) (binance_client (test_env TimedOut) test_client) (ex_queue z) (as_world b) = (q, w) \<and>
    claimable_ids (w_db w) = {}"
proof -
  let ?e = "test_env TimedOut"
  let ?a = "(fresh_process trade_world)\<lparr>as_executor := Some running_executor\<rparr>"
  have s: "WEBHOOK_ASYNC_EXECUTION async_settings" "EXECUTOR_QUEUE_SIZE async_settings = 10"
    by (simp_all add: async_settings_def)
  have x: "ex_running running_executor" "queue_ok (ex_queue running_executor)"
    using submit_ok [OF new_queue_ok, of 1 "''rid''" 10]
    by (cases "submit 1 ''rid'' (new_queue 10)", simp add: running_executor_def start_def make_executor_def)+
  have a: "as_executor ?a = Some running_executor" "as_world ?a = trade_world" by (simp_all add: fresh_process_def)
  have ok: "db_ok (w_db (as_world ?a))" using trade_db_ok a(2) by (simp add: trade_world_def)
  have w: "as_world (shutdown 0 ?e (binance_client ?e test_client) True ?a) = trade_world"
    using shutdown_running [OF a(1) x(1), of 0 ?e "binance_client ?e test_client"] a(2) by simp
  have pos: "0 < EXECUTOR_QUEUE_SIZE async_settings" by (simp add: s(2))
  have ids: "claimable_ids (w_db trade_world) = {1}"
    by (simp add: claimable_ids_def trade_world_def trade_db_def test_trade_def unsubmitted_def)
  have c: "commit_ok ?e m" for m by simp
  have "length (filter unsubmitted (trades (w_db trade_world))) \<le> nat 10" "unsubmitted_ids (nat 10) (w_db trade_world) = [1]"
    by (simp_all add: trade_world_def trade_db_def unsubmitted_ids_def test_trade_def unsubmitted_def)
  with shutdown_and_restart_lose_nothing [OF ok c s(1) pos a(1) x, of 0 test_client "''-''"]
  show ?thesis using s(2) w ids by auto
qed

end
