(* ===== verification/Bench_App.thy ===== *)
theory Bench_App
  imports Interleaving
begin

text \<open>
  \<open>scripts/bench_app.py\<close>: the application with \<open>FakeBinanceClient\<close> of \<open>tests/fakes.py\<close> as its exchange. The
  log of the world holds the calls of \<open>place_market_order\<close> (as order requests that carry the client order
  id) in place of HTTP requests; latency is only waited for.

  The fake keeps the contract \<open>exchange_api\<close> of the services, so what was shown for the testnet client
  inside that interface holds in the benchmark, too: its exchange is asked once per signal at most.
\<close>

section \<open>The simulated exchange\<close>

datatype fake_mode = FakeSuccess | FakeReject | FakeTimeout | FakeRateLimit | FakeUnavailable

datatype fake_lookup = FakeNotFound | FakeFound | FakeError

record fake_client =
  fk_mode :: fake_mode
  fk_reconcile_result :: fake_lookup
  fk_reconcile_status :: string
  fk_next_order_id :: int
  fk_fill_status :: string

definition make_fake :: fake_client where
  "make_fake = \<lparr>fk_mode = FakeSuccess, fk_reconcile_result = FakeNotFound, fk_reconcile_status = ''FILLED'',
     fk_next_order_id = 555000111, fk_fill_status = ''FILLED''\<rparr>"

definition fake_timeout :: exn where
  "fake_timeout = BinanceExn (Uncertain ''Binance did not respond in time; order status is unknown.'' (JStr ''timeout'') None)"

text \<open>\<open>place_order_calls\<close> and \<open>submitted_client_order_ids\<close> grow with every call, whatever comes of it.\<close>

definition order_call :: "string \<Rightarrow> http_request" where
  "order_call cid = \<lparr>rq_method = POST, rq_path = ''/api/v3/order'', rq_params = [(''newClientOrderId'', cid)]\<rparr>"

definition fake_order :: "fake_client \<Rightarrow> string \<Rightarrow> string \<Rightarrow> decimal \<Rightarrow> string \<Rightarrow> (string \<times> json) list" where
  "fake_order f sy sd qty cid =
     [(''symbol'', JStr sy), (''orderId'', JInt (fk_next_order_id f)), (''clientOrderId'', JStr cid),
      (''transactTime'', JInt 1757000000000), (''price'', JStr ''0.00000000''), (''origQty'', JStr (str_decimal qty)),
      (''executedQty'', JStr (str_decimal qty)), (''cummulativeQuoteQty'', JStr ''45.00000000''),
      (''status'', JStr (fk_fill_status f)), (''timeInForce'', JStr ''GTC''), (''type'', JStr ''MARKET''), (''side'', JStr sd)]"

definition fake_place ::
  "fake_client \<Rightarrow> string \<Rightarrow> string \<Rightarrow> decimal \<Rightarrow> string \<Rightarrow> world \<Rightarrow> (exn, order_result) result \<times> world" where
  "fake_place f sy sd qty cid w =
     ((case fk_mode f of
         FakeReject \<Rightarrow>
           Inl (BinanceExn (Rejected ''Account has insufficient balance for requested action.'' (JInt (- 2010)) (Some 400)))
       | FakeRateLimit \<Rightarrow>
           Inl (BinanceExn (RateLimit ''Too many requests; current limit is 1200 request weight per minute.''
             (JInt (- 1003)) (Some 429) (Some 30)))
       | FakeUnavailable \<Rightarrow>
           Inl (BinanceExn (Unavailable ''Could not reach Binance testnet.'' (JStr ''connection_error'') None))
       | FakeTimeout \<Rightarrow> Inl fake_timeout
       | FakeSuccess \<Rightarrow> from_payload (fake_order f sy sd qty cid)),
      w\<lparr>requests := requests w @ [order_call cid]\<rparr>)"

definition fake_found :: "fake_client \<Rightarrow> string \<Rightarrow> string \<Rightarrow> (string \<times> json) list" where
  "fake_found f sy cid =
     [(''symbol'', JStr sy), (''orderId'', JInt (fk_next_order_id f)), (''clientOrderId'', JStr cid),
      (''price'', JStr ''0.00000000''), (''origQty'', JStr ''0.00100000''), (''executedQty'', JStr ''0.00100000''),
      (''cummulativeQuoteQty'', JStr ''45.00000000''), (''status'', JStr (fk_reconcile_status f)),
      (''type'', JStr ''MARKET''), (''side'', JStr ''BUY'')]"

definition fake_query :: "fake_client \<Rightarrow> string \<Rightarrow> string \<Rightarrow> world \<Rightarrow> (exn, order_result option) result \<times> world" where
  "fake_query f sy cid w =
     ((case fk_reconcile_result f of
         FakeError \<Rightarrow> Inl fake_timeout
       | FakeNotFound \<Rightarrow> Inr None
       | FakeFound \<Rightarrow> (case from_payload (fake_found f sy cid) of Inl x \<Rightarrow> Inl x | Inr r \<Rightarrow> Inr (Some r))), w)"

text \<open>Both the request path and the executor get this client; \<open>order_count()\<close> reads its counter.\<close>

definition simulated_exchange :: "fake_client \<Rightarrow> binance_api" where
  "simulated_exchange f = \<lparr>api_place = fake_place f, api_query = fake_query f\<rparr>"

definition bench_order_count :: "world \<Rightarrow> nat" where
  "bench_order_count w = length (filter is_order_request (requests w))"

interpretation simulated: exchange_api "simulated_exchange f" for f
  by unfold_locales
    (auto simp: simulated_exchange_def fake_place_def fake_query_def same_store_def order_call_def is_order_request_def)

section \<open>What the benchmark counts\<close>

text \<open>In success mode every call is answered with a filled order, the quantity being the one ordered.\<close>

lemma fake_success:
  assumes "fk_mode f = FakeSuccess"
  shows "\<exists>r. fst (fake_place f sy sd qty cid w) = Inr r \<and> r_order_id r = Some (fk_next_order_id f)"
proof -
  have "json_get ''orderId'' (fake_order f sy sd qty cid) = Some (JInt (fk_next_order_id f))"
    by (simp add: json_get_def fake_order_def)
  then show ?thesis using assms by (simp add: fake_place_def from_payload_def Let_def)
qed

text \<open>One simulated order per signal at most, in every interleaving, and one for a row marked as submitted.\<close>

lemma benchmark_orders_once:
  assumes "db_ok d" "(sys_step e (simulated_exchange f) s)\<^sup>*\<^sup>* (fresh_start d n) S"
  shows "orders_for cid (world S) \<le> 1 \<and>
    (orders_for cid (world S) = 1 \<longrightarrow>
       (\<exists>row \<in> set (trades (w_db (world S))). client_order_id row = cid \<and> submitted_at row \<noteq> None))"
  using simulated.one_order [OF assms] by blast

end
