(* ===== verification/Bench_Runs.thy ===== *)
theory Bench_Runs
  imports Ops_Scripts Bench_App "HOL-Library.AList"
begin

text \<open>
  The runs of \<open>scripts/benchmark_webhook.py\<close> and \<open>scripts/simulate_trades.py\<close>: waiting for a server's health,
  starting and stopping the servers of a comparison, the loads, the printed reports and the exit codes.
  What servers and loads do is a parameter: the answer and duration of each health poll, the replies of
  each load or the exception that ends it, whether a terminated server exits in time. A run returns its
  result, or the exception that escapes, with the list of its actions. Times are milliseconds.

  The lemmas show that waiting ends, that every server started is stopped once, and before the next one
  is started, on every path, and what the exit codes mean.
\<close>

section \<open>Numbers in reports\<close>

text \<open>\<open>f"{x:.kf}"\<close> rounds half to even on the exact value; \<open>padl\<close> is the width of a format.\<close>

definition round_even :: "rat \<Rightarrow> int" where
  "round_even y =
     (let n = \<lfloor>y\<rfloor>; r = y - of_int n in if r < 1 / 2 \<or> r = 1 / 2 \<and> even n then n else n + 1)"

definition fixed :: "nat \<Rightarrow> rat \<Rightarrow> string" where
  "fixed k x =
     (let n = nat (round_even (abs x * 10 ^ k)); frac = str_nat (n mod 10 ^ k)
      in (if x < 0 then ''-'' else []) @ str_nat (n div 10 ^ k) @
         (if k = 0 then [] else ''.'' @ replicate (k - length frac) (CHR ''0'') @ frac))"

definition padl :: "nat \<Rightarrow> string \<Rightarrow> string" where
  "padl w s = replicate (w - length s) (CHR '' '') @ s"

definition lines :: "string list \<Rightarrow> string" where
  "lines ls = py_join [CHR 0x0A] ls"

definition code_text :: "counter \<Rightarrow> string" where
  "code_text cs = py_join '' '' (map (\<lambda>kn. str_int (fst kn) @ '':'' @ str_nat (snd kn)) (sort_key fst cs))"

definition max_latency :: "bench_result \<Rightarrow> rat" where
  "max_latency r = (if latencies_ms r = [] then 0 else Max (set (latencies_ms r)))"

definition render :: "bench_result \<Rightarrow> string" where
  "render r = lines
     [''  requests      '' @ str_nat (total r),
      ''  successful    '' @ str_nat (successes r),
      ''  failed        '' @ str_int (failures r) @ ''  ('' @ fixed 1 (error_rate r) @ ''%)'',
      ''  status codes  '' @ (if code_text (status_codes r) = [] then ''-'' else code_text (status_codes r)) @
        (if errors r = 0 then [] else ''  transport-errors:'' @ str_nat (errors r)),
      ''  avg           '' @ padl 7 (fixed 1 (mean_ms r)) @ '' ms'',
      ''  p50           '' @ padl 7 (fixed 1 (pct 50 r)) @ '' ms'',
      ''  p95           '' @ padl 7 (fixed 1 (pct 95 r)) @ '' ms'',
      ''  p99           '' @ padl 7 (fixed 1 (pct 99 r)) @ '' ms'',
      ''  max           '' @ padl 7 (fixed 1 (max_latency r)) @ '' ms'',
      ''  throughput    '' @ padl 7 (fixed 1 (rps r)) @ '' req/s'',
      ''  wall time     '' @ padl 7 (fixed 2 (wall_seconds r)) @ '' s'']"

section \<open>Servers and loads\<close>

datatype action =
  StartServer int bool | TerminateServer int | KillServer int | Load string nat nat | Print string

record bench_env =
  be_url_poll :: "nat \<Rightarrow> bool \<times> nat"
  be_poll :: "int \<Rightarrow> nat \<Rightarrow> bool \<times> nat"
  be_load :: "nat \<Rightarrow> (string, (nat \<Rightarrow> reply) \<times> nat list \<times> rat) result"
  be_slow_exit :: "int \<Rightarrow> bool"

record bench_state =
  bs_loads :: nat
  bs_trace :: "action list"

definition act :: "action \<Rightarrow> bench_state \<Rightarrow> bench_state" where
  "act x st = st\<lparr>bs_trace := bs_trace st @ [x]\<rparr>"

text \<open>The process of \<open>start_server\<close>: its command line and its environment.\<close>

definition server_command :: "string \<Rightarrow> int \<Rightarrow> string list" where
  "server_command python port =
     [python, ''-m'', ''uvicorn'', ''scripts.bench_app:app'', ''--host'', ''127.0.0.1'', ''--port'', str_int port,
      ''--log-level'', ''warning'']"

definition server_env :: "bool \<Rightarrow> string \<Rightarrow> (string \<times> string) list \<Rightarrow> (string \<times> string) list" where
  "server_env is_async latency_ms env =
     dict_set ''LOG_LEVEL'' ''WARNING''
       (dict_set ''BENCH_BINANCE_LATENCY_MS'' latency_ms
          (dict_set ''WEBHOOK_ASYNC_EXECUTION'' (if is_async then ''true'' else ''false'') env))"

text \<open>
  Polls until one answers 200 or the deadline has passed; each poll takes its time, and 400 ms more when
  it failed.
\<close>

function wait_for_health :: "(nat \<Rightarrow> bool \<times> nat) \<Rightarrow> nat \<Rightarrow> nat \<Rightarrow> nat \<Rightarrow> bool" where
  "wait_for_health poll deadline i t =
     (if t < deadline
      then (let (healthy, d) = poll i in if healthy then True else wait_for_health poll deadline (i + 1) (t + d + 400))
      else False)"
  by auto
termination
  by (relation "measure (\<lambda>(poll, deadline, i, t). deadline - t)") auto

declare wait_for_health.simps [simp del]

text \<open>A load of n requests at a concurrency, as theory Load_Scripts records it.\<close>

definition do_load ::
  "bench_env \<Rightarrow> string \<Rightarrow> nat \<Rightarrow> nat \<Rightarrow> bench_state \<Rightarrow> (string, bench_result) result \<times> bench_state" where
  "do_load be label n concurrency st =
     (let st1 = (act (Load label n concurrency) st)\<lparr>bs_loads := bs_loads st + 1\<rparr>
      in case be_load be (bs_loads st) of
           Inl x \<Rightarrow> (Inl x, st1)
         | Inr (replies, arrivals, wall) \<Rightarrow> (Inr (run_load replies arrivals wall), st1))"

type_synonym results = "(nat \<times> bench_result) list"

fun measure_levels ::
  "bench_env \<Rightarrow> string \<Rightarrow> nat \<Rightarrow> nat list \<Rightarrow> results \<Rightarrow> bench_state \<Rightarrow> (string, results) result \<times> bench_state" where
  "measure_levels be label n [] rs st = (Inr rs, st)"
| "measure_levels be label n (c # cs) rs st =
     (case do_load be label n c st of
        (Inl x, st1) \<Rightarrow> (Inl x, st1)
      | (Inr r, st1) \<Rightarrow>
          measure_levels be label n cs (AList.update c r rs)
            (act (Print (lines [[], ''['' @ label @ ''] concurrency='' @ str_nat c, render r])) st1))"

text \<open>The body of the \<open>try\<close>, and its \<open>finally\<close>.\<close>

definition mode_body ::
  "bench_env \<Rightarrow> string \<Rightarrow> int \<Rightarrow> nat \<Rightarrow> nat list \<Rightarrow> bench_state \<Rightarrow> (string, results) result \<times> bench_state" where
  "mode_body be label port n levels st =
     (if \<not> wait_for_health (be_poll be port) 45000 0 0 then (Inl ''RuntimeError'', st)
      else
        (case levels of
           [] \<Rightarrow> (Inl ''IndexError'', st)
         | c # _ \<Rightarrow>
             (case do_load be ''warmup'' (max 5 c) c st of
                (Inl x, st1) \<Rightarrow> (Inl x, st1)
              | (Inr _, st1) \<Rightarrow> measure_levels be label n levels [] st1)))"

definition stop_server :: "bench_env \<Rightarrow> int \<Rightarrow> bench_state \<Rightarrow> bench_state" where
  "stop_server be port st =
     (let st1 = act (TerminateServer port) st in if be_slow_exit be port then act (KillServer port) st1 else st1)"

definition benchmark_mode ::
  "bench_env \<Rightarrow> string \<Rightarrow> bool \<Rightarrow> int \<Rightarrow> nat \<Rightarrow> nat list \<Rightarrow> bench_state \<Rightarrow> (string, results) result \<times> bench_state" where
  "benchmark_mode be label is_async port n levels st =
     (let (r, st1) = mode_body be label port n levels (act (StartServer port is_async) st)
      in (r, stop_server be port st1))"

section \<open>The benchmark's main program\<close>

record bench_args =
  ba_requests :: nat
  ba_concurrency :: nat
  ba_compare :: bool
  ba_levels :: "nat list"
  ba_latency :: rat
  ba_port :: int
  ba_url :: string
  ba_secret :: "string option"

text \<open>The defaults of the options; symbol and quantity only enter the signals of theory Load_Scripts.\<close>

definition default_bench_args :: bench_args where
  "default_bench_args =
     \<lparr>ba_requests = 100, ba_concurrency = 50, ba_compare = False, ba_levels = [10, 25, 50], ba_latency = 165,
      ba_port = 8801, ba_url = ''http://127.0.0.1:8000'', ba_secret = None\<rparr>"

definition truthy_text :: "string option \<Rightarrow> bool" where
  "truthy_text x = (case x of None \<Rightarrow> False | Some t \<Rightarrow> t \<noteq> [])"

text \<open>\<open>args.secret or read_secret()\<close>\<close>

definition secret_or :: "string option \<Rightarrow> string option \<Rightarrow> string option" where
  "secret_or given found = (if truthy_text given then given else found)"

definition bar :: string where
  "bar = replicate 68 (CHR ''='')"

definition summary_header :: string where
  "summary_header = padl 5 ''conc'' @ '' | '' @ padl 10 ''before p50'' @ '' '' @ padl 10 ''after p50'' @ '' '' @
     padl 8 ''p50 -%'' @ '' | '' @ padl 10 ''before p95'' @ '' '' @ padl 10 ''after p95'' @ '' '' @ padl 8 ''p95 -%''"

definition summary_row :: "nat \<Rightarrow> bench_result \<Rightarrow> bench_result \<Rightarrow> string" where
  "summary_row c before after =
     padl 5 (str_nat c) @ '' | '' @ padl 10 (fixed 1 (pct 50 before)) @ '' '' @ padl 10 (fixed 1 (pct 50 after)) @ '' '' @
     padl 7 (fixed 1 (pct_gain 50 before after)) @ ''% | '' @ padl 10 (fixed 1 (pct 95 before)) @ '' '' @
     padl 10 (fixed 1 (pct 95 after)) @ '' '' @ padl 7 (fixed 1 (pct_gain 95 before after)) @ ''%''"

text \<open>\<open>baseline[concurrency]\<close> raises KeyError for a level that was not measured.\<close>

fun summary_rows :: "nat list \<Rightarrow> results \<Rightarrow> results \<Rightarrow> string list option" where
  "summary_rows [] b a = Some []"
| "summary_rows (c # cs) b a =
     (case (map_of b c, map_of a c, summary_rows cs b a) of
        (Some x, Some y, Some r) \<Rightarrow> Some (summary_row c x y # r) | _ \<Rightarrow> None)"

definition async_main :: "bench_env \<Rightarrow> bench_args \<Rightarrow> bench_state \<Rightarrow> (string, int) result \<times> bench_state" where
  "async_main be a st =
     (if \<not> truthy_text (ba_secret a)
      then (Inr 1, act (Print ''No webhook secret. Set WEBHOOK_SECRET in .env or pass --secret.'') st)
      else if \<not> ba_compare a then
        (if \<not> wait_for_health (be_url_poll be) 5000 0 0
         then (Inr 1, act (Print (''No server responding at '' @ ba_url a @ ''. Start one, or use --compare.'')) st)
         else (case do_load be ''webhook'' (ba_requests a) (ba_concurrency a) st of
                 (Inl x, st1) \<Rightarrow> (Inl x, st1)
               | (Inr r, st1) \<Rightarrow> (Inr 0, act (Print (lines
                   [[], ''POST /webhook/tradingview  concurrency='' @ str_nat (ba_concurrency a), render r])) st1)))
      else
        (let st0 = act (Print (lines
               [bar, ''Webhook acknowledgement latency: inline vs queued exchange call'',
                ''  requests per level : '' @ str_nat (ba_requests a),
                ''  concurrency levels : ['' @ py_join '', '' (map str_nat (ba_levels a)) @ '']'',
                ''  simulated exchange : '' @ fixed 0 (ba_latency a) @ '' ms round trip'', bar])) st
         in case benchmark_mode be ''BEFORE (inline: request waits for the exchange)'' False (ba_port a)
                   (ba_requests a) (ba_levels a) st0 of
              (Inl x, st1) \<Rightarrow> (Inl x, st1)
            | (Inr b, st1) \<Rightarrow>
                (case benchmark_mode be ''AFTER  (queued: request returns once the trade is durable)'' True
                        (ba_port a + 1) (ba_requests a) (ba_levels a) st1 of
                   (Inl x, st2) \<Rightarrow> (Inl x, st2)
                 | (Inr r, st2) \<Rightarrow>
                     (case summary_rows (ba_levels a) b r of
                        None \<Rightarrow> (Inl ''KeyError'', st2)
                      | Some rows \<Rightarrow> (Inr 0, act (Print (lines
                          ([[], bar, ''SUMMARY - webhook acknowledgement latency (ms)'', bar, summary_header,
                            replicate (length summary_header) (CHR ''-'')] @ rows @
                           [[], ''Note: this is the time to accept and durably record a signal.'',
                            ''Order execution still takes a full exchange round trip in both modes;'',
                            ''in queued mode it happens after the response, tracked as PENDING.'']))) st2)))))"

definition bench_main :: "bench_env \<Rightarrow> string list option \<Rightarrow> string option \<Rightarrow> bench_args \<Rightarrow> (string, int) result \<times> bench_state" where
  "bench_main be env_lines env_var a =
     async_main be (a\<lparr>ba_secret := secret_or (ba_secret a) (read_secret env_lines env_var)\<rparr>) \<lparr>bs_loads = 0, bs_trace = []\<rparr>"

section \<open>Lemmas\<close>

definition server_actions :: "action list \<Rightarrow> action list" where
  "server_actions xs = filter (\<lambda>x. case x of Load _ _ _ \<Rightarrow> False | Print _ \<Rightarrow> False | _ \<Rightarrow> True) xs"

definition stops :: "bench_env \<Rightarrow> int \<Rightarrow> action list" where
  "stops be port = TerminateServer port # (if be_slow_exit be port then [KillServer port] else [])"

lemma act_trace [simp]:
  "server_actions (bs_trace (act (Load l n c) st)) = server_actions (bs_trace st)"
  "server_actions (bs_trace (act (Print t) st)) = server_actions (bs_trace st)"
  "server_actions (bs_trace (act (StartServer p b) st)) = server_actions (bs_trace st) @ [StartServer p b]"
  "server_actions (bs_trace (stop_server be p st)) = server_actions (bs_trace st) @ stops be p"
  by (simp_all add: act_def server_actions_def stop_server_def stops_def)

lemma do_load_servers:
  "do_load be l n c st = (r, st') \<Longrightarrow> server_actions (bs_trace st') = server_actions (bs_trace st)"
  by (auto simp: do_load_def Let_def server_actions_def act_def split: sum.splits prod.splits)

lemma measure_levels_servers:
  "measure_levels be l n cs rs st = (r, st') \<Longrightarrow> server_actions (bs_trace st') = server_actions (bs_trace st)"
  by (induction be l n cs rs st rule: measure_levels.induct)
    (auto split: prod.splits sum.splits dest: do_load_servers)

lemma measure_levels_all:
  "measure_levels be l n cs rs st = (Inr rs', st') \<Longrightarrow> fst ` set rs' = fst ` set rs \<union> set cs"
  by (induction be l n cs rs st rule: measure_levels.induct)
    (auto split: prod.splits sum.splits simp: dom_update)

declare measure_levels.simps(2) [simp del]

lemma benchmark_mode_servers:
  assumes "benchmark_mode be l b p n cs st = (r, st')"
  shows "server_actions (bs_trace st') = server_actions (bs_trace st) @ StartServer p b # stops be p"
proof -
  obtain q st1 where q: "mode_body be l p n cs (act (StartServer p b) st) = (q, st1)"
    by (cases "mode_body be l p n cs (act (StartServer p b) st)") auto
  have "server_actions (bs_trace st1) = server_actions (bs_trace (act (StartServer p b) st))"
    using q unfolding mode_body_def
    by (auto split: if_splits list.splits prod.splits sum.splits dest!: do_load_servers measure_levels_servers)
  then show ?thesis using assms q by (auto simp: benchmark_mode_def)
qed

lemma benchmark_mode_levels:
  assumes "benchmark_mode be l b p n cs st = (Inr rs, st')"
  shows "fst ` set rs = set cs"
proof -
  obtain q st1 where q: "mode_body be l p n cs (act (StartServer p b) st) = (q, st1)"
    by (cases "mode_body be l p n cs (act (StartServer p b) st)") auto
  then have q: "mode_body be l p n cs (act (StartServer p b) st) = (Inr rs, st1)"
    using assms by (simp add: benchmark_mode_def)
  then obtain c ds st2 st3 where "cs = c # ds" "measure_levels be l n cs [] st2 = (Inr rs, st3)"
    unfolding mode_body_def by (auto split: if_splits list.splits prod.splits sum.splits)
  then show ?thesis using measure_levels_all by fastforce
qed

lemma summary_rows_total:
  "set cs \<subseteq> fst ` set b \<Longrightarrow> set cs \<subseteq> fst ` set a \<Longrightarrow> \<exists>rows. summary_rows cs b a = Some rows \<and> length rows = length cs"
proof (induction cs)
  case (Cons c cs)
  then obtain x y where "map_of b c = Some x" "map_of a c = Some y"
    by (metis list.set_intros(1) map_of_eq_None_iff not_None_eq subsetD)
  then show ?case using Cons by auto
qed simp

text \<open>The two servers of a comparison differ in the mode of execution only.\<close>

lemma map_of_set: "map_of (dict_set k v kvs) k = Some v"
proof -
  have "map_of (map (\<lambda>kv. if fst kv = k then (k, v) else kv) kvs) k = (if k \<in> fst ` set kvs then Some v else None)"
    by (induction kvs) auto
  moreover have "map_of (kvs @ [(k, v)]) k = Some v" if "k \<notin> fst ` set kvs"
    using that by (simp add: map_add_def map_of_eq_None_iff [THEN iffD2])
  ultimately show ?thesis by (simp add: dict_set_def)
qed

lemma server_env_mode:
  "map_of (server_env b l env) ''WEBHOOK_ASYNC_EXECUTION'' = Some (if b then ''true'' else ''false'')"
  "k \<noteq> ''WEBHOOK_ASYNC_EXECUTION'' \<Longrightarrow> map_of (server_env b l env) k = map_of (server_env b' l env) k"
  by (simp_all add: server_env_def map_of_dict_set map_of_set)
     (cases "k = ''LOG_LEVEL''"; cases "k = ''BENCH_BINANCE_LATENCY_MS''"; simp add: map_of_dict_set map_of_set)

text \<open>Waiting answers whether one of the polls made before the deadline found the server healthy.\<close>

lemma wait_for_health_iff:
  "wait_for_health poll deadline i t \<longleftrightarrow>
     (\<exists>k. fst (poll (i + k)) \<and> t + (\<Sum>j<k. snd (poll (i + j)) + 400) < deadline)"
proof (induction poll deadline i t rule: wait_for_health.induct)
  case (1 poll deadline i t)
  let ?P = "\<lambda>k. fst (poll (i + k)) \<and> t + (\<Sum>j<k. snd (poll (i + j)) + 400) < deadline"
  show ?case
  proof (cases "t < deadline \<and> \<not> fst (poll i)")
    case True
    obtain d where d: "poll i = (False, d)" using True by (cases "poll i") auto
    have "(\<Sum>j<Suc k. snd (poll (i + j)) + 400) = d + 400 + (\<Sum>j<k. snd (poll (i + 1 + j)) + 400)" for k
      by (subst sum.lessThan_Suc_shift) (simp add: d)
    then have "?P (Suc k) \<longleftrightarrow> fst (poll (i + 1 + k)) \<and>
        t + d + 400 + (\<Sum>j<k. snd (poll (i + 1 + j)) + 400) < deadline" for k
      by (simp only: add_Suc_right add_Suc add.assoc plus_1_eq_Suc)
    moreover have "\<not> ?P 0" using d by simp
    ultimately have "(\<exists>k. ?P k) \<longleftrightarrow> wait_for_health poll deadline (i + 1) (t + d + 400)"
      using "1.IH" [OF _ d [symmetric]] True by (metis (no_types, lifting) not0_implies_Suc)
    then show ?thesis using True d by (subst wait_for_health.simps) simp
  next
    case False
    then show ?thesis
    proof (cases "t < deadline")
      case True
      then have "?P 0" "wait_for_health poll deadline i t"
        using False by (auto simp: wait_for_health.simps [of poll deadline i t] split: prod.splits)
      then show ?thesis by blast
    next
      case late: False
      then show ?thesis by (subst wait_for_health.simps) simp
    qed
  qed
qed

text \<open>
  A comparison starts its two servers one after the other, stops the first before it starts the second,
  and stops each exactly once, whatever raises in between; a run against a given server starts none. It
  exits with 0 only after the loads of both modes at every level, and then prints a row per level.
\<close>

lemma benchmark_stops_its_servers:
  assumes "bench_main be env_lines env_var a = (r, st)"
  shows "server_actions (bs_trace st) \<in>
      (if ba_compare a
       then {[], StartServer (ba_port a) False # stops be (ba_port a),
             (StartServer (ba_port a) False # stops be (ba_port a)) @
              StartServer (ba_port a + 1) True # stops be (ba_port a + 1)}
       else {[]}) \<and>
    (r = Inr 0 \<longrightarrow> ba_compare a \<longrightarrow>
       length (server_actions (bs_trace st)) = 2 + length (stops be (ba_port a)) + length (stops be (ba_port a + 1)))"
proof -
  let ?a = "a\<lparr>ba_secret := secret_or (ba_secret a) (read_secret env_lines env_var)\<rparr>"
  let ?st = "\<lparr>bs_loads = 0, bs_trace = []\<rparr>"
  have none: "server_actions (bs_trace ?st) = []" by (simp add: server_actions_def)
  have m: "async_main be ?a ?st = (r, st)" using assms by (simp add: bench_main_def)
  show ?thesis
  proof (cases "truthy_text (ba_secret ?a) \<and> ba_compare a")
    case False
    then show ?thesis using m none unfolding async_main_def
      by (auto split: if_splits prod.splits sum.splits dest: do_load_servers)
  next
    case True
    then show ?thesis using m none unfolding async_main_def Let_def
      by (auto split: if_splits prod.splits sum.splits option.splits dest!: benchmark_mode_servers)
  qed
qed

lemma comparison_reports_every_level:
  assumes "benchmark_mode be l b p n cs st = (Inr before, st1)" "benchmark_mode be l' b' p' n cs st' = (Inr after, st2)"
  shows "\<exists>rows. summary_rows cs before after = Some rows \<and> length rows = length cs"
  using benchmark_mode_levels [OF assms(1)] benchmark_mode_levels [OF assms(2)] by (intro summary_rows_total) simp_all

section \<open>The simulation's main program\<close>

text \<open>
  \<open>sa_health\<close> is the status of \<open>/health/ready\<close> with its text, or the name of the exception; a reply 202 comes
  with the status of the trade in its body, or with the exception that reading the body raises.
\<close>

record sim_args =
  sa_count :: nat
  sa_url :: string
  sa_quantity :: string
  sa_symbol :: "string option"
  sa_duplicate_every :: int
  sa_secret :: "string option"

definition default_sim_args :: sim_args where
  "default_sim_args =
     \<lparr>sa_count = 100, sa_url = ''http://127.0.0.1:8000'', sa_quantity = ''0.001'', sa_symbol = None,
      sa_duplicate_every = 0, sa_secret = None\<rparr>"

record sim_env =
  se_run_id :: string
  se_health :: "(string, int \<times> string) result"
  se_replies :: "nat \<Rightarrow> reply"
  se_trade_status :: "nat \<Rightarrow> (string, string) result"
  se_arrivals :: "nat list"
  se_wall :: rat

type_synonym text_counter = "(string \<times> nat) list"

fun count_text :: "string \<Rightarrow> text_counter \<Rightarrow> text_counter" where
  "count_text c [] = [(c, 1)]"
| "count_text c ((k, n) # r) = (if k = c then (k, n + 1) # r else (k, n) # count_text c r)"

definition dict_text :: "(string \<times> string) list \<Rightarrow> string" where
  "dict_text kvs = ''{'' @ py_join '', '' (map (\<lambda>kv. fst kv @ '': '' @ snd kv) kvs) @ ''}''"

text \<open>What \<open>send\<close> does with the replies as they come in; the exception of a body ends the run.\<close>

fun collect ::
  "sim_env \<Rightarrow> nat list \<Rightarrow> bench_result \<Rightarrow> text_counter \<Rightarrow> (string, bench_result \<times> text_counter) result" where
  "collect se [] r ts = Inr (r, ts)"
| "collect se (i # is) r ts =
     (let r1 = record_reply (se_replies se i) r
      in case se_replies se i of
           Replied c _ \<Rightarrow>
             if c = 202
             then (case se_trade_status se i of Inl x \<Rightarrow> Inl x | Inr t \<Rightarrow> collect se is r1 (count_text t ts))
             else collect se is r1 ts
         | NoReply \<Rightarrow> collect se is r1 ts)"

definition sim_p95 :: "bench_result \<Rightarrow> rat" where
  "sim_p95 r =
     (let ordered = sort (latencies_ms r)
      in ordered ! min (length ordered * 95 div 100) (length ordered - 1))"

definition sim_bar :: string where
  "sim_bar = replicate 56 (CHR ''='')"

definition sim_summary :: "sim_args \<Rightarrow> rat \<Rightarrow> bench_result \<Rightarrow> text_counter \<Rightarrow> string list" where
  "sim_summary a wall r ts =
     [[], sim_bar, ''SIMULATION SUMMARY'', sim_bar,
      ''  signals sent        '' @ str_nat (sa_count a),
      ''  accepted (202)      '' @ str_nat (sim_accepted r),
      ''  duplicates (409)    '' @ str_nat (sim_duplicates r),
      ''  other failures      '' @ str_nat (sim_other_failures r),
      ''  wall time           '' @ fixed 2 wall @ '' s  ('' @ fixed 1 (of_nat (sa_count a) / wall) @ '' signals/s)''] @
     (if latencies_ms r = [] then []
      else [''  avg latency         '' @ fixed 1 (mean_ms r) @ '' ms'', ''  p95 latency         '' @ fixed 1 (sim_p95 r) @ '' ms'']) @
     (if status_codes r = [] then []
      else [''  status codes        '' @
              dict_text (map (\<lambda>kn. (str_int (fst kn), str_nat (snd kn))) (sort_key fst (status_codes r)))]) @
     (if ts = [] then []
      else [''  trade status at ack '' @ dict_text (map (\<lambda>kn. (py_repr_str (fst kn), str_nat (snd kn))) ts),
            [], ''  (In queued mode a trade is PENDING at acknowledgement and is'',
            ''   completed by the executor. Check the final states with:'',
            ''     GET /trades   or   python -m scripts.reconcile)''])"

text \<open>The exit code or the exception that escapes, the lines printed, and the signals sent.\<close>

definition simulate :: "sim_env \<Rightarrow> sim_args \<Rightarrow> (string, int) result \<times> string list \<times> signal_body list" where
  "simulate se a =
     (case se_health se of
        Inl x \<Rightarrow> (Inr 1, [''Cannot reach '' @ sa_url a @ '': '' @ x, ''Start the server first:  uvicorn app.main:app''], [])
      | Inr (code, body) \<Rightarrow>
          if code \<noteq> 200 then (Inr 1, [''Server is not ready: '' @ body], [])
          else
            (let sent = map (sim_payload (se_run_id se) (sa_duplicate_every a) (sa_symbol a) (sa_quantity a)) [0..<sa_count a];
                 first = ''Sending '' @ str_nat (sa_count a) @ '' signals to '' @ sa_url a @ '' ...''
             in case collect se (se_arrivals se) empty_result [] of
                  Inl x \<Rightarrow> (Inl x, [first], sent)
                | Inr (r, ts) \<Rightarrow>
                    if se_wall se = 0 then (Inl ''ZeroDivisionError'', [first], sent)
                    else (Inr (sim_exit (sa_count a) r), first # sim_summary a (se_wall se) r ts, sent)))"

definition sim_main :: "sim_env \<Rightarrow> string list option \<Rightarrow> string option \<Rightarrow> sim_args \<Rightarrow> (string, int) result \<times> string list \<times> signal_body list" where
  "sim_main se env_lines env_var a =
     (let secret = secret_or (sa_secret a) (read_secret env_lines env_var)
      in if \<not> truthy_text secret
         then (Inr 1, [''No webhook secret. Set WEBHOOK_SECRET in .env or pass --secret.''], [])
         else simulate se a)"

text \<open>What was collected is what \<open>run_load\<close> of theory Load_Scripts records.\<close>

lemma collect_records:
  "collect se is r ts = Inr (r', ts') \<Longrightarrow> r' = foldl (\<lambda>r i. record_reply (se_replies se i) r) r is"
  by (induction se "is" r ts rule: collect.induct) (auto simp: Let_def split: reply.splits sum.splits if_splits)

lemma simulate_cases:
  assumes "simulate se a = (r, printed, sent)"
  obtains (refused) "r = Inr 1" "sent = []"
  | (raised) x where "r = Inl x"
      "sent = map (sim_payload (se_run_id se) (sa_duplicate_every a) (sa_symbol a) (sa_quantity a)) [0..<sa_count a]"
  | (ran) q ts where "collect se (se_arrivals se) empty_result [] = Inr (q, ts)" "r = Inr (sim_exit (sa_count a) q)"
      "sent = map (sim_payload (se_run_id se) (sa_duplicate_every a) (sa_symbol a) (sa_quantity a)) [0..<sa_count a]"
proof (cases "se_health se")
  case (Inl x)
  then show thesis using assms refused by (simp add: simulate_def)
next
  case h: (Inr cb)
  obtain code body where cb: "cb = (code, body)" by (cases cb) auto
  show thesis
  proof (cases "code = 200")
    case False
    then show thesis using assms refused h cb by (simp add: simulate_def)
  next
    case True
    note ready = assms [unfolded simulate_def h cb sum.case prod.case, simplified True Let_def]
    show thesis
    proof (cases "collect se (se_arrivals se) empty_result []")
      case (Inl x)
      then show thesis using ready raised by auto
    next
      case (Inr qt)
      then obtain q ts where qt: "collect se (se_arrivals se) empty_result [] = Inr (q, ts)" by (cases qt) auto
      show thesis
      proof (cases "se_wall se = 0")
        case True
        then show thesis using ready raised qt by auto
      next
        case False
        then show thesis using ready ran [OF qt] qt by auto
      qed
    qed
  qed
qed

lemma all_counted:
  assumes "length (filter P xs) + length (filter Q xs) = length xs" "\<And>x. \<not> (P x \<and> Q x)" "x \<in> set xs"
  shows "P x \<or> Q x"
proof (rule ccontr)
  assume n: "\<not> (P x \<or> Q x)"
  have "length (filter P ys) + length (filter Q ys) = length (filter (\<lambda>y. P y \<or> Q y) ys)" for ys
    using assms(2) by (induction ys) auto
  moreover have "length (filter (\<lambda>y. P y \<or> Q y) xs) < length xs" using n assms(3) by (rule length_filter_less [rotated])
  ultimately show False using assms(1) by simp
qed

lemma sim_main_simulates:
  assumes "sim_main se env_lines env_var a = (r, printed, sent)" "r = Inr 0"
  shows "simulate se a = (r, printed, sent)"
proof (cases "truthy_text (secret_or (sa_secret a) (read_secret env_lines env_var))")
  case True
  then show ?thesis using assms(1) by (simp add: sim_main_def)
next
  case False
  then have "r = Inr 1" using assms(1) by (auto simp: sim_main_def)
  then show ?thesis using assms(2) by simp
qed

lemma sim_exit_counts:
  assumes "sim_exit n (run_load f xs wall) = 0"
  shows "length (filter (\<lambda>i. replied (\<lambda>c. c = 202) (f i)) xs) + length (filter (\<lambda>i. replied (\<lambda>c. c = 409) (f i)) xs) = n"
  using assms unfolding sim_exit_def sim_accepted_def sim_duplicates_def run_load_fields by (simp split: if_splits)

lemma sim_exit_codes: "status_codes q = status_codes r \<Longrightarrow> sim_exit n q = sim_exit n r"
  by (simp add: sim_exit_def sim_accepted_def sim_duplicates_def)

lemma simulate_zero:
  assumes "simulate se a = (Inr 0, printed, sent)"
  shows "\<exists>q ts. collect se (se_arrivals se) empty_result [] = Inr (q, ts) \<and> sim_exit (sa_count a) q = 0 \<and> length sent = sa_count a"
  using assms
proof (cases rule: simulate_cases)
  case (ran q ts)
  then show ?thesis by simp
qed simp_all

text \<open>
  A simulation that exits with 0 has sent one signal per index, and every one of them was answered with
  202 or 409.
\<close>

lemma simulation_exit:
  assumes "sim_main se env_lines env_var a = (Inr 0, printed, sent)" "mset (se_arrivals se) = mset [0..<sa_count a]"
  shows "length sent = sa_count a"
    "i < sa_count a \<Longrightarrow> \<exists>c t. se_replies se i = Replied c t \<and> (c = 202 \<or> c = 409)"
proof -
  obtain q ts where q: "collect se (se_arrivals se) empty_result [] = Inr (q, ts)" "sim_exit (sa_count a) q = 0"
      "length sent = sa_count a"
    using simulate_zero [OF sim_main_simulates [OF assms(1) refl]] by blast
  show "length sent = sa_count a" by (rule q(3))
  have len: "length (se_arrivals se) = sa_count a" "set (se_arrivals se) = {..<sa_count a}"
    using mset_eq_length [OF assms(2)] mset_eq_setD [OF assms(2)] by (simp_all add: atLeast_upt lessThan_atLeast0)
  have "status_codes q = status_codes (run_load (se_replies se) (se_arrivals se) 0)"
    unfolding collect_records [OF q(1)] run_load_def by simp
  then have "sim_exit (sa_count a) (run_load (se_replies se) (se_arrivals se) 0) = 0"
    using sim_exit_codes q(2) by metis
  note c = sim_exit_counts [OF this, folded len(1)]
  have d: "\<not> (replied (\<lambda>c. c = 202) (se_replies se j) \<and> replied (\<lambda>c. c = 409) (se_replies se j))" for j
    by (simp add: replied_def split: reply.split)
  show "\<exists>c t. se_replies se i = Replied c t \<and> (c = 202 \<or> c = 409)" if "i < sa_count a"
    using all_counted [OF c d, of i] that len(2) by (cases "se_replies se i") (simp_all add: replied_def)
qed

end
