(* ===== verification/Command_Line.thy ===== *)
theory Command_Line
  imports Ops_Scripts Bench_Runs
begin

text \<open>
  The command lines of \<open>scripts/reconcile.py\<close>, \<open>scripts/simulate_trades.py\<close> and
  \<open>scripts/benchmark_webhook.py\<close>: what \<open>argparse\<close> makes of the arguments, for parsers that have options
  only, and the \<open>main\<close> of the reconciliation run. Only \<open>float()\<close> is a parameter.
\<close>

section \<open>The parser\<close>

datatype conversion = To_text | To_int | To_float
datatype option_kind = Store conversion | Flag | Many conversion | Help
datatype arg_value = Text string | Whole int | Real rat | On | Several "arg_value list"

type_synonym option_table = "(string \<times> option_kind) list"
type_synonym namespace = "(string \<times> arg_value) list"

text \<open>Every parser has the help options.\<close>

definition all_options :: "option_table \<Rightarrow> option_table" where
  "all_options T = [(''-h'', Help), (''--help'', Help)] @ T"

datatype arg_class = Operand string | Option string "string option" | Unknown_option | Ambiguous

definition negative_number :: "string \<Rightarrow> bool" where
  "negative_number s =
     (case s of
        [] \<Rightarrow> False
      | c # r \<Rightarrow> c = CHR ''-'' \<and>
          (all_digits r \<or> (case partition_at (CHR ''.'') r of (a, Some b) \<Rightarrow> list_all is_digit a \<and> all_digits b | _ \<Rightarrow> False)))"

text \<open>
  An abbreviation: the long options that start with what is before an equals sign; \<open>-h\<close> with something
  attached to it.
\<close>

definition abbreviated :: "option_table \<Rightarrow> string \<Rightarrow> (string \<times> string option) list" where
  "abbreviated T s =
     (if starts_with ''--'' s
      then (let (p, v) = partition_at (CHR ''='') s
            in map (\<lambda>x. (fst x, v)) (filter (\<lambda>x. starts_with p (fst x)) (all_options T)))
      else if starts_with ''-h'' s then [(''-h'', Some (drop 2 s))] else [])"

definition classify :: "option_table \<Rightarrow> string \<Rightarrow> arg_class" where
  "classify T s =
     (let flags = map fst (all_options T)
      in if s = [] \<or> hd s \<noteq> CHR ''-'' then Operand s
         else if s \<in> set flags then Option s None
         else if length s = 1 then Operand s
         else (case partition_at (CHR ''='') s of
                 (p, Some v) \<Rightarrow> if p \<in> set flags then Option p (Some v) else
                   (case abbreviated T s of
                      [] \<Rightarrow> if negative_number s \<or> CHR '' '' \<in> set s then Operand s else Unknown_option
                    | [(f, x)] \<Rightarrow> Option f x | _ \<Rightarrow> Ambiguous)
               | (p, None) \<Rightarrow>
                   (case abbreviated T s of
                      [] \<Rightarrow> if negative_number s \<or> CHR '' '' \<in> set s then Operand s else Unknown_option
                    | [(f, x)] \<Rightarrow> Option f x | _ \<Rightarrow> Ambiguous)))"

text \<open>What follows \<open>--\<close> is never an option; no option takes it, so that it is left over.\<close>

fun classify_all :: "option_table \<Rightarrow> string list \<Rightarrow> arg_class list" where
  "classify_all T [] = []"
| "classify_all T (s # r) = (if s = ''--'' then [Unknown_option] else classify T s # classify_all T r)"

definition convert :: "(string \<Rightarrow> rat option) \<Rightarrow> conversion \<Rightarrow> string \<Rightarrow> arg_value option" where
  "convert py_float k s =
     (case k of
        To_text \<Rightarrow> Some (Text s)
      | To_int \<Rightarrow> map_option Whole (int_of_str s)
      | To_float \<Rightarrow> map_option Real (py_float s))"

fun convert_all :: "(string \<Rightarrow> rat option) \<Rightarrow> conversion \<Rightarrow> string list \<Rightarrow> arg_value list option" where
  "convert_all py_float k [] = Some []"
| "convert_all py_float k (s # r) =
     (case convert py_float k s of
        None \<Rightarrow> None | Some v \<Rightarrow> map_option (\<lambda>vs. v # vs) (convert_all py_float k r))"

fun operand_run :: "arg_class list \<Rightarrow> string list \<times> arg_class list" where
  "operand_run (Operand s # r) = (case operand_run r of (xs, rest) \<Rightarrow> (s # xs, rest))"
| "operand_run xs = ([], xs)"

lemma operand_run_length: "operand_run xs = (ys, rest) \<Longrightarrow> length rest \<le> length xs"
  by (induction xs arbitrary: ys rest rule: operand_run.induct) (auto split: prod.splits)

datatype parsed = Namespace namespace | Usage_error | Show_help

text \<open>Options are consumed from the left; what is left over is an error at the end. A later value replaces an earlier one.\<close>

function consume ::
  "(string \<Rightarrow> rat option) \<Rightarrow> option_table \<Rightarrow> arg_class list \<Rightarrow> bool \<Rightarrow> namespace \<Rightarrow> parsed" where
  "consume py_float T [] extras ns = (if extras then Usage_error else Namespace ns)"
| "consume py_float T (Operand s # r) extras ns = consume py_float T r True ns"
| "consume py_float T (Unknown_option # r) extras ns = consume py_float T r True ns"
| "consume py_float T (Ambiguous # r) extras ns = Usage_error"
| "consume py_float T (Option f v # r) extras ns =
     (case map_of (all_options T) f of
        None \<Rightarrow> Usage_error
      | Some Help \<Rightarrow> if v = None then Show_help else Usage_error
      | Some Flag \<Rightarrow> if v = None then consume py_float T r extras ((f, On) # ns) else Usage_error
      | Some (Store k) \<Rightarrow>
          (case (v, r) of
             (Some s, _) \<Rightarrow>
               (case convert py_float k s of
                  None \<Rightarrow> Usage_error | Some x \<Rightarrow> consume py_float T r extras ((f, x) # ns))
           | (None, Operand s # r') \<Rightarrow>
               (case convert py_float k s of
                  None \<Rightarrow> Usage_error | Some x \<Rightarrow> consume py_float T r' extras ((f, x) # ns))
           | _ \<Rightarrow> Usage_error)
      | Some (Many k) \<Rightarrow>
          (case v of
             Some s \<Rightarrow>
               (case convert py_float k s of
                  None \<Rightarrow> Usage_error | Some x \<Rightarrow> consume py_float T r extras ((f, Several [x]) # ns))
           | None \<Rightarrow>
               (case operand_run r of
                  ([], _) \<Rightarrow> Usage_error
                | (xs, rest) \<Rightarrow>
                    (case convert_all py_float k xs of
                       None \<Rightarrow> Usage_error
                     | Some vs \<Rightarrow> consume py_float T rest extras ((f, Several vs) # ns)))))"
  by pat_completeness auto
termination
  by (relation "measure (\<lambda>(_, _, xs, _, _). length xs)") (auto dest!: operand_run_length[OF sym])

definition parse_args :: "(string \<Rightarrow> rat option) \<Rightarrow> option_table \<Rightarrow> string list \<Rightarrow> parsed" where
  "parse_args py_float T argv =
     (let xs = classify_all T argv in if Ambiguous \<in> set xs then Usage_error else consume py_float T xs False [])"

section \<open>The scripts\<close>

definition whole_or :: "int \<Rightarrow> arg_value option \<Rightarrow> int" where
  "whole_or n v = (case v of Some (Whole i) \<Rightarrow> i | _ \<Rightarrow> n)"

definition text_or :: "string \<Rightarrow> arg_value option \<Rightarrow> string" where
  "text_or t v = (case v of Some (Text s) \<Rightarrow> s | _ \<Rightarrow> t)"

definition given_text :: "arg_value option \<Rightarrow> string option" where
  "given_text v = (case v of Some (Text s) \<Rightarrow> Some s | _ \<Rightarrow> None)"

definition reconcile_options :: option_table where
  "reconcile_options = [(''--older-than'', Store To_int), (''--limit'', Store To_int)]"

text \<open>
  \<open>main\<close>: exit code, output and world. The help and usage errors end the process before anything is done;
  a negative LIMIT is an error of the server, which \<open>run\<close> reports as any other.
\<close>

definition reconcile_main :: "env \<Rightarrow> settings \<Rightarrow> string list \<Rightarrow> world \<Rightarrow> int \<times> string list \<times> world" where
  "reconcile_main e s argv w =
     (case parse_args (\<lambda>_. None) reconcile_options argv of
        Usage_error \<Rightarrow> (2, [], w)
      | Show_help \<Rightarrow> (0, [], w)
      | Namespace ns \<Rightarrow>
          (let limit = whole_or 100 (map_of ns ''--limit'')
           in if limit < 0 then (1, [], w)
              else run_reconcile e s (whole_or 60 (map_of ns ''--older-than'')) (nat limit) w))"

definition sim_options :: option_table where
  "sim_options =
     [(''--count'', Store To_int), (''--concurrency'', Store To_int), (''--url'', Store To_text),
      (''--quantity'', Store To_text), (''--symbol'', Store To_text), (''--duplicate-every'', Store To_int),
      (''--secret'', Store To_text)]"

definition sim_args_of :: "namespace \<Rightarrow> sim_args" where
  "sim_args_of ns =
     \<lparr>sa_count = nat (whole_or 100 (map_of ns ''--count'')),
      sa_url = text_or ''http://127.0.0.1:8000'' (map_of ns ''--url''),
      sa_quantity = text_or ''0.001'' (map_of ns ''--quantity''), sa_symbol = given_text (map_of ns ''--symbol''),
      sa_duplicate_every = whole_or 0 (map_of ns ''--duplicate-every''),
      sa_secret = given_text (map_of ns ''--secret'')\<rparr>"

definition bench_options :: option_table where
  "bench_options =
     [(''--url'', Store To_text), (''--requests'', Store To_int), (''--concurrency'', Store To_int), (''--compare'', Flag),
      (''--concurrency-levels'', Many To_int), (''--binance-latency-ms'', Store To_float), (''--port'', Store To_int),
      (''--symbol'', Store To_text), (''--quantity'', Store To_text), (''--secret'', Store To_text)]"

definition bench_args_of :: "namespace \<Rightarrow> bench_args" where
  "bench_args_of ns =
     \<lparr>ba_requests = nat (whole_or 100 (map_of ns ''--requests'')),
      ba_concurrency = nat (whole_or 50 (map_of ns ''--concurrency'')),
      ba_compare = (map_of ns ''--compare'' = Some On),
      ba_levels = (case map_of ns ''--concurrency-levels'' of
          Some (Several vs) \<Rightarrow> map (\<lambda>v. nat (whole_or 0 (Some v))) vs | _ \<Rightarrow> [10, 25, 50]),
      ba_latency = (case map_of ns ''--binance-latency-ms'' of Some (Real x) \<Rightarrow> x | _ \<Rightarrow> 165),
      ba_port = whole_or 8801 (map_of ns ''--port''),
      ba_url = text_or ''http://127.0.0.1:8000'' (map_of ns ''--url''),
      ba_secret = given_text (map_of ns ''--secret'')\<rparr>"

section \<open>Lemmas\<close>

text \<open>A number is never taken for an option, whatever its sign.\<close>

lemma str_int_operand: "classify T (str_int i) = Operand (str_int i)" if "\<forall>x \<in> set T. \<not> negative_number (fst x)"
proof (cases "i < 0")
  case False
  have "hd (str_nat (nat i)) \<noteq> CHR ''-''"
    using str_nat_digits [of "nat i"] by (cases "str_nat (nat i)") (auto simp: is_digit_def)
  then show ?thesis using False by (simp add: classify_def str_int_def)
next
  case True
  let ?n = "str_nat (nat (- i))"
  have dig: "\<forall>c \<in> set ?n. is_digit c" using str_nat_digits by (simp add: list_all_iff)
  have num: "negative_number (CHR ''-'' # ?n)"
    using dig by (simp add: negative_number_def all_digits_def list_all_iff)
  have flag: "CHR ''-'' # ?n \<notin> set (map fst (all_options T))"
  proof
    assume "CHR ''-'' # ?n \<in> set (map fst (all_options T))"
    then obtain x where x: "x \<in> set (all_options T)" "fst x = CHR ''-'' # ?n" by auto
    have "hd ?n \<noteq> CHR ''h'' \<and> hd ?n \<noteq> CHR ''-''"
      using dig by (cases ?n) (auto simp: is_digit_def)
    then have "x \<in> set T" using x by (cases ?n) (auto simp: all_options_def)
    then show False using that x num by metis
  qed
  have no: "CHR ''='' \<notin> set (CHR ''-'' # ?n)" using dig by (auto simp: is_digit_def)
  have "partition_at (CHR ''='') (CHR ''-'' # ?n) = (CHR ''-'' # ?n, None)"
    using no by (simp add: partition_at_def)
  moreover have "abbreviated T (CHR ''-'' # ?n) = []"
    using dig by (cases ?n) (auto simp: abbreviated_def starts_with_def is_digit_def)
  ultimately show ?thesis
    using True flag num by (cases ?n) (simp_all add: classify_def str_int_def Let_def)
qed

text \<open>The two options of the reconciliation run reach it, whatever integers they are; so do the defaults.\<close>

lemma reconcile_flags:
  "classify reconcile_options ''--older-than'' = Option ''--older-than'' None"
  "classify reconcile_options ''--limit'' = Option ''--limit'' None"
  "map_of (all_options reconcile_options) ''--older-than'' = Some (Store To_int)"
  "map_of (all_options reconcile_options) ''--limit'' = Some (Store To_int)"
  by (simp_all add: classify_def all_options_def reconcile_options_def)

lemma reconcile_numbers: "classify reconcile_options (str_int i) = Operand (str_int i)"
  by (rule str_int_operand) (simp add: reconcile_options_def negative_number_def all_digits_def is_digit_def partition_at_def)

lemma str_int_not_dashes: "str_int i \<noteq> ''--''"
proof
  assume "str_int i = ''--''"
  then have "classify reconcile_options ''--'' = Operand ''--''" using reconcile_numbers [of i] by simp
  moreover have "int_of_str ''--'' = None" by code_simp
  ultimately show False using \<open>str_int i = ''--''\<close> str_int_back [of i] by simp
qed

lemma reconcile_command_line:
  "parse_args f reconcile_options [''--older-than'', str_int a, ''--limit'', str_int b] =
    Namespace [(''--limit'', Whole b), (''--older-than'', Whole a)]"
  "parse_args f reconcile_options [] = Namespace []"
  by (simp_all add: parse_args_def reconcile_flags reconcile_numbers str_int_not_dashes convert_def str_int_back)

lemma reconcile_main_runs:
  "0 \<le> b \<Longrightarrow> reconcile_main e s [''--older-than'', str_int a, ''--limit'', str_int b] w = run_reconcile e s a (nat b) w"
  "reconcile_main e s [] w = run_reconcile e s 60 100 w"
  by (simp_all add: reconcile_main_def reconcile_command_line whole_or_def)

text \<open>Whatever the command line, no order is sent and the tables stay sound; a usage error does nothing at all.\<close>

lemma reconcile_main_quiet:
  assumes "reconcile_main e s argv w = (code, out, w')"
  shows "order_count w' = order_count w \<and> code \<in> {0, 1, 2} \<and> (db_ok (w_db w) \<longrightarrow> db_ok (w_db w')) \<and>
    (code = 2 \<longrightarrow> w' = w)"
  using assms run_reconcile_quiet [of e s _ _ w code out w']
  by (fastforce simp: reconcile_main_def Let_def split: parsed.splits if_splits)

text \<open>An abbreviation is enough where it is unambiguous.\<close>

lemma abbreviations:
  "parse_args f sim_options [''--count=5'', ''--dup'', ''3''] =
    Namespace [(''--duplicate-every'', Whole 3), (''--count'', Whole 5)]"
  "parse_args f sim_options [''--co'', ''5''] = Usage_error"
  by code_simp+

lemma default_arguments: "sim_args_of [] = default_sim_args" "bench_args_of [] = default_bench_args"
  by (simp_all add: sim_args_of_def default_sim_args_def bench_args_of_def default_bench_args_def whole_or_def text_or_def
      given_text_def)

end
