(* ===== verification/Log_Records.thy ===== *)
theory Log_Records
  imports Request_Context
begin

text \<open>
  The id on each log line (\<open>app/core/logging_config.py\<close>): a context variable that belongs to one task, the
  filter that copies it into every record, and the format. A worker of the queue sets it from each job,
  so that the lines of its turn carry the id of the request that queued the job.
\<close>

section \<open>The context variable\<close>

text \<open>None until something is set in the task, which reads as the default.\<close>

type_synonym request_ctx = "string option"

definition set_request_id :: "string \<Rightarrow> request_ctx \<Rightarrow> request_ctx" where
  "set_request_id rid ctx = Some rid"

definition get_request_id :: "request_ctx \<Rightarrow> string" where
  "get_request_id ctx = (case ctx of None \<Rightarrow> ''-'' | Some rid \<Rightarrow> rid)"

section \<open>Records\<close>

record log_record =
  lr_asctime :: string
  lr_level :: log_level
  lr_name :: string
  lr_message :: string
  lr_request_id :: "string option"

fun level_name :: "log_level \<Rightarrow> string" where
  "level_name DEBUG = ''DEBUG''"
| "level_name INFO = ''INFO''"
| "level_name WARNING = ''WARNING''"
| "level_name ERROR = ''ERROR''"
| "level_name CRITICAL = ''CRITICAL''"

definition request_id_filter :: "request_ctx \<Rightarrow> log_record \<Rightarrow> log_record" where
  "request_id_filter ctx r = r\<lparr>lr_request_id := Some (get_request_id ctx)\<rparr>"

text \<open>None is the KeyError of a record without the field.\<close>

definition format_record :: "log_record \<Rightarrow> string option" where
  "format_record r =
     map_option (\<lambda>rid. lr_asctime r @ '' '' @ level_name (lr_level r) @
         replicate (8 - length (level_name (lr_level r))) (CHR '' '') @ '' ['' @ rid @ ''] '' @
         lr_name r @ '': '' @ lr_message r)
       (lr_request_id r)"

definition log_line :: "request_ctx \<Rightarrow> log_record \<Rightarrow> string option" where
  "log_line ctx r = format_record (request_id_filter ctx r)"

text \<open>A worker's turns: each job with the records its execution emits.\<close>

fun worker_lines :: "request_ctx \<Rightarrow> ((int \<times> string) \<times> log_record list) list \<Rightarrow> string option list" where
  "worker_lines ctx [] = []"
| "worker_lines ctx (((tid, rid), rs) # turns) =
     (let ctx1 = set_request_id rid ctx in map (log_line ctx1) rs @ worker_lines ctx1 turns)"

section \<open>Lemmas\<close>

text \<open>The formatter never raises, whoever emits the record and whatever the record held before.\<close>

lemma log_line_has_id:
  "\<exists>before after. log_line ctx r = Some (before @ ''['' @ get_request_id ctx @ '']'' @ after)"
proof -
  let ?b = "lr_asctime r @ '' '' @ level_name (lr_level r) @ replicate (8 - length (level_name (lr_level r))) (CHR '' '') @ '' ''"
  have "log_line ctx r = Some (?b @ ''['' @ get_request_id ctx @ '']'' @ '' '' @ lr_name r @ '': '' @ lr_message r)"
    by (simp add: log_line_def format_record_def request_id_filter_def)
  then show ?thesis by blast
qed

lemma worker_lines_carry_the_id:
  "worker_lines ctx turns = concat (map (\<lambda>t. map (log_line (Some (snd (fst t)))) (snd t)) turns)"
  by (induction ctx turns rule: worker_lines.induct) (simp_all add: set_request_id_def Let_def)

text \<open>
  The queue hands out a job with the id it was submitted under, so that the lines of the turn that executes
  a trade carry the id of the request that accepted it.
\<close>

lemma queued_id_is_logged:
  assumes "submit tid (get_request_id (set_request_id rid ctx)) q = (True, q1)" "items q = []"
  shows "\<exists>q2. queue_get q1 = Some ((tid, rid), q2) \<and>
    worker_lines ctx' [((tid, rid), rs)] = map (log_line (Some rid)) rs"
  using assms unfolding worker_lines_carry_the_id
  by (auto simp: submit_def put_nowait_def queue_get_def set_request_id_def get_request_id_def
      split: if_splits option.splits)

end
