(* ===== verification/Spec2Isabelle.thy ===== *)
theory Spec2Isabelle
  imports Unheard Submission Wire App_Contract Sessions Exchange_Contract Routes_Examples Columns Db_Url Request_Context Ops_Scripts
    Schema_Refinement Alembic_Env Lifespan Command_Line Log_Records
begin

text \<open>
  A model of the crypto auto-trading backend in \<open>app/\<close> and of the scripts around it: TradingView signals
  become trade rows, rows become market orders on the Binance testnet, and what the exchange says
  becomes the rows' statuses; people register, log in and read their own trades.

  A request comes in through the middleware to a route, which resolves its dependencies and calls a
  service. The trading service commits a PENDING row, claims it with a conditional UPDATE, places the
  order and records the outcome, in the request itself or in a worker of the execution queue; the
  reconciliation service asks the exchange about rows whose fate is open. All of them share the tables
  and run interleaved.

  The parts and the theories that model them, in the order of the calls.

  \<^item> Prelude, Numbers (\<open>app/core/numbers.py\<close>): strings as Python has them, decimals, \<open>format_decimal\<close>.
  \<^item> Models, Database (\<open>app/db/models.py\<close>, the initial migration): enumerations, rows, column types, the
    tables with their indexes, and the statements the services issue. The locale \<open>trade_table\<close> is what
    the trading code relies on. Columns: the column types as an invariant of the running system.
  \<^item> Migration, Migration_Contract, Row_Store, Schema_Refinement (\<open>alembic/versions/\<close>): the DDL of the initial
    migration and what the server makes of it; the schema it leaves, and that the statements of Database
    are the ones this schema allows. Alembic_Env (\<open>alembic/env.py\<close>): how a migration gets to its database.
  \<^item> Config, Db_Url (\<open>app/core/config.py\<close>, \<open>app/db/database.py\<close>): settings, validators, the testnet gate; the
    rewriting of the database URL and the engine options.
  \<^item> World: the environment (exchange, clock, COMMITs), a parameter of every operation; the world a call
    changes (database, log of requests, cached owner id). A COMMIT may fail having taken effect, and
    leave its object changed, reverted or unreadable; Unheard shows what becomes of signals then.
  \<^item> Sessions (\<open>app/db/database.py\<close>): the engine, the session factory, \<open>get_db\<close>. The locale \<open>unit_of_work\<close> is
    what it relies on; a session over a world provides it and gives the \<open>db_commit\<close> of World.
  \<^item> Errors (\<open>app/core/exceptions.py\<close>): domain errors and the handlers' envelopes.
  \<^item> Sha256, Urllib, Binance, Fates, Exchange_Contract (\<open>app/services/binance_service.py\<close>): the client, the
    contract its errors keep, and the locale \<open>exchange_api\<close> the services use. Wire: the text of a signed
    request as the HTTP library writes it, and that it is the text that was signed.
  \<^item> Schemas, Payload_Contract (\<open>app/schemas/\<close>): payload validation, trade responses, and what an accepted
    payload guarantees to the column types and the exchange.
  \<^item> Job_Queue, Executor (\<open>app/services/execution_queue.py\<close>): the bounded queue with the
    locale \<open>bounded_fifo\<close>, the executor, its workers. Lifespan (\<open>app/main.py\<close>): startup, shutdown, restart.
  \<^item> Reconcile (\<open>app/services/reconciliation_service.py\<close>), Trading, Trading_Contract
    (\<open>app/services/trading_service.py\<close>): the services. Submission: the status each outcome of an order is
    recorded with, the reasons a submission has for raising, and which values the columns refuse.
  \<^item> Interleaving, Race, Divergences: handlers cut at their awaits and run side by side, with crashes; the
    invariant of the whole system; a run, and places where the code departs from its documents.
  \<^item> Security, Accounts (\<open>app/core/security.py\<close>, \<open>app/services/auth_service.py\<close>, \<open>app/dependencies/auth.py\<close>,
    \<open>app/schemas/user.py\<close>, \<open>app/schemas/auth.py\<close>): passwords, tokens, secrets, registration, login, the
    authentication dependency.
  \<^item> Routes, Routes_Contract, Routes_Examples (\<open>app/api/routes/\<close>, \<open>app/dependencies/services.py\<close>): every
    endpoint with its dependencies and exception handlers; what the endpoints promise.
  \<^item> App, App_Contract (\<open>app/api/router.py\<close>, the route decorators, \<open>create_app\<close>): the table of routes, dispatch,
    and the application as one function of a request; which effects come through which route.
  \<^item> Request_Context, Log_Records (\<open>app/core/middleware.py\<close>, \<open>app/core/logging_config.py\<close>): request ids, the layers
    around a route, the logger tree, the id on each log line.
  \<^item> Load_Scripts, Bench_Runs, Ops_Scripts (\<open>scripts/\<close>): the load generators' signals, statistics, runs and
    reports, the servers of a comparison, the reconciliation run from the shell, the set-up check.
    Command_Line: \<open>argparse\<close> for parsers of options, and the scripts' parsers.
  \<^item> Bench_App (\<open>scripts/bench_app.py\<close>, \<open>tests/fakes.py\<close>): the simulated exchange of the benchmark, a second
    interpretation of \<open>exchange_api\<close>.
  \<^item> Fixtures: the inputs of the witnesses.

  What the lemmas show, in short: no signal gets a second order, in any interleaving with crashes; the
  status of a trade and the status of a response say what is known of the order and no more; nothing
  happens without the shared secret, and nobody sees or touches another account's trades; identifiers
  and quantities fit where they go; the numbers, URLs, signatures and tokens read back.

  Bounds and fuel. \<open>run_phases\<close> and \<open>run_worker\<close> take fuel: five phases are the most a claimed job has
  (lemma \<open>phases_compose_to_handlers\<close>), and a worker is given as many
  turns as there are jobs. \<open>delete_rows\<close> takes fuel for chains of cascades: 2, as trades refer to users and
  nothing refers to trades. Waiting for a server's health ends because each failed poll takes 400 ms. The
  constants of SHA-256 are derived with 40 bits of the roots, more than the 32 that are kept. Everything
  else is total.

  Parameters, and what is assumed of them: the exchange, the clock and COMMIT answer anything; bcrypt
  verifies what it hashed, within the column (\<open>bcrypt_laws\<close>); PyJWT, which may refuse to encode, decodes
  the claims of the access tokens until they expire when it encoded them with an HMAC algorithm (\<open>jwt_laws\<close>);
  the HTTP library's parameter encoder leaves unreserved characters as they are (\<open>encodes_plainly\<close>); Starlette matches
  paths of one line as documented (\<open>matcher_laws\<close>); the e-mail validator,
  Pydantic's wording, the reading of URLs by the HTTP library, the \<open>ipaddress\<close> check and SQLAlchemy's URL
  parser are arbitrary.

  What the database refuses: values beyond a column's type or length, NUL characters in a text, a row
  id beyond 32 bits or an offset beyond 64 bits as a parameter, duplicates and missing owners; reads do not
  fail otherwise, and the sequences of the ids are taken not to run out.

  Not modelled: type coercion and OpenAPI metadata (Pydantic, FastAPI), the connection pool and the
  session's identity map beyond the commit of one object, log texts other than the access log,
  Alembic's own tables and the text of its offline output. Characters are code points below 128 except
  in passwords. The tests are no part of the model, their fake exchange apart; their fixtures are its
  examples.
\<close>

end
